(* ===== verification/Verse_Prelude.thy ===== *)
theory Verse_Prelude
  imports Main "HOL-Library.Word" "HOL-Library.Sublist"
begin

text \<open>
  What every theory of the development shares: the names of the machine types, the two ways a
  Rust function can fail to return a value, the string operations of the Rust standard library
  that the program uses, and the generic lemmas on lists, maps and words of the component
  proofs.

  A Rust \<open>String\<close> is its UTF-8 bytes, so it is a HOL \<^typ>\<open>string\<close>: a HOL character is one
  byte, and \<^const>\<open>length\<close> is \<open>str::len\<close>. The program is built with the release profile
  (\<open>Cargo.toml\<close>, \<open>build-hubserv.sh\<close>), where integer arithmetic wraps around, as it does on
  words; targets are 64-bit, so \<open>usize\<close> is 64 bits wide.
\<close>

section \<open>Machine types\<close>

type_synonym u8 = "8 word"
type_synonym u16 = "16 word"
type_synonym u32 = "32 word"
type_synonym i32 = "32 word"
type_synonym u64 = "64 word"
type_synonym usize = "64 word"
type_synonym bytes = "u8 list"

text \<open>The value of a computation that may panic instead of returning.\<close>

datatype 'a outcome = Panic | Returns 'a

text \<open>A \<open>Result\<close> is a sum, with the error on the left as in the library's convention.\<close>

abbreviation Err :: "'e \<Rightarrow> 'e + 'a" where "Err \<equiv> Inl"

abbreviation Ok :: "'a \<Rightarrow> 'e + 'a" where "Ok \<equiv> Inr"

named_theorems model_defs \<open>the definitions of a component that its proofs unfold\<close>

section \<open>Optional limits\<close>

text \<open>\<open>limit.unwrap_or(usize::MAX)\<close>: an absent limit is the largest \<open>usize\<close>.\<close>

definition limit_or_max :: "usize option \<Rightarrow> usize" where
  "limit_or_max m = (case m of None \<Rightarrow> - 1 | Some v \<Rightarrow> v)"

lemma limit_or_max_simps [simp]:
  "limit_or_max None = - 1"
  "limit_or_max (Some v) = v"
  by (simp_all add: limit_or_max_def)

lemma below_limit_no_wrap:
  fixes c m :: "'a::len word"
  assumes "\<not> m \<le> c"
  shows "unat (c + 1) = Suc (unat c)"
  using assms by unat_arith

lemma below_limit_le:
  fixes c m :: "'a::len word"
  assumes "\<not> m \<le> c"
  shows "c + 1 \<le> m"
  using assms by unat_arith

lemma unat_pred:
  fixes c :: "'a::len word"
  assumes "0 < unat c"
  shows "unat (c - 1) = unat c - 1"
proof -
  from assms have "1 \<le> c" by (simp add: word_le_nat_alt)
  then show ?thesis by (simp add: unat_sub)
qed

lemma unat_u8_less: "unat (b :: u8) < 256"
proof -
  have "unat b < 2 ^ LENGTH(8)" by (rule unsigned_less)
  then show ?thesis by simp
qed

section \<open>Decimal numbers\<close>

definition digit_char :: "nat \<Rightarrow> char" where
  "digit_char n = char_of (48 + n)"

lemma digit_chars:
  "digit_char 0 = CHR ''0''" "digit_char 1 = CHR ''1''" "digit_char (Suc 0) = CHR ''1''"
  "digit_char 2 = CHR ''2''" "digit_char 3 = CHR ''3''" "digit_char 4 = CHR ''4''"
  "digit_char 5 = CHR ''5''" "digit_char 6 = CHR ''6''" "digit_char 7 = CHR ''7''"
  "digit_char 8 = CHR ''8''" "digit_char 9 = CHR ''9''"
  by code_simp+

text \<open>How \<open>format!\<close> shows an unsigned number.\<close>

fun show_nat :: "nat \<Rightarrow> string" where
  "show_nat n = (if n < 10 then [digit_char n] else show_nat (n div 10) @ [digit_char (n mod 10)])"

declare show_nat.simps [simp del]

section \<open>Strings\<close>

text \<open>
  \<open>str::is_char_boundary\<close>: the ends of the string, and every byte that is not a UTF-8
  continuation byte (\<open>0x80\<close> to \<open>0xBF\<close>).
\<close>

definition is_char_boundary :: "string \<Rightarrow> nat \<Rightarrow> bool" where
  "is_char_boundary s i \<longleftrightarrow>
     i = 0 \<or> i = length s \<or> (i < length s \<and> \<not> (128 \<le> (of_char (s ! i) :: nat) \<and> (of_char (s ! i) :: nat) < 192))"

text \<open>\<open>&s[..n]\<close>: a slice that does not end on a character boundary panics.\<close>

definition str_slice_to :: "string \<Rightarrow> nat \<Rightarrow> string outcome" where
  "str_slice_to s n = (if is_char_boundary s n then Returns (take n s) else Panic)"

text \<open>\<open>s.strip_prefix(c)\<close> for a character \<open>c\<close>.\<close>

fun strip_prefix_char :: "char \<Rightarrow> string \<Rightarrow> string option" where
  "strip_prefix_char c [] = None"
| "strip_prefix_char c (x # xs) = (if x = c then Some xs else None)"

definition ends_with_char :: "string \<Rightarrow> char \<Rightarrow> bool" where
  "ends_with_char s c \<longleftrightarrow> s \<noteq> [] \<and> last s = c"

definition starts_with_char :: "string \<Rightarrow> char \<Rightarrow> bool" where
  "starts_with_char s c \<longleftrightarrow> s \<noteq> [] \<and> hd s = c"

text \<open>
  \<open>s.splitn(2, c)\<close>: one piece when \<open>c\<close> does not occur, else the text before its first
  occurrence and all the text after it.
\<close>

definition splitn2 :: "char \<Rightarrow> string \<Rightarrow> string list" where
  "splitn2 c s =
     (if c \<in> set s
      then [takeWhile (\<lambda>x. x \<noteq> c) s, tl (dropWhile (\<lambda>x. x \<noteq> c) s)]
      else [s])"

lemma dropWhile_hit: "c \<in> set s \<Longrightarrow> dropWhile (\<lambda>x. x \<noteq> c) s = c # tl (dropWhile (\<lambda>x. x \<noteq> c) s)"
  by (induction s) auto

lemma splitn2_join:
  "c \<in> set s \<Longrightarrow> takeWhile (\<lambda>x. x \<noteq> c) s @ c # tl (dropWhile (\<lambda>x. x \<noteq> c) s) = s"
  using dropWhile_hit [of c s] takeWhile_dropWhile_id [of "\<lambda>x. x \<noteq> c" s] by simp

lemma splitn2_first_clean: "c \<notin> set (takeWhile (\<lambda>x. x \<noteq> c) s)"
  by (auto dest: set_takeWhileD)

text \<open>The UTF-8 bytes of a string, \<open>str::as_bytes\<close>.\<close>

definition as_bytes :: "string \<Rightarrow> bytes" where
  "as_bytes s = map of_char s"

lemma length_as_bytes [simp]: "length (as_bytes s) = length s"
  by (simp add: as_bytes_def)

section \<open>Generic lemmas\<close>

lemma filter_distinct_remove:
  assumes "distinct (map f xs)" and "x \<in> set xs"
  shows "length (filter (\<lambda>y. f y \<noteq> f x) xs) = length xs - 1"
  using assms
proof (induction xs)
  case Nil
  then show ?case by simp
next
  case (Cons y ys)
  show ?case
  proof (cases "f y = f x")
    case True
    with Cons.prems have "\<forall>z \<in> set ys. f z \<noteq> f x" by (auto simp: image_iff)
    with True show ?thesis by simp
  next
    case False
    with Cons.prems have x: "x \<in> set ys" by auto
    from Cons.prems(1) have "distinct (map f ys)" by simp
    then have "length (filter (\<lambda>z. f z \<noteq> f x) ys) = length ys - 1" using x by (rule Cons.IH)
    moreover from x have "0 < length ys" by (rule length_pos_if_in_set)
    ultimately show ?thesis using False by simp
  qed
qed

lemma card_pos_dom: "finite (dom m) \<Longrightarrow> m k = Some v \<Longrightarrow> 0 < card (dom m)"
  by (metis card_gt_0_iff domI empty_iff)

lemma ex_map_upd: "m k = None \<Longrightarrow> (\<exists>x. (m(k \<mapsto> v)) x = Some y) \<longleftrightarrow> y = v \<or> (\<exists>x. m x = Some y)"
  using ran_map_upd [of m k v] unfolding ran_def by blast

lemma ex_map_del: "(\<exists>x. (m(k := None)) x = Some y) \<longleftrightarrow> (\<exists>x. x \<noteq> k \<and> m x = Some y)"
  by (auto split: if_splits)

end
