(* ===== verification/Rust_Iterators.thy ===== *)
theory Rust_Iterators
  imports Verse_Prelude
begin

text \<open>
  The contract of \<open>std::iter::Iterator\<close>, as its clients use it: \<open>next\<close> either reports the end
  or hands out an item and the rest. The abstraction \<open>remaining\<close> is the list of items still to
  come. The adaptors the program applies (\<open>collect\<close>, \<open>any\<close>, \<open>find\<close>, \<open>fold\<close>) are driven by
  \<open>next\<close> alone, with as much fuel as there are items; inside the locale they are shown to be the
  list functions over \<open>remaining\<close>. Routing_Info interprets the locale on both iterators of
  \<open>proto/src/routing_info_ex.rs\<close>.
\<close>

primrec drive :: "('s \<Rightarrow> ('a \<times> 's) option) \<Rightarrow> nat \<Rightarrow> 's \<Rightarrow> 'a list option" where
  "drive nxt 0 s = None"
| "drive nxt (Suc n) s =
     (case nxt s of None \<Rightarrow> Some [] | Some (x, s') \<Rightarrow> map_option ((#) x) (drive nxt n s'))"

primrec drive_any :: "('s \<Rightarrow> ('a \<times> 's) option) \<Rightarrow> ('a \<Rightarrow> bool) \<Rightarrow> nat \<Rightarrow> 's \<Rightarrow> bool option" where
  "drive_any nxt p 0 s = None"
| "drive_any nxt p (Suc n) s =
     (case nxt s of None \<Rightarrow> Some False
      | Some (x, s') \<Rightarrow> if p x then Some True else drive_any nxt p n s')"

primrec drive_fold :: "('s \<Rightarrow> ('a \<times> 's) option) \<Rightarrow> ('b \<Rightarrow> 'a \<Rightarrow> 'b) \<Rightarrow> nat \<Rightarrow> 's \<Rightarrow> 'b \<Rightarrow> 'b option" where
  "drive_fold nxt f 0 s acc = None"
| "drive_fold nxt f (Suc n) s acc =
     (case nxt s of None \<Rightarrow> Some acc | Some (x, s') \<Rightarrow> drive_fold nxt f n s' (f acc x))"

locale rust_iterator =
  fixes nxt :: "'s \<Rightarrow> ('a \<times> 's) option"
    and remaining :: "'s \<Rightarrow> 'a list"
  assumes next_end: "nxt s = None \<Longrightarrow> remaining s = []"
    and next_item: "nxt s = Some (x, s') \<Longrightarrow> remaining s = x # remaining s'"
begin

lemma drive_collects: "length (remaining s) < n \<Longrightarrow> drive nxt n s = Some (remaining s)"
proof (induction n arbitrary: s)
  case 0
  then show ?case by simp
next
  case (Suc n)
  then show ?case
    by (cases "nxt s") (auto simp: next_end next_item)
qed

lemma drive_any_list:
  "length (remaining s) < n \<Longrightarrow> drive_any nxt p n s = Some (\<exists>x \<in> set (remaining s). p x)"
proof (induction n arbitrary: s)
  case 0
  then show ?case by simp
next
  case (Suc n)
  then show ?case
    by (cases "nxt s") (auto simp: next_end next_item)
qed

lemma drive_fold_list:
  "length (remaining s) < n \<Longrightarrow> drive_fold nxt f n s acc = Some (foldl f acc (remaining s))"
proof (induction n arbitrary: s acc)
  case 0
  then show ?case by simp
next
  case (Suc n)
  then show ?case
    by (cases "nxt s") (auto simp: next_end next_item)
qed

text \<open>An iterator that maps the items of another, as \<open>RoutingInfoRecursiveIterator\<close> does.\<close>

lemma mapped_next_end: "map_option (\<lambda>(x, s'). (g x, s')) (nxt s) = None \<Longrightarrow> map g (remaining s) = []"
  by (simp add: next_end)

lemma mapped_next_item:
  "map_option (\<lambda>(x, s'). (g x, s')) (nxt s) = Some (y, s') \<Longrightarrow>
   map g (remaining s) = y # map g (remaining s')"
  by (auto simp: next_item)

end

end
