(* ===== verification/Routing_Info.thy ===== *)
theory Routing_Info
  imports Rust_Iterators "HOL-Library.AList" "HOL-Library.Multiset"
begin

text \<open>
  The routing information that peers and servers exchange: the messages of
  \<open>proto/pb/swarm.proto\<close>, the accessors of \<open>proto/src/lib.rs\<close> (module \<open>swarm\<close>) and the
  operations of \<open>proto/src/routing_info_ex.rs\<close>: breadth-first traversal with depths,
  membership, truncation before sending, and the gateway directory with its hop counts.

  The enum field of a prost message is an \<open>i32\<close>; the generated accessor \<open>node_type()\<close> reads
  it and falls back to the default variant. Coordinates are kept as their bit patterns.
  Depths and lengths are natural numbers: a tree in memory has far fewer than \<open>2 ^ 32\<close> nodes.
\<close>

section \<open>Messages\<close>

datatype node_type = Unspecified | Normal | Gateway | Tracker

fun node_type_to_i32 :: "node_type \<Rightarrow> i32" where
  "node_type_to_i32 Unspecified = 0"
| "node_type_to_i32 Normal = 1"
| "node_type_to_i32 Gateway = 2"
| "node_type_to_i32 Tracker = 3"

definition node_type_from_i32 :: "i32 \<Rightarrow> node_type option" where
  "node_type_from_i32 n =
     (if n = 0 then Some Unspecified else if n = 1 then Some Normal
      else if n = 2 then Some Gateway else if n = 3 then Some Tracker else None)"

lemma node_type_from_i32_simps [simp]:
  "node_type_from_i32 0 = Some Unspecified"
  "node_type_from_i32 1 = Some Normal"
  "node_type_from_i32 2 = Some Gateway"
  "node_type_from_i32 3 = Some Tracker"
  by (simp_all add: node_type_from_i32_def)

lemma node_type_roundtrip [simp]: "node_type_from_i32 (node_type_to_i32 t) = Some t"
  by (cases t) (simp_all add: node_type_from_i32_def)

record position3d =
  pos_x :: u64
  pos_y :: u32
  pos_z :: u64

definition from_xyz :: "u64 \<Rightarrow> u32 \<Rightarrow> u64 \<Rightarrow> position3d" where
  "from_xyz x y z = \<lparr>pos_x = x, pos_y = y, pos_z = z\<rparr>"

definition copy_from :: "position3d \<Rightarrow> position3d \<Rightarrow> position3d" where
  "copy_from self src = self\<lparr>pos_x := pos_x src, pos_y := pos_y src, pos_z := pos_z src\<rparr>"

record gateway_state =
  last_connect_time :: u64
  last_disconnect_time :: u64

record session_id_with_ttl =
  sw_session_id :: bytes
  sw_ttl :: u32

datatype 'r relation = Count u32 | RoutingInfos "'r list"

datatype routing_info = RoutingInfo
  (ri_node_type: i32)
  (ri_session_id: "bytes option")
  (ri_position: "position3d option")
  (ri_gateway_state: "gateway_state option")
  (ri_relation: "routing_info relation option")
  (ri_known: "session_id_with_ttl list")
  (ri_is_lockon: bool)

text \<open>\<open>RoutingInfo::default()\<close>, with the fields the code sets by struct update.\<close>

definition default_routing_info :: routing_info where
  "default_routing_info = RoutingInfo 0 None None None None [] False"

definition ri_node_type_of :: "routing_info \<Rightarrow> node_type" where
  "ri_node_type_of ri = (case node_type_from_i32 (ri_node_type ri) of None \<Rightarrow> Unspecified | Some t \<Rightarrow> t)"

fun with_relation :: "routing_info \<Rightarrow> routing_info relation option \<Rightarrow> routing_info" where
  "with_relation (RoutingInfo t s p g r k l) r' = RoutingInfo t s p g r' k l"

fun with_known :: "routing_info \<Rightarrow> session_id_with_ttl list \<Rightarrow> routing_info" where
  "with_known (RoutingInfo t s p g r k l) k' = RoutingInfo t s p g r k' l"

lemma with_relation_sel [simp]:
  "ri_relation (with_relation ri r) = r"
  "ri_node_type (with_relation ri r) = ri_node_type ri"
  "ri_session_id (with_relation ri r) = ri_session_id ri"
  "ri_position (with_relation ri r) = ri_position ri"
  "ri_gateway_state (with_relation ri r) = ri_gateway_state ri"
  "ri_known (with_relation ri r) = ri_known ri"
  "ri_is_lockon (with_relation ri r) = ri_is_lockon ri"
  by (cases ri; simp)+

lemma with_known_sel [simp]:
  "ri_relation (with_known ri k) = ri_relation ri"
  "ri_node_type (with_known ri k) = ri_node_type ri"
  "ri_session_id (with_known ri k) = ri_session_id ri"
  "ri_position (with_known ri k) = ri_position ri"
  "ri_gateway_state (with_known ri k) = ri_gateway_state ri"
  "ri_known (with_known ri k) = k"
  "ri_is_lockon (with_known ri k) = ri_is_lockon ri"
  by (cases ri; simp)+

section \<open>Accessors\<close>

definition set_count :: "routing_info \<Rightarrow> u32 \<Rightarrow> routing_info" where
  "set_count ri v = with_relation ri (Some (Count v))"

definition has_count :: "routing_info \<Rightarrow> bool" where
  "has_count ri = (case ri_relation ri of Some (Count _) \<Rightarrow> True | _ \<Rightarrow> False)"

definition has_routing_infos :: "routing_info \<Rightarrow> bool" where
  "has_routing_infos ri = (case ri_relation ri of Some (RoutingInfos _) \<Rightarrow> True | _ \<Rightarrow> False)"

definition get_relation_count :: "routing_info \<Rightarrow> nat" where
  "get_relation_count ri =
     (case ri_relation ri of Some (Count v) \<Rightarrow> unat v | Some (RoutingInfos ris) \<Rightarrow> length ris | _ \<Rightarrow> 0)"

definition get_relations :: "routing_info \<Rightarrow> routing_info list option" where
  "get_relations ri = (case ri_relation ri of Some (RoutingInfos ris) \<Rightarrow> Some ris | _ \<Rightarrow> None)"

definition set_relations :: "routing_info \<Rightarrow> routing_info list \<Rightarrow> routing_info" where
  "set_relations ri rs = with_relation ri (Some (RoutingInfos rs))"

text \<open>The sub-nodes a traversal visits.\<close>

definition children :: "routing_info \<Rightarrow> routing_info list" where
  "children ri = (case get_relations ri of None \<Rightarrow> [] | Some rs \<Rightarrow> rs)"

lemma get_relations_set [simp]: "get_relations (set_relations ri rs) = Some rs"
  by (simp add: get_relations_def set_relations_def)

lemma children_set_relations [simp]: "children (set_relations ri rs) = rs"
  by (simp add: children_def)

lemma children_set_count [simp]: "children (set_count ri n) = []"
  by (simp add: children_def set_count_def get_relations_def)

lemma get_relation_count_set_count [simp]: "get_relation_count (set_count ri n) = unat n"
  by (simp add: set_count_def get_relation_count_def)

lemma child_size: "c \<in> set (children ri) \<Longrightarrow> size c < size ri"
proof (cases ri)
  case (RoutingInfo t s p g r k l)
  assume c: "c \<in> set (children ri)"
  then obtain rs where "r = Some (RoutingInfos rs)" and "c \<in> set rs"
    by (auto simp: RoutingInfo children_def get_relations_def split: option.splits relation.splits)
  with RoutingInfo show ?thesis
    by (auto dest: size_list_estimation' [of _ _ _ size, OF _ order_refl])
qed

lemma routing_info_tree_induct [case_names node]:
  assumes "\<And>ri. (\<And>c. c \<in> set (children ri) \<Longrightarrow> P c) \<Longrightarrow> P ri"
  shows "P ri"
  by (induction ri rule: measure_induct_rule [of size]) (auto intro: assms child_size)

section \<open>Truncation before sending\<close>

text \<open>
  \<open>_to_send_data\<close>: the gateway directory is dropped, the tree is cut at the given depth, where
  the number of relations replaces the relations themselves, and above the cut only normal
  nodes and gateways are kept.
\<close>

primrec to_send_data_aux :: "nat \<Rightarrow> routing_info \<Rightarrow> routing_info" where
  "to_send_data_aux 0 ri = set_count (with_known ri []) (of_nat (get_relation_count ri))"
| "to_send_data_aux (Suc depth) ri =
     (let res = with_known ri [] in
      case ri_relation res of
        Some (RoutingInfos ris) \<Rightarrow>
          with_relation res (Some (RoutingInfos
            (map (to_send_data_aux depth)
              (filter (\<lambda>v. ri_node_type_of v = Normal \<or> ri_node_type_of v = Gateway) ris))))
      | _ \<Rightarrow> res)"

definition to_send_data :: "routing_info \<Rightarrow> u32 \<Rightarrow> routing_info" where
  "to_send_data ri depth = to_send_data_aux (unat depth) ri"

definition add_known :: "routing_info \<Rightarrow> bytes \<Rightarrow> routing_info" where
  "add_known ri session_id =
     (let infos = (case get_relations ri of Some infos \<Rightarrow> infos | None \<Rightarrow> []) in
      with_relation ri (Some (RoutingInfos
        (infos @ [RoutingInfo (node_type_to_i32 Normal) (Some session_id) None None None [] False]))))"

section \<open>Breadth-first traversal\<close>

text \<open>
  \<open>RoutingInfoRecursiveIteratorWithDepth\<close>: a queue of nodes with their depths; \<open>next\<close> takes the
  front node and appends its relations at the back.
\<close>

type_synonym ri_stack = "(routing_info \<times> nat) list"

definition recursive_iter_with_depth :: "routing_info list \<Rightarrow> ri_stack" where
  "recursive_iter_with_depth roots = map (\<lambda>v. (v, 0)) roots"

fun iter_next_with_depth :: "ri_stack \<Rightarrow> ((routing_info \<times> nat) \<times> ri_stack) option" where
  "iter_next_with_depth [] = None"
| "iter_next_with_depth (cur # stack) =
     Some (cur,
       case get_relations (fst cur) of
         Some relations \<Rightarrow> stack @ map (\<lambda>c. (c, snd cur + 1)) relations
       | None \<Rightarrow> stack)"


lemma children_size_sum: "sum_list (map size (children ri)) < size ri"
proof (cases ri)
  case (RoutingInfo t s p g r k l)
  have "sum_list (map size rs) \<le> size_list size rs" for rs :: "routing_info list"
    by (induction rs) auto
  then show ?thesis
    by (auto simp: RoutingInfo children_def get_relations_def less_Suc_eq_le
        intro: le_SucI split: option.splits relation.splits)
qed

lemma iter_next_with_depth_children:
  "iter_next_with_depth (cur # stack) = Some (cur, stack @ map (\<lambda>c. (c, snd cur + 1)) (children (fst cur)))"
  by (simp add: children_def split: option.splits)

text \<open>Running the iterator to its end, \<open>collect\<close>.\<close>

function iter_collect_with_depth :: "ri_stack \<Rightarrow> (routing_info \<times> nat) list" where
  "iter_collect_with_depth stack =
     (case iter_next_with_depth stack of
        None \<Rightarrow> []
      | Some (cur, stack') \<Rightarrow> cur # iter_collect_with_depth stack')"
  by pat_completeness auto
termination
proof (relation "measure (\<lambda>st. sum_list (map (size \<circ> fst) st))")
  fix stack a cur stack'
  assume "iter_next_with_depth stack = Some a" and "(cur, stack') = a"
  then obtain st where st: "stack = cur # st" and st': "stack' = st @ map (\<lambda>c. (c, snd cur + 1)) (children (fst cur))"
    by (cases stack) (auto simp: iter_next_with_depth_children simp del: iter_next_with_depth.simps(2))
  have "sum_list (map (size \<circ> fst) stack') = sum_list (map (size \<circ> fst) st) + sum_list (map size (children (fst cur)))"
    by (simp add: st' comp_def)
  with children_size_sum [of "fst cur"]
  show "(stack', stack) \<in> measure (\<lambda>st. sum_list (map (size \<circ> fst) st))"
    by (simp add: st)
qed simp

declare iter_collect_with_depth.simps [simp del]

lemma iter_collect_Nil [simp]: "iter_collect_with_depth [] = []"
  by (simp add: iter_collect_with_depth.simps)

lemma iter_collect_Cons [simp]:
  "iter_collect_with_depth (cur # stack) =
     cur # iter_collect_with_depth (stack @ map (\<lambda>c. (c, snd cur + 1)) (children (fst cur)))"
  by (subst iter_collect_with_depth.simps)
    (simp add: iter_next_with_depth_children del: iter_next_with_depth.simps(2))

definition recursive_iter :: "routing_info list \<Rightarrow> routing_info list" where
  "recursive_iter roots = map fst (iter_collect_with_depth (recursive_iter_with_depth roots))"



section \<open>Operations over the traversal\<close>

definition is_known :: "routing_info list \<Rightarrow> bytes \<Rightarrow> bool" where
  "is_known roots session_id =
     list_ex (\<lambda>v. (case ri_session_id v of None \<Rightarrow> False | Some s \<Rightarrow> s = session_id)) (recursive_iter roots)"

definition get_min_depth :: "routing_info list \<Rightarrow> bytes \<Rightarrow> nat option" where
  "get_min_depth roots session_id =
     (let depths = sort (List.map_filter
            (\<lambda>v. if (case ri_session_id (fst v) of None \<Rightarrow> False | Some s \<Rightarrow> s = session_id)
                 then Some (snd v) else None)
            (iter_collect_with_depth (recursive_iter_with_depth roots)))
      in case depths of [] \<Rightarrow> None | d # _ \<Rightarrow> Some d)"

definition ri_fold :: "routing_info \<Rightarrow> 'b \<Rightarrow> ('b \<Rightarrow> routing_info \<Rightarrow> 'b) \<Rightarrow> 'b" where
  "ri_fold ri init f = foldl f init (recursive_iter [ri])"

section \<open>The gateway directory\<close>

definition INITIAL_TTL :: u32 where "INITIAL_TTL = 6"

text \<open>
  The \<open>HashMap\<close> of the source is an association list with distinct keys; its iteration order is
  unspecified in Rust, so properties of results read them as maps.
\<close>

definition note_known :: "session_id_with_ttl \<Rightarrow> (bytes \<times> u32) list \<Rightarrow> (bytes \<times> u32) list" where
  "note_known o' exists =
     (case map_of exists (sw_session_id o') of
        Some v \<Rightarrow> if v < sw_ttl o' then AList.update (sw_session_id o') (sw_ttl o' - 1) exists else exists
      | None \<Rightarrow> AList.update (sw_session_id o') (sw_ttl o' - 1) exists)"

definition reflect_node_type :: "routing_info \<Rightarrow> (bytes \<times> u32) list \<Rightarrow> (bytes \<times> u32) list" where
  "reflect_node_type r exists =
     (case ri_session_id r of
        None \<Rightarrow> exists
      | Some session_id \<Rightarrow>
          if ri_node_type_of r = Gateway then AList.update session_id INITIAL_TTL exists
          else AList.delete session_id exists)"

definition get_known_gateway_session_ids :: "routing_info list \<Rightarrow> session_id_with_ttl list" where
  "get_known_gateway_session_ids roots =
     (let all = recursive_iter roots in
      case List.find (\<lambda>v. ri_node_type_of v = Tracker) all of
        Some tracker_ri \<Rightarrow>
          (case get_relations tracker_ri of
             None \<Rightarrow> []
           | Some gateways \<Rightarrow>
               List.map_filter
                 (\<lambda>v. map_option (\<lambda>session_id. \<lparr>sw_session_id = session_id, sw_ttl = INITIAL_TTL\<rparr>)
                        (ri_session_id v)) gateways)
      | None \<Rightarrow>
          let exists = fold (\<lambda>r. fold note_known (ri_known r)) all [];
              exists = fold reflect_node_type all exists
          in map (\<lambda>(session_id, ttl). \<lparr>sw_session_id = session_id, sw_ttl = ttl\<rparr>) exists)"

definition get_known_gateway_session_ids_next_ttl :: "routing_info list \<Rightarrow> session_id_with_ttl list" where
  "get_known_gateway_session_ids_next_ttl roots =
     map (\<lambda>v. v\<lparr>sw_ttl := sw_ttl v - 1\<rparr>)
       (filter (\<lambda>v. 1 < sw_ttl v) (get_known_gateway_session_ids roots))"

section \<open>The traversal, level by level\<close>

text \<open>The abstract view of a forest: the nodes of each depth, from left to right.\<close>

primrec level :: "nat \<Rightarrow> routing_info list \<Rightarrow> routing_info list" where
  "level 0 rs = rs"
| "level (Suc k) rs = level k (concat (map children rs))"

function tree_nodes :: "routing_info \<Rightarrow> routing_info list" where
  "tree_nodes ri = ri # concat (map tree_nodes (children ri))"
  by pat_completeness auto
termination
  by (relation "measure size") (auto intro: child_size)

declare tree_nodes.simps [simp del]

definition forest_size :: "routing_info list \<Rightarrow> nat" where
  "forest_size rs = sum_list (map size rs)"

lemma level_Nil [simp]: "level k [] = []"
  by (induction k) auto

lemma forest_size_children: "forest_size (concat (map children rs)) + length rs \<le> forest_size rs"
proof (induction rs)
  case Nil
  then show ?case by (simp add: forest_size_def)
next
  case (Cons r rs)
  with children_size_sum [of r] show ?case by (simp add: forest_size_def)
qed

lemma iter_collect_append:
  "iter_collect_with_depth (A @ B) =
     A @ iter_collect_with_depth (B @ concat (map (\<lambda>cur. map (\<lambda>c. (c, snd cur + 1)) (children (fst cur))) A))"
  by (induction A arbitrary: B) simp_all

lemma iter_collect_forest:
  "iter_collect_with_depth (map (\<lambda>r. (r, d)) rs) =
     map (\<lambda>r. (r, d)) rs @ iter_collect_with_depth (map (\<lambda>r. (r, Suc d)) (concat (map children rs)))"
  using iter_collect_append [of "map (\<lambda>r. (r, d)) rs" "[]"]
  by (simp add: map_concat comp_def)

lemma iter_collect_levels:
  "forest_size rs < h \<Longrightarrow>
   iter_collect_with_depth (map (\<lambda>r. (r, d)) rs) =
     concat (map (\<lambda>k. map (\<lambda>r. (r, d + k)) (level k rs)) [0..<h])"
proof (induction h arbitrary: rs d)
  case 0
  then show ?case by simp
next
  case (Suc h)
  show ?case
  proof (cases "rs = []")
    case True
    then show ?thesis by simp
  next
    case False
    then have "0 < length rs" by simp
    with Suc.prems forest_size_children [of rs] have "forest_size (concat (map children rs)) < h"
      by linarith
    from Suc.IH [OF this, of "Suc d"] show ?thesis
      by (simp add: iter_collect_forest [of d rs] upt_conv_Cons map_Suc_upt [symmetric] comp_def
          del: upt_Suc)
  qed
qed

lemma level_beyond: "forest_size rs < k \<Longrightarrow> level k rs = []"
proof (induction k arbitrary: rs)
  case 0
  then show ?case by simp
next
  case (Suc k)
  show ?case
  proof (cases "rs = []")
    case True
    then show ?thesis by simp
  next
    case False
    then have "0 < length rs" by simp
    with Suc.prems forest_size_children [of rs] have "forest_size (concat (map children rs)) < k"
      by linarith
    then show ?thesis by (simp add: Suc.IH)
  qed
qed

lemma iter_collect_mem:
  "(r, d) \<in> set (iter_collect_with_depth (recursive_iter_with_depth roots)) \<longleftrightarrow> r \<in> set (level d roots)"
proof -
  have "iter_collect_with_depth (recursive_iter_with_depth roots) =
      concat (map (\<lambda>k. map (\<lambda>r. (r, k)) (level k roots)) [0..<Suc (forest_size roots)])"
    using iter_collect_levels [of roots "Suc (forest_size roots)" 0]
    by (simp add: recursive_iter_with_depth_def del: upt_Suc)
  then have "(r, d) \<in> set (iter_collect_with_depth (recursive_iter_with_depth roots)) \<longleftrightarrow>
      d < Suc (forest_size roots) \<and> r \<in> set (level d roots)"
    by (auto simp del: upt_Suc)
  moreover have "r \<in> set (level d roots) \<Longrightarrow> d < Suc (forest_size roots)"
    using level_beyond [of roots d] by (cases "forest_size roots < d") auto
  ultimately show ?thesis by blast
qed

lemma recursive_iter_mem: "r \<in> set (recursive_iter roots) \<longleftrightarrow> (\<exists>d. r \<in> set (level d roots))"
  by (auto simp: recursive_iter_def iter_collect_mem [symmetric] image_iff) force

lemma concat_sorted_levels:
  "sorted (map snd (concat (map (\<lambda>k. map (\<lambda>r. (r, k)) (f k)) [i..<j])))"
proof (induction j)
  case 0
  then show ?case by simp
next
  case (Suc j)
  then show ?case by (cases "i \<le> j") (auto simp: sorted_append sorted_map comp_def)
qed

lemma iter_collect_sorted: "sorted (map snd (iter_collect_with_depth (recursive_iter_with_depth roots)))"
  using iter_collect_levels [of roots "Suc (forest_size roots)" 0] concat_sorted_levels
  by (simp add: recursive_iter_with_depth_def del: upt_Suc)

lemma iter_collect_mset:
  "mset (map fst (iter_collect_with_depth st)) = mset (concat (map (tree_nodes \<circ> fst) st))"
proof (induction st rule: measure_induct_rule [of "\<lambda>st. sum_list (map (size \<circ> fst) st)"])
  case (less st)
  show ?case
  proof (cases st)
    case Nil
    then show ?thesis by simp
  next
    case (Cons cur stack)
    let ?st' = "stack @ map (\<lambda>c. (c, snd cur + 1)) (children (fst cur))"
    have "sum_list (map (size \<circ> fst) ?st') < sum_list (map (size \<circ> fst) st)"
      using children_size_sum [of "fst cur"] by (simp add: Cons comp_def)
    from less.IH [OF this] show ?thesis
      by (simp add: Cons tree_nodes.simps [of "fst cur"] comp_def)
  qed
qed

text \<open>A node of a forest: a root, or a relation of one.\<close>

inductive in_forest :: "routing_info list \<Rightarrow> routing_info \<Rightarrow> bool" for roots where
  root: "r \<in> set roots \<Longrightarrow> in_forest roots r"
| child: "in_forest roots r \<Longrightarrow> c \<in> set (children r) \<Longrightarrow> in_forest roots c"

lemma level_Suc_children: "level (Suc k) rs = concat (map children (level k rs))"
  by (induction k arbitrary: rs) auto

lemma in_forest_level: "in_forest roots r \<longleftrightarrow> (\<exists>d. r \<in> set (level d roots))"
proof
  show "in_forest roots r \<Longrightarrow> \<exists>d. r \<in> set (level d roots)"
  proof (induction rule: in_forest.induct)
    case (root r)
    then have "r \<in> set (level 0 roots)" by simp
    then show ?case ..
  next
    case (child r c)
    then obtain d where "r \<in> set (level d roots)" by blast
    with child have "c \<in> set (level (Suc d) roots)" by (auto simp: level_Suc_children simp del: level.simps)
    then show ?case ..
  qed
next
  assume "\<exists>d. r \<in> set (level d roots)"
  then obtain d where "r \<in> set (level d roots)" ..
  then show "in_forest roots r"
    by (induction d arbitrary: r)
      (auto simp: level_Suc_children intro: in_forest.intros simp del: level.simps(2))
qed

lemma in_forest_Nil [simp]: "\<not> in_forest [] r"
proof
  assume "in_forest [] r"
  then show False by induction auto
qed

lemma in_forest_unfold:
  "in_forest roots r \<longleftrightarrow> r \<in> set roots \<or> in_forest (concat (map children roots)) r"
proof
  assume "in_forest roots r"
  then obtain d where "r \<in> set (level d roots)" by (auto simp: in_forest_level)
  then show "r \<in> set roots \<or> in_forest (concat (map children roots)) r"
    by (cases d) (auto simp: in_forest_level)
next
  assume "r \<in> set roots \<or> in_forest (concat (map children roots)) r"
  then show "in_forest roots r"
    by (metis in_forest.root in_forest_level level.simps(2))
qed

lemma recursive_iter_in_forest: "r \<in> set (recursive_iter roots) \<longleftrightarrow> in_forest roots r"
  by (simp add: recursive_iter_mem in_forest_level)

lemma in_forest_append: "in_forest (A @ B) r \<longleftrightarrow> in_forest A r \<or> in_forest B r"
proof -
  have "level d (A @ B) = level d A @ level d B" for d
    by (induction d arbitrary: A B) auto
  then show ?thesis by (auto simp: in_forest_level)
qed

lemma in_forest_singleton: "in_forest [ri] r \<longleftrightarrow> r = ri \<or> in_forest (children ri) r"
  using in_forest_unfold [of "[ri]" r] by simp

section \<open>Properties of the traversal\<close>

text \<open>
  Property C27. The traversal hands out every node of the forest exactly once (as a multiset it is
  the nodes of the trees), in order of depth, each with its own depth.
\<close>

theorem traversal_level_order:
  "mset (recursive_iter roots) = mset (concat (map tree_nodes roots)) \<and>
   sorted (map snd (iter_collect_with_depth (recursive_iter_with_depth roots))) \<and>
   ((r, d) \<in> set (iter_collect_with_depth (recursive_iter_with_depth roots)) \<longleftrightarrow> r \<in> set (level d roots))"
  using iter_collect_mset [of "recursive_iter_with_depth roots"]
  by (simp add: recursive_iter_def recursive_iter_with_depth_def iter_collect_sorted
      iter_collect_mem [unfolded recursive_iter_with_depth_def] comp_def
      iter_collect_sorted [unfolded recursive_iter_with_depth_def])


text \<open>
  \<open>is_known\<close> finds a session exactly when some node of the tree, at any depth,
  carries it.
\<close>

theorem is_known_iff: "is_known roots sid \<longleftrightarrow> (\<exists>r. in_forest roots r \<and> ri_session_id r = Some sid)"
  by (auto simp: is_known_def list_ex_iff recursive_iter_in_forest split: option.splits)

lemma map_filter_set: "d \<in> set (List.map_filter f xs) \<longleftrightarrow> (\<exists>x \<in> set xs. f x = Some d)"
  by (induction xs) (auto simp: List.map_filter_simps split: option.splits)

text \<open>
  Property C38. \<open>get_min_depth\<close> is the least depth at which the session occurs, and \<open>None\<close> when it
  does not occur.
\<close>

theorem get_min_depth_least:
  "get_min_depth roots sid =
     (if \<exists>d. Some sid \<in> ri_session_id ` set (level d roots)
      then Some (LEAST d. Some sid \<in> ri_session_id ` set (level d roots)) else None)"
proof -
  let ?at = "\<lambda>d. Some sid \<in> ri_session_id ` set (level d roots)"
  define ds where "ds = List.map_filter
    (\<lambda>v. if (case ri_session_id (fst v) of None \<Rightarrow> False | Some s \<Rightarrow> s = sid) then Some (snd v) else None)
    (iter_collect_with_depth (recursive_iter_with_depth roots))"
  have mem: "d \<in> set ds \<longleftrightarrow> ?at d" for d
  proof -
    have "d \<in> set ds \<longleftrightarrow> (\<exists>r. (r, d) \<in> set (iter_collect_with_depth (recursive_iter_with_depth roots)) \<and>
        ri_session_id r = Some sid)"
      by (force simp: ds_def map_filter_set split: option.splits if_splits)
    then show ?thesis by (simp add: iter_collect_mem image_iff) metis
  qed
  show ?thesis
  proof (cases "sort ds")
    case Nil
    then have "ds = []" by (metis length_0_conv length_sort)
    with mem have "\<not> (\<exists>d. ?at d)" by auto
    with Nil show ?thesis by (simp add: get_min_depth_def ds_def [symmetric])
  next
    case (Cons d rest)
    then have least: "d \<le> e" if "e \<in> set ds" for e
      using that sorted_sort [of ds] by (metis set_ConsD set_sort sorted_simps(2) order_refl)
    from Cons have "d \<in> set ds" by (metis list.set_intros(1) set_sort)
    then have d: "?at d" by (simp add: mem)
    then have "(LEAST d. ?at d) = d"
      by (rule Least_equality) (simp add: least mem)
    with d Cons show ?thesis by (auto simp: get_min_depth_def ds_def [symmetric])
  qed
qed

text \<open>
  \<open>add_known\<close> makes exactly one more session known, whatever the relation was before.
\<close>

theorem is_known_add_known: "is_known [add_known ri s] t \<longleftrightarrow> t = s \<or> is_known [ri] t"
proof -
  have kids: "children (add_known ri s) =
      children ri @ [RoutingInfo (node_type_to_i32 Normal) (Some s) None None None [] False]"
    by (simp add: add_known_def children_def get_relations_def)
  have leaf: "in_forest [RoutingInfo n (Some s) None None None [] False] r \<longleftrightarrow>
      r = RoutingInfo n (Some s) None None None [] False" for n r
    by (subst in_forest_singleton) (simp add: children_def get_relations_def)
  have "ri_session_id (add_known ri s) = ri_session_id ri"
    by (simp add: add_known_def)
  moreover have "in_forest [add_known ri s] r \<longleftrightarrow> r = add_known ri s \<or> in_forest (children ri) r \<or>
      r = RoutingInfo (node_type_to_i32 Normal) (Some s) None None None [] False" for r
    using in_forest_singleton [of "add_known ri s" r] by (simp add: kids in_forest_append leaf)
  ultimately show ?thesis
    using in_forest_singleton [of ri] unfolding is_known_iff by auto
qed

section \<open>Properties of truncation\<close>

definition sendable :: "routing_info \<Rightarrow> bool" where
  "sendable v \<longleftrightarrow> ri_node_type_of v = Normal \<or> ri_node_type_of v = Gateway"

text \<open>The nodes of each depth that are reached through sendable nodes only.\<close>

primrec kept_level :: "nat \<Rightarrow> routing_info list \<Rightarrow> routing_info list" where
  "kept_level 0 rs = rs"
| "kept_level (Suc k) rs = kept_level k (concat (map (\<lambda>r. filter sendable (children r)) rs))"

lemma to_send_data_aux_known [simp]: "ri_known (to_send_data_aux d ri) = []"
  by (cases d) (auto simp: set_count_def Let_def split: option.splits relation.splits)

lemma to_send_data_aux_frame [simp]:
  "ri_session_id (to_send_data_aux d ri) = ri_session_id ri"
  "ri_node_type (to_send_data_aux d ri) = ri_node_type ri"
  "ri_position (to_send_data_aux d ri) = ri_position ri"
  "ri_gateway_state (to_send_data_aux d ri) = ri_gateway_state ri"
  "ri_is_lockon (to_send_data_aux d ri) = ri_is_lockon ri"
  by (cases d; auto simp: set_count_def Let_def split: option.splits relation.splits)+

lemma children_to_send_data_aux:
  "children (to_send_data_aux d ri) =
     (case d of 0 \<Rightarrow> [] | Suc d' \<Rightarrow> map (to_send_data_aux d') (filter sendable (children ri)))"
  by (cases d) (auto simp: Let_def children_def get_relations_def set_count_def sendable_def [abs_def]
      split: option.splits relation.splits)

lemma level_to_send_data_aux:
  "level k (map (to_send_data_aux d) rs) =
     (if k \<le> d then map (to_send_data_aux (d - k)) (kept_level k rs) else [])"
proof (induction k arbitrary: d rs)
  case 0
  then show ?case by simp
next
  case (Suc k)
  have "concat (map children (map (to_send_data_aux d) rs)) =
      (case d of 0 \<Rightarrow> []
       | Suc d' \<Rightarrow> map (to_send_data_aux d') (concat (map (\<lambda>r. filter sendable (children r)) rs)))"
    by (induction rs) (auto simp: children_to_send_data_aux split: nat.splits)
  then show ?case
    by (cases d) (simp_all add: Suc.IH del: to_send_data_aux.simps map_map concat_eq_Nil_conv)
qed

text \<open>
  Property C28. \<open>to_send_data\<close> keeps, at each depth up to the given one, exactly the nodes reached
  through normal nodes and gateways, in order, and nothing below it; no node it sends carries a
  gateway directory.
\<close>

theorem to_send_data_levels:
  "level k [to_send_data ri depth] =
     (if k \<le> unat depth then map (to_send_data_aux (unat depth - k)) (kept_level k [ri]) else []) \<and>
   map ri_session_id (level k [to_send_data ri depth]) =
     (if k \<le> unat depth then map ri_session_id (kept_level k [ri]) else []) \<and>
   concat (map ri_known (level k [to_send_data ri depth])) = []"
  using level_to_send_data_aux [of k "unat depth" "[ri]"] by (auto simp: to_send_data_def comp_def)

text \<open>
  At the cut the number of relations survives (modulo \<open>2 ^ 32\<close>) while the relations
  go.
\<close>

theorem to_send_data_zero_counts:
  "has_count (to_send_data ri 0) \<and> children (to_send_data ri 0) = [] \<and>
   get_relation_count (to_send_data ri 0) = get_relation_count ri mod 2 ^ 32"
  by (simp add: to_send_data_def set_count_def has_count_def children_def get_relations_def
      unat_of_nat get_relation_count_def)

text \<open>Sending again what was already truncated changes nothing.\<close>

theorem to_send_data_idempotent:
  "to_send_data (to_send_data ri depth) depth = to_send_data ri depth"
proof -
  have "to_send_data_aux d (to_send_data_aux d r) = to_send_data_aux d r" for d r
  proof (induction d arbitrary: r)
    case 0
    show ?case by (cases r) (simp add: set_count_def get_relation_count_def)
  next
    case (Suc d)
    have types: "ri_node_type_of (to_send_data_aux d v) = ri_node_type_of v" for v
      by (simp add: ri_node_type_of_def)
    show ?case
      by (cases r) (auto simp: Let_def filter_map comp_def types Suc.IH split: option.splits relation.splits)
  qed
  then show ?thesis by (simp add: to_send_data_def)
qed

section \<open>Properties of the gateway directory\<close>

text \<open>The hop counts reported for a session by the nodes of a traversal, in order.\<close>

definition reports :: "bytes \<Rightarrow> routing_info list \<Rightarrow> u32 list" where
  "reports sid all =
     map sw_ttl (filter (\<lambda>o'. sw_session_id o' = sid) (concat (map ri_known all)))"

definition last_node :: "bytes \<Rightarrow> routing_info list \<Rightarrow> routing_info option" where
  "last_node sid all = List.find (\<lambda>r. ri_session_id r = Some sid) (rev all)"

text \<open>What one report does to the stored hop count of its session.\<close>

fun ttl_step :: "u32 \<Rightarrow> u32 option \<Rightarrow> u32 option" where
  "ttl_step t None = Some (t - 1)"
| "ttl_step t (Some v) = Some (if v < t then t - 1 else v)"

lemma map_of_note_known:
  "map_of (note_known o' ex) sid =
     (if sw_session_id o' = sid then ttl_step (sw_ttl o') (map_of ex sid) else map_of ex sid)"
  by (auto simp: note_known_def update_conv' split: option.splits)

lemma map_of_notes:
  "map_of (fold note_known os ex) sid =
     fold ttl_step (map sw_ttl (filter (\<lambda>o'. sw_session_id o' = sid) os)) (map_of ex sid)"
  by (induction os arbitrary: ex) (simp_all add: map_of_note_known)

lemma fold_note_known_concat:
  "fold (\<lambda>r. fold note_known (ri_known r)) all ex = fold note_known (concat (map ri_known all)) ex"
  by (induction all arbitrary: ex) simp_all

lemma pred_less_iff:
  fixes t m :: u32
  assumes "0 < t" and "0 < m"
  shows "m - 1 < t \<longleftrightarrow> m \<le> t"
  using assms by unat_arith

lemma fold_ttl_step_Some:
  assumes "0 < m" and "\<forall>t \<in> set ts. 0 < t"
  shows "fold ttl_step ts (Some (m - 1)) = Some (Max (insert m (set ts)) - 1)"
  using assms
proof (induction ts arbitrary: m)
  case Nil
  then show ?case by simp
next
  case (Cons t ts)
  let ?m = "max m t"
  have "ttl_step t (Some (m - 1)) = Some (?m - 1)"
    using Cons.prems by (auto simp: pred_less_iff max_def)
  moreover have "0 < ?m" using Cons.prems by (simp add: less_max_iff_disj)
  moreover have "Max (insert ?m (set ts)) = Max (insert m (insert t (set ts)))"
    by (cases "set ts = {}") (simp_all add: max.assoc)
  ultimately show ?case using Cons.IH [of ?m] Cons.prems by simp
qed

lemma fold_ttl_step:
  assumes "\<forall>t \<in> set ts. 0 < t"
  shows "fold ttl_step ts None = (if ts = [] then None else Some (Max (set ts) - 1))"
  using assms fold_ttl_step_Some by (cases ts) auto

lemma map_of_reflect:
  "map_of (reflect_node_type r ex) sid =
     (if ri_session_id r = Some sid
      then (if ri_node_type_of r = Gateway then Some INITIAL_TTL else None) else map_of ex sid)"
  by (auto simp: reflect_node_type_def update_conv' delete_conv' split: option.splits)

lemma map_of_reflects:
  "map_of (fold reflect_node_type all ex) sid =
     (case last_node sid all of
        Some r \<Rightarrow> if ri_node_type_of r = Gateway then Some INITIAL_TTL else None
      | None \<Rightarrow> map_of ex sid)"
proof (induction all rule: rev_induct)
  case Nil
  then show ?case by (simp add: last_node_def)
next
  case (snoc r all)
  then show ?case by (simp add: map_of_reflect last_node_def)
qed

lemma distinct_notes: "distinct (map fst ex) \<Longrightarrow> distinct (map fst (fold note_known os ex))"
proof (induction os arbitrary: ex)
  case Nil
  then show ?case by simp
next
  case (Cons x os)
  then have "distinct (map fst (note_known x ex))"
    by (auto simp: note_known_def distinct_update split: option.splits)
  then show ?case by (simp add: Cons.IH)
qed

lemma distinct_reflects: "distinct (map fst ex) \<Longrightarrow> distinct (map fst (fold reflect_node_type all ex))"
proof (induction all arbitrary: ex)
  case Nil
  then show ?case by simp
next
  case (Cons r all)
  then have "distinct (map fst (reflect_node_type r ex))"
    by (auto simp: reflect_node_type_def distinct_update distinct_delete split: option.splits)
  then show ?case by (simp add: Cons.IH)
qed

text \<open>The directory as a map from sessions to hop counts.\<close>

definition directory :: "session_id_with_ttl list \<Rightarrow> bytes \<Rightarrow> u32 option" where
  "directory xs = map_of (map (\<lambda>v. (sw_session_id v, sw_ttl v)) xs)"

text \<open>
  Property C29. Without a tracker in the forest, the directory of known gateways gives every
  session that occurs in the forest the hop count \<open>INITIAL_TTL\<close> if its last node is a gateway and
  no entry otherwise, and every other session the highest hop count reported for it less one;
  no session is listed twice.
\<close>

theorem gateway_directory:
  assumes no_tracker: "\<forall>r \<in> set (recursive_iter roots). ri_node_type_of r \<noteq> Tracker"
    and positive: "\<forall>t \<in> set (reports sid (recursive_iter roots)). 0 < t"
  shows "directory (get_known_gateway_session_ids roots) sid =
      (case last_node sid (recursive_iter roots) of
         Some r \<Rightarrow> if ri_node_type_of r = Gateway then Some INITIAL_TTL else None
       | None \<Rightarrow> if reports sid (recursive_iter roots) = [] then None
                 else Some (Max (set (reports sid (recursive_iter roots))) - 1)) \<and>
     distinct (map sw_session_id (get_known_gateway_session_ids roots))"
proof -
  let ?all = "recursive_iter roots"
  let ?ex = "fold reflect_node_type ?all (fold (\<lambda>r. fold note_known (ri_known r)) ?all [])"
  from no_tracker have "List.find (\<lambda>v. ri_node_type_of v = Tracker) ?all = None"
    by (simp add: find_None_iff)
  then have res: "get_known_gateway_session_ids roots =
      map (\<lambda>(session_id, ttl). \<lparr>sw_session_id = session_id, sw_ttl = ttl\<rparr>) ?ex"
    by (simp add: get_known_gateway_session_ids_def Let_def)
  then have "directory (get_known_gateway_session_ids roots) sid = map_of ?ex sid"
    by (simp add: directory_def comp_def case_prod_unfold)
  moreover have "map_of (fold note_known (concat (map ri_known ?all)) []) sid =
      fold ttl_step (reports sid ?all) None"
    by (simp add: map_of_notes reports_def)
  moreover have "distinct (map sw_session_id (get_known_gateway_session_ids roots))"
    using distinct_reflects [OF distinct_notes [of "[]" "concat (map ri_known ?all)"], of ?all]
    by (simp add: res fold_note_known_concat comp_def case_prod_unfold)
  ultimately show ?thesis
    using fold_ttl_step [OF positive]
    by (simp add: map_of_reflects fold_note_known_concat split: option.splits)
qed

text \<open>The nodes of the source's own test \<open>test_get_known_gateway_session_ids\<close>.\<close>

definition gateway_fixture :: "routing_info list" where
  "gateway_fixture =
     (let f = \<lambda>session_id ttl. \<lparr>sw_session_id = session_id, sw_ttl = ttl\<rparr>;
          n = \<lambda>session_id t known.
            RoutingInfo (node_type_to_i32 t) (Some session_id) None None None known False
      in [n [1] Gateway [f [2] 3, f [3] 2],
          n [2] Gateway [f [1] 1, f [3] 1],
          n [4] Gateway [f [3] 2],
          n [5] Normal [f [3] 2, f [6] 2],
          n [6] Normal []])"

lemma gateway_fixture_iter: "recursive_iter gateway_fixture = gateway_fixture"
  by (simp add: recursive_iter_def recursive_iter_with_depth_def gateway_fixture_def
      children_def get_relations_def)

theorem gateway_directory_witness:
  "directory (get_known_gateway_session_ids gateway_fixture) [3] = Some 1 \<and>
   directory (get_known_gateway_session_ids gateway_fixture) [1] = Some 6 \<and>
   directory (get_known_gateway_session_ids gateway_fixture) [6] = None"
proof -
  have no_tracker: "\<forall>r \<in> set (recursive_iter gateway_fixture). ri_node_type_of r \<noteq> Tracker"
    by (simp add: gateway_fixture_iter)
      (simp add: gateway_fixture_def ri_node_type_of_def node_type_from_i32_def)
  have positive: "\<forall>t \<in> set (reports sid (recursive_iter gateway_fixture)). 0 < t" for sid
    by (simp add: gateway_fixture_iter reports_def) (auto simp: gateway_fixture_def)
  have "reports [3] (recursive_iter gateway_fixture) = [2, 1, 2, 2]"
    unfolding gateway_fixture_iter by (simp add: gateway_fixture_def reports_def)
  moreover have "\<exists>r. last_node [1] (recursive_iter gateway_fixture) = Some r \<and> ri_node_type_of r = Gateway"
    and "\<exists>r. last_node [6] (recursive_iter gateway_fixture) = Some r \<and> ri_node_type_of r = Normal"
    and "last_node [3] (recursive_iter gateway_fixture) = None"
    unfolding gateway_fixture_iter
    by (simp_all add: gateway_fixture_def last_node_def ri_node_type_of_def)
  ultimately show ?thesis
    using gateway_directory [OF no_tracker positive, of "[1]"] gateway_directory [OF no_tracker positive, of "[3]"]
      gateway_directory [OF no_tracker positive, of "[6]"]
    by (auto simp: INITIAL_TTL_def)
qed

text \<open>
  Next to a tracker, the directory is the tracker's own relations that have a session,
  in their order, each with the full hop count; what the other nodes report is not used.
\<close>

theorem gateway_directory_tracker:
  assumes "List.find (\<lambda>v. ri_node_type_of v = Tracker) (recursive_iter roots) = Some tracker"
  shows "get_known_gateway_session_ids roots =
    map (\<lambda>s. \<lparr>sw_session_id = s, sw_ttl = INITIAL_TTL\<rparr>) (List.map_filter ri_session_id (children tracker))"
proof -
  have "List.map_filter (\<lambda>v. map_option g (f v)) xs = map g (List.map_filter f xs)"
    for f :: "routing_info \<Rightarrow> bytes option" and g :: "bytes \<Rightarrow> session_id_with_ttl" and xs
    by (induction xs) (auto simp: List.map_filter_simps split: option.splits)
  with assms show ?thesis
    by (simp add: get_known_gateway_session_ids_def Let_def children_def List.map_filter_simps
        split: option.splits)
qed

definition tracker_fixture :: routing_info where
  "tracker_fixture =
     RoutingInfo (node_type_to_i32 Tracker) (Some [1]) None None
       (Some (RoutingInfos
         [RoutingInfo (node_type_to_i32 Gateway) (Some [100]) None None None [] False,
          RoutingInfo (node_type_to_i32 Gateway) (Some [101]) None None None [] False]))
       [\<lparr>sw_session_id = [2], sw_ttl = 3\<rparr>] False"

theorem gateway_directory_tracker_witness:
  "map sw_session_id (get_known_gateway_session_ids [tracker_fixture]) = [[100], [101]]"
proof -
  have "List.find (\<lambda>v. ri_node_type_of v = Tracker) (recursive_iter [tracker_fixture]) = Some tracker_fixture"
    by (simp add: recursive_iter_def recursive_iter_with_depth_def tracker_fixture_def
        ri_node_type_of_def node_type_from_i32_def)
  from gateway_directory_tracker [OF this] show ?thesis
    by (simp add: tracker_fixture_def children_def get_relations_def List.map_filter_simps)
qed

text \<open>
  What a node passes on never has a hop count of zero, and every hop count passed on
  is one less than the one in the directory.
\<close>

theorem next_ttl_positive:
  assumes "v \<in> set (get_known_gateway_session_ids_next_ttl roots)"
  shows "0 < sw_ttl v \<and> v\<lparr>sw_ttl := sw_ttl v + 1\<rparr> \<in> set (get_known_gateway_session_ids roots)"
proof -
  from assms obtain u where u: "u \<in> set (get_known_gateway_session_ids roots)" "1 < sw_ttl u"
    and v: "v = u\<lparr>sw_ttl := sw_ttl u - 1\<rparr>"
    by (auto simp: get_known_gateway_session_ids_next_ttl_def)
  from u(2) have "0 < sw_ttl u - 1" by unat_arith
  with u v show ?thesis by simp
qed

theorem next_ttl_positive_witness:
  "0 < sw_ttl \<lparr>sw_session_id = [100], sw_ttl = 5\<rparr>"
proof -
  have "\<lparr>sw_session_id = [100], sw_ttl = 5\<rparr> \<in> set (get_known_gateway_session_ids_next_ttl [tracker_fixture])"
    by (simp add: get_known_gateway_session_ids_next_ttl_def get_known_gateway_session_ids_def
        recursive_iter_def recursive_iter_with_depth_def tracker_fixture_def children_def
        get_relations_def ri_node_type_of_def node_type_from_i32_def List.map_filter_simps INITIAL_TTL_def)
  from next_ttl_positive [OF this] show ?thesis by simp
qed

text \<open>
  A hop count of zero in a report is not refused: in the release build it wraps around,
  so the session is passed on with \<open>2 ^ 32 - 2\<close> hops instead of being dropped.
\<close>

theorem zero_ttl_wraps:
  "directory (get_known_gateway_session_ids_next_ttl
     [RoutingInfo n None p g None [\<lparr>sw_session_id = sid, sw_ttl = 0\<rparr>] l]) sid =
     (if n = node_type_to_i32 Tracker then None else Some (- 2))"
proof -
  have "(1 :: u32) < - 1" by code_simp
  then show ?thesis
    by (simp add: get_known_gateway_session_ids_next_ttl_def get_known_gateway_session_ids_def
        recursive_iter_def recursive_iter_with_depth_def children_def get_relations_def Let_def
        note_known_def reflect_node_type_def directory_def ri_node_type_of_def node_type_from_i32_def image_iff)
qed

end
