(* ===== verification/Cluster_Func.thy ===== *)
theory Cluster_Func
  imports Verse_Prelude
begin

text \<open>
  Names of the cluster's servers, \<open>cluster/src/func.rs\<close>. A server's name under the cluster's host
  is derived from its address: \<open>entrance.example.org\<close> has the servers
  \<open>entrance-<id>.example.org\<close>, and a host without a prefix \<open>example.org\<close> has \<open><id>.example.org\<close>.

  Two crates are parameters: \<open>shake b n\<close> is the \<open>n\<close>-byte output of SHAKE256 (crate sha3), and
  \<open>hexenc\<close> is \<open>hex::encode\<close> (crate hex).
\<close>

definition NODE_ID_LEN :: nat where "NODE_ID_LEN = 16"

type_synonym xof = "bytes \<Rightarrow> nat \<Rightarrow> bytes"
type_synonym hex_encoder = "bytes \<Rightarrow> string"

definition get_node_id :: "xof \<Rightarrow> hex_encoder \<Rightarrow> string \<Rightarrow> string" where
  "get_node_id shake hexenc ip = hexenc (shake (as_bytes ip) (NODE_ID_LEN div 2))"

text \<open>
  The two names of \<open>split_host\<close> are the first label and the rest of the host name, when the rest
  still has a dot in it.
\<close>

definition split_host :: "string \<Rightarrow> string \<times> string" where
  "split_host h =
     (let ar = splitn2 CHR ''.'' h in
      if length ar = 2 \<and> CHR ''.'' \<in> set (ar ! 1) then (ar ! 0, ar ! 1) else ([], h))"

definition get_node_host :: "xof \<Rightarrow> hex_encoder \<Rightarrow> string \<Rightarrow> string \<Rightarrow> string" where
  "get_node_host shake hexenc ip cluster_host =
     (let (prefix, base_domain) = split_host cluster_host in
      if prefix = [] then get_node_id shake hexenc ip @ ''.'' @ base_domain
      else prefix @ ''-'' @ get_node_id shake hexenc ip @ ''.'' @ base_domain)"

definition get_node_prefix :: "xof \<Rightarrow> hex_encoder \<Rightarrow> string \<Rightarrow> string \<Rightarrow> string" where
  "get_node_prefix shake hexenc ip cluster_host =
     (let (prefix, _) = split_host cluster_host in
      if prefix = [] then get_node_id shake hexenc ip
      else prefix @ ''-'' @ get_node_id shake hexenc ip)"

text \<open>What the code relies on of the two crates: output lengths.\<close>

definition node_id_ok :: "xof \<Rightarrow> hex_encoder \<Rightarrow> bool" where
  "node_id_ok shake hexenc \<longleftrightarrow>
     (\<forall>b n. length (shake b n) = n) \<and> (\<forall>b. length (hexenc b) = 2 * length b)"

lemma length_node_id: "node_id_ok shake hexenc \<Longrightarrow> length (get_node_id shake hexenc ip) = NODE_ID_LEN"
  by (simp add: node_id_ok_def get_node_id_def NODE_ID_LEN_def)

text \<open>A concrete pair of functions with these lengths, for witnesses.\<close>

definition fold_xof :: xof where
  "fold_xof b n = map (\<lambda>i. foldl (\<lambda>acc x. acc * 31 + x) (of_nat i) b) [0..<n]"

definition hex_digit :: "nat \<Rightarrow> char" where
  "hex_digit n = ''0123456789abcdef'' ! (n mod 16)"

definition hex_encode :: hex_encoder where
  "hex_encode b = concat (map (\<lambda>x. [hex_digit (unat x div 16), hex_digit (unat x)]) b)"

lemma node_id_ok_concrete: "node_id_ok fold_xof hex_encode"
proof -
  have "length (hex_encode b) = 2 * length b" for b
    by (induction b) (simp_all add: hex_encode_def)
  then show ?thesis by (simp add: node_id_ok_def fold_xof_def)
qed

section \<open>Properties\<close>

lemma split_host_cases:
  obtains (split) p b where "split_host h = (p, b)" "h = p @ ''.'' @ b" "CHR ''.'' \<notin> set p" "CHR ''.'' \<in> set b"
  | (whole) "split_host h = ([], h)"
proof (cases "CHR ''.'' \<in> set h \<and> CHR ''.'' \<in> set (tl (dropWhile (\<lambda>x. x \<noteq> CHR ''.'') h))")
  case True
  then have "split_host h =
      (takeWhile (\<lambda>x. x \<noteq> CHR ''.'') h, tl (dropWhile (\<lambda>x. x \<noteq> CHR ''.'') h))"
    by (simp add: split_host_def splitn2_def Let_def)
  then show ?thesis
    using True splitn2_join [of "CHR ''.''" h] splitn2_first_clean [of "CHR ''.''" h]
    by (intro that(1)) auto
next
  case False
  then have "split_host h = ([], h)" by (auto simp: split_host_def splitn2_def Let_def)
  then show ?thesis by (rule that(2))
qed

lemma split_host_parts:
  "split_host h = (p, b) \<Longrightarrow>
     (p \<noteq> [] \<and> h = p @ ''.'' @ b \<and> CHR ''.'' \<notin> set p \<and> CHR ''.'' \<in> set b) \<or>
     (p = [] \<and> (h = b \<or> h = CHR ''.'' # b))"
  by (cases h rule: split_host_cases) auto

text \<open>
  \<open>split_host\<close> loses nothing: with a non-empty prefix, prefix, dot and base domain put
  the host back together, the prefix is one label and the base domain still has a dot; without a
  prefix the base domain is the host itself or follows a leading dot.
\<close>

theorem split_host_join:
  assumes "split_host h = (p, b)"
  shows "(p \<noteq> [] \<and> h = p @ ''.'' @ b \<and> CHR ''.'' \<notin> set p \<and> CHR ''.'' \<in> set b) \<or>
         (p = [] \<and> (h = b \<or> h = CHR ''.'' # b))"
  by (rule split_host_parts [OF assms])

theorem split_host_join_witness:
  "split_host ''entrance.a.verseengine.cloud'' = (''entrance'', ''a.verseengine.cloud'') \<and>
   split_host ''verseengine.cloud'' = ([], ''verseengine.cloud'') \<and>
   ''entrance.a.verseengine.cloud'' = ''entrance'' @ ''.'' @ ''a.verseengine.cloud''"
proof -
  have a: "split_host ''entrance.a.verseengine.cloud'' = (''entrance'', ''a.verseengine.cloud'')"
    and b: "split_host ''verseengine.cloud'' = ([], ''verseengine.cloud'')"
    by (simp_all add: split_host_def splitn2_def)
  from a b split_host_join [OF a] show ?thesis by simp
qed

text \<open>
  A server's full name is its DNS prefix under the base domain, so the record that
  \<open>update_dns\<close> adds with the prefix is the host the node list announces.
\<close>

theorem node_host_is_prefix_in_domain:
  "get_node_host shake hexenc ip h = get_node_prefix shake hexenc ip h @ ''.'' @ snd (split_host h)"
  by (simp add: get_node_host_def get_node_prefix_def Let_def case_prod_unfold)

end
