(* ===== verification/Cluster_Client.thy ===== *)
theory Cluster_Client
  imports Verse_Prelude
begin

text \<open>
  Which server of the cluster serves a world, \<open>cluster/src/client.rs\<close> and the node list of
  \<open>cluster/src/data.rs\<close>. The assignment hashes the world URL with the standard library's
  \<open>DefaultHasher\<close>, which is SipHash-1-3 with zero keys over the bytes of the string followed by
  \<open>0xFF\<close>; it is written out here, so the assignment evaluates.
\<close>

unbundle bit_operations_syntax

section \<open>The node list\<close>

record node_list_node =
  host :: string

record node_list_data =
  nodes :: "node_list_node list"

datatype worker = Me | Other string | Nothing

record client =
  node_host :: string
  cluster_host :: string
  node_list :: "node_list_node list option"

section \<open>The hash of a world URL\<close>

definition rotate_left_u64 :: "nat \<Rightarrow> u64 \<Rightarrow> u64" where
  "rotate_left_u64 n x = push_bit n x OR drop_bit (64 - n) x"

type_synonym sip_state = "u64 \<times> u64 \<times> u64 \<times> u64"

fun sip_round :: "sip_state \<Rightarrow> sip_state" where
  "sip_round (v0, v1, v2, v3) =
     (let v0 = v0 + v1; v1 = rotate_left_u64 13 v1 XOR v0; v0 = rotate_left_u64 32 v0;
          v2 = v2 + v3; v3 = rotate_left_u64 16 v3 XOR v2;
          v0 = v0 + v3; v3 = rotate_left_u64 21 v3 XOR v0;
          v2 = v2 + v1; v1 = rotate_left_u64 17 v1 XOR v2; v2 = rotate_left_u64 32 v2
      in (v0, v1, v2, v3))"

fun sip_block :: "u64 \<Rightarrow> sip_state \<Rightarrow> sip_state" where
  "sip_block m (v0, v1, v2, v3) =
     (let (v0, v1, v2, v3) = sip_round (v0, v1, v2, v3 XOR m) in (v0 XOR m, v1, v2, v3))"

text \<open>Little-endian reading of up to eight bytes.\<close>

fun le_word :: "bytes \<Rightarrow> u64" where
  "le_word [] = 0"
| "le_word (b # bs) = ucast b + 256 * le_word bs"

fun sip_blocks :: "bytes \<Rightarrow> sip_state \<Rightarrow> bytes \<times> sip_state" where
  "sip_blocks msg st =
     (if length msg < 8 then (msg, st)
      else sip_blocks (drop 8 msg) (sip_block (le_word (take 8 msg)) st))"

declare sip_blocks.simps [simp del]

definition siphash13 :: "bytes \<Rightarrow> u64" where
  "siphash13 msg =
     (let (tail, st) = sip_blocks msg
            (0x736f6d6570736575, 0x646f72616e646f6d, 0x6c7967656e657261, 0x7465646279746573);
          b = push_bit 56 (of_nat (length msg mod 256)) OR le_word tail;
          (v0, v1, v2, v3) = sip_block b st;
          (v0, v1, v2, v3) = sip_round (sip_round (sip_round (v0, v1, v2 XOR 0xff, v3)))
      in v0 XOR v1 XOR v2 XOR v3)"

definition to_hash :: "string \<Rightarrow> u64" where
  "to_hash key = siphash13 (as_bytes key @ [0xff])"

section \<open>Operations of the client\<close>

definition client_new :: "string \<Rightarrow> string \<Rightarrow> client" where
  "client_new nh ch = \<lparr>node_host = nh, cluster_host = ch, node_list = None\<rparr>"

definition set_node_list :: "client \<Rightarrow> node_list_data \<Rightarrow> client" where
  "set_node_list self data = self\<lparr>node_list := Some (nodes data)\<rparr>"

definition get_node_list :: "client \<Rightarrow> node_list_node list option" where
  "get_node_list self = node_list self"

definition get_assigned_node :: "client \<Rightarrow> string \<Rightarrow> node_list_node option" where
  "get_assigned_node self world_url =
     (case get_node_list self of
        None \<Rightarrow> None
      | Some ar \<Rightarrow>
          if length ar = 0 then None
          else Some (ar ! (unat (to_hash world_url) mod length ar)))"

definition is_my_work :: "client \<Rightarrow> string \<Rightarrow> bool" where
  "is_my_work self world_url =
     (case get_assigned_node self world_url of
        None \<Rightarrow> False
      | Some assigned_node \<Rightarrow> host assigned_node = node_host self)"

definition get_worker :: "client \<Rightarrow> string \<Rightarrow> worker" where
  "get_worker self world_url =
     (case get_assigned_node self world_url of
        None \<Rightarrow> Nothing
      | Some assigned_node \<Rightarrow>
          if host assigned_node = node_host self then Me else Other (host assigned_node))"

definition can_redirect :: "client \<Rightarrow> string \<Rightarrow> bool" where
  "can_redirect self request_host \<longleftrightarrow> cluster_host self = request_host"

lemmas client_defs [model_defs] =
  get_node_list_def get_assigned_node_def is_my_work_def get_worker_def can_redirect_def
  set_node_list_def client_new_def

section \<open>Properties\<close>

lemma assigned_member:
  "get_assigned_node c u = Some n \<Longrightarrow> \<exists>ar. node_list c = Some ar \<and> n \<in> set ar"
  by (auto simp: client_defs split: option.splits if_splits)

text \<open>
  Property C18. Every world is the work of exactly one server: whatever the URL, among the clients of
  a cluster that hold the same node list, exactly one answers that the
  world is its own.
\<close>

theorem exactly_one_worker:
  assumes "ns \<noteq> []"
  shows "\<exists>!nh. nh \<in> host ` set ns \<and>
    is_my_work \<lparr>node_host = nh, cluster_host = ch, node_list = Some ns\<rparr> u"
proof -
  let ?n = "ns ! (unat (to_hash u) mod length ns)"
  from assms have "unat (to_hash u) mod length ns < length ns" by simp
  then have "?n \<in> set ns" by (rule nth_mem)
  moreover have "is_my_work \<lparr>node_host = nh, cluster_host = ch, node_list = Some ns\<rparr> u \<longleftrightarrow> host ?n = nh" for nh
    using assms by (simp add: client_defs)
  ultimately show ?thesis by auto
qed

theorem exactly_one_worker_witness:
  "\<exists>!nh. nh \<in> host ` set [\<lparr>host = ''node0''\<rparr>, \<lparr>host = ''node1''\<rparr>] \<and>
    is_my_work \<lparr>node_host = nh, cluster_host = ''all'',
      node_list = Some [\<lparr>host = ''node0''\<rparr>, \<lparr>host = ''node1''\<rparr>]\<rparr> ''7''"
  by (rule exactly_one_worker) simp_all

text \<open>
  The three answers of \<open>get_worker\<close> say exactly this: no node is assigned, the assigned
  node is this one (as \<open>is_my_work\<close> also says), or the assigned node is another one of the list.
\<close>

theorem get_worker_cases:
  "(get_worker c u = Nothing \<longleftrightarrow> node_list c = None \<or> node_list c = Some []) \<and>
   (get_worker c u = Me \<longleftrightarrow> is_my_work c u) \<and>
   (get_worker c u = Other h \<longleftrightarrow>
      h \<noteq> node_host c \<and> (\<exists>n. get_assigned_node c u = Some n \<and> host n = h))"
  by (auto simp: client_defs split: option.splits if_splits)

end
