(* ===== verification/Cloudflare_Api.thy ===== *)
theory Cloudflare_Api
  imports Verse_Prelude
begin

text \<open>
  The layer over the Cloudflare client: \<open>cluster/src/cf.rs\<close>, and \<open>hubserv/src/dns.rs\<close>, which sets
  the one record of a server outside a cluster. The client crate is a parameter: the answers of its
  queries (\<open>None\<close> is an error) and, for every request that changes the zone, whether it succeeds.
  Requests are returned in the order they are made.
\<close>

section \<open>Addresses\<close>

datatype ipv4 = Ipv4 u8 u8 u8 u8

text \<open>\<open>Ipv4Addr\<close>'s \<open>to_string\<close> and \<open>parse\<close>: four decimal octets, without leading zeros.\<close>

definition show_octet :: "u8 \<Rightarrow> string" where
  "show_octet b =
     (let n = unat b in
      if n < 10 then [digit_char n]
      else if n < 100 then [digit_char (n div 10), digit_char (n mod 10)]
      else [digit_char (n div 100), digit_char (n div 10 mod 10), digit_char (n mod 10)])"

fun ipv4_to_string :: "ipv4 \<Rightarrow> string" where
  "ipv4_to_string (Ipv4 a b c d) =
     show_octet a @ ''.'' @ show_octet b @ ''.'' @ show_octet c @ ''.'' @ show_octet d"

definition digit_value :: "char \<Rightarrow> nat option" where
  "digit_value c = (let n = of_char c in if 48 \<le> n \<and> n < (58 :: nat) then Some (n - 48) else None)"

fun parse_octet :: "string \<Rightarrow> u8 option" where
  "parse_octet [a] = map_option of_nat (digit_value a)"
| "parse_octet [a, b] =
     (case (digit_value a, digit_value b) of
        (Some x, Some y) \<Rightarrow> if x = 0 then None else Some (of_nat (10 * x + y))
      | _ \<Rightarrow> None)"
| "parse_octet [a, b, c] =
     (case (digit_value a, digit_value b, digit_value c) of
        (Some x, Some y, Some z) \<Rightarrow>
          if x = 0 \<or> 255 < 100 * x + 10 * y + z then None else Some (of_nat (100 * x + 10 * y + z))
      | _ \<Rightarrow> None)"
| "parse_octet _ = None"

definition parse_ipv4 :: "string \<Rightarrow> ipv4 option" where
  "parse_ipv4 s =
     (case splitn2 CHR ''.'' s of
        [a, r1] \<Rightarrow> (case splitn2 CHR ''.'' r1 of
          [b, r2] \<Rightarrow> (case splitn2 CHR ''.'' r2 of
            [c, d] \<Rightarrow> (case (parse_octet a, parse_octet b, parse_octet c, parse_octet d) of
               (Some w, Some x, Some y, Some z) \<Rightarrow> Some (Ipv4 w x y z) | _ \<Rightarrow> None)
            | _ \<Rightarrow> None)
          | _ \<Rightarrow> None)
        | _ \<Rightarrow> None)"

section \<open>Records and requests\<close>

datatype dns_content = A ipv4 | OtherContent

record dns_record =
  dr_id :: string
  dr_name :: string
  dr_content :: dns_content

record cf_a_record =
  cf_id :: string
  cf_name :: string
  cf_ip :: string

record cf_auth_info =
  email :: string
  api_key :: string

datatype dns_call =
    DeleteDnsRecord string string
  | CreateDnsRecord string string ipv4 bool
  | UpdateDnsRecord string string string ipv4 bool

record cf_service =
  cf_client_ok :: "cf_auth_info \<Rightarrow> bool"
  cf_list_zones :: "string \<Rightarrow> string list option"
  cf_list_records :: "string \<Rightarrow> dns_record list option"
  cf_list_records_named :: "string \<Rightarrow> string \<Rightarrow> dns_record list option"
  cf_call :: "dns_call \<Rightarrow> bool"

datatype update_error =
    CreateClientFailed
  | QueryFailed
  | DomainNotFound string
  | AddrParseFailed
  | CallFailed

section \<open>Operations\<close>

definition get_zone_id :: "cf_service \<Rightarrow> string \<Rightarrow> update_error + string option" where
  "get_zone_id cf domain =
     (case cf_list_zones cf domain of
        None \<Rightarrow> Err QueryFailed
      | Some result \<Rightarrow> if length result \<noteq> 1 then Ok None else Ok (Some (result ! 0)))"

definition get_arecords :: "cf_service \<Rightarrow> string \<Rightarrow> update_error + cf_a_record list" where
  "get_arecords cf zone_id =
     (case cf_list_records cf zone_id of
        None \<Rightarrow> Err QueryFailed
      | Some result \<Rightarrow>
          Ok (List.map_filter
            (\<lambda>v. case dr_content v of
                A content \<Rightarrow> Some \<lparr>cf_id = dr_id v, cf_name = dr_name v, cf_ip = ipv4_to_string content\<rparr>
              | _ \<Rightarrow> None)
            (filter (\<lambda>v. case dr_content v of A _ \<Rightarrow> True | _ \<Rightarrow> False) result)))"

text \<open>An operation returns the requests it made and its result.\<close>

definition request :: "cf_service \<Rightarrow> dns_call \<Rightarrow> dns_call list \<times> (update_error + unit)" where
  "request cf c = ([c], if cf_call cf c then Ok () else Err CallFailed)"

definition add_arecord ::
  "cf_service \<Rightarrow> string \<Rightarrow> string \<Rightarrow> string \<Rightarrow> bool \<Rightarrow> dns_call list \<times> (update_error + unit)" where
  "add_arecord cf zone_id pfx ip proxy =
     (case parse_ipv4 ip of
        None \<Rightarrow> ([], Err AddrParseFailed)
      | Some ip \<Rightarrow> request cf (CreateDnsRecord zone_id pfx ip proxy))"

definition delete_arecord :: "cf_service \<Rightarrow> string \<Rightarrow> string \<Rightarrow> dns_call list \<times> (update_error + unit)" where
  "delete_arecord cf zone_id rid = request cf (DeleteDnsRecord zone_id rid)"

text \<open>\<open>set_arecord\<close> of \<open>hubserv/src/dns.rs\<close>.\<close>

definition set_arecord ::
  "cf_service \<Rightarrow> string \<Rightarrow> string \<Rightarrow> string \<Rightarrow> string \<Rightarrow> bool \<Rightarrow> dns_call list \<times> (update_error + unit)" where
  "set_arecord cf name ip cf_email cf_api_key proxy =
     (if \<not> cf_client_ok cf \<lparr>email = cf_email, api_key = cf_api_key\<rparr> then ([], Err CreateClientFailed) else
      let ar = splitn2 CHR ''.'' name; domain = ar ! (length ar - 1) in
      case cf_list_zones cf domain of
        None \<Rightarrow> ([], Err QueryFailed)
      | Some result \<Rightarrow>
          if length result \<noteq> 1 then ([], Err (DomainNotFound domain)) else
          let zone_id = result ! 0 in
          (case parse_ipv4 ip of
             None \<Rightarrow> ([], Err AddrParseFailed)
           | Some ip \<Rightarrow>
               (case cf_list_records_named cf zone_id name of
                  None \<Rightarrow> ([], Err QueryFailed)
                | Some result \<Rightarrow>
                    let res = filter (\<lambda>v. case dr_content v of A _ \<Rightarrow> True | _ \<Rightarrow> False) result in
                    if res = [] then request cf (CreateDnsRecord zone_id (ar ! 0) ip proxy)
                    else request cf (UpdateDnsRecord zone_id (dr_id (res ! 0)) (ar ! 0) ip proxy))))"

section \<open>Properties\<close>

lemma digit_value_digit_char: "n < 10 \<Longrightarrow> digit_value (digit_char n) = Some n"
  by (simp add: digit_value_def digit_char_def)

lemma digit_bounds:
  fixes n :: nat
  assumes "n < 256"
  shows "n < 100 \<Longrightarrow> n div 10 < 10" and "n div 100 < 10" and "n div 10 mod 10 < 10" and "n mod 10 < 10"
  using assms by auto

lemma three_digits: "100 * (n div 100) + 10 * (n div 10 mod 10) + n mod 10 = n" for n :: nat
proof -
  have "n div 100 = n div 10 div 10" by (simp add: div_mult2_eq [symmetric])
  then have "100 * (n div 100) + 10 * (n div 10 mod 10) = 10 * (n div 10)"
    using mult_div_mod_eq [of 10 "n div 10"] by linarith
  then show ?thesis using mult_div_mod_eq [of 10 n] by linarith
qed

lemma parse_show_octet [simp]: "parse_octet (show_octet b) = Some b"
proof -
  let ?n = "unat b"
  have n: "?n < 256" by (rule unat_u8_less)
  consider (one) "?n < 10" | (two) "10 \<le> ?n" "?n < 100" | (three) "100 \<le> ?n" by linarith
  then show ?thesis
  proof cases
    case one
    then show ?thesis by (simp add: show_octet_def digit_value_digit_char)
  next
    case two
    obtain x y where xy: "x = ?n div 10" "y = ?n mod 10" by blast
    have n_eq: "10 * x + y = ?n" unfolding xy by presburger
    have "x < 10" "y < 10" "x \<noteq> 0" unfolding xy using two by auto
    moreover have "show_octet b = [digit_char x, digit_char y]"
      using two by (simp add: show_octet_def Let_def xy)
    ultimately have "parse_octet (show_octet b) = Some (of_nat (10 * x + y))"
      by (simp add: digit_value_digit_char del: of_nat_add of_nat_mult)
    then show ?thesis by (simp add: n_eq del: of_nat_add of_nat_mult)
  next
    case three
    obtain x y z where xyz: "x = ?n div 100" "y = ?n div 10 mod 10" "z = ?n mod 10" by blast
    have n_eq: "100 * x + 10 * y + z = ?n" unfolding xyz by (rule three_digits)
    have "y < 10" "z < 10" unfolding xyz by simp_all
    moreover have "x < 10" unfolding xyz using n by (simp add: div_less_iff_less_mult)
    moreover have "x \<noteq> 0" unfolding xyz using three by (simp add: div_eq_0_iff)
    moreover have "show_octet b = [digit_char x, digit_char y, digit_char z]"
      using three by (simp add: show_octet_def Let_def xyz)
    moreover have "\<not> 255 < 100 * x + 10 * y + z" using n n_eq by simp
    ultimately have "parse_octet (show_octet b) = Some (of_nat (100 * x + 10 * y + z))"
      by (simp add: digit_value_digit_char del: of_nat_add of_nat_mult)
    then show ?thesis by (simp add: n_eq del: of_nat_add of_nat_mult)
  qed
qed

lemma digit_char_not_dot: "n < 10 \<Longrightarrow> CHR ''.'' \<noteq> digit_char n"
proof
  assume n: "n < 10" and dot: "CHR ''.'' = digit_char n"
  have "digit_value CHR ''.'' = None" by (simp add: digit_value_def)
  with n show False by (simp add: dot digit_value_digit_char)
qed

lemma show_octet_no_dot: "CHR ''.'' \<notin> set (show_octet b)"
  using digit_bounds [OF unat_u8_less, of b]
  by (simp add: show_octet_def Let_def digit_char_not_dot)

lemma splitn2_append: "c \<notin> set a \<Longrightarrow> splitn2 c (a @ c # b) = [a, b]"
  by (induction a) (auto simp: splitn2_def)

text \<open>
  An address survives being listed and added again: parsing what \<open>to_string\<close> prints
  gives the address back.
\<close>

theorem parse_ipv4_to_string: "parse_ipv4 (ipv4_to_string ip) = Some ip"
  by (cases ip) (simp add: parse_ipv4_def splitn2_append show_octet_no_dot)

lemma digit_value_Some: "digit_value c = Some n \<Longrightarrow> n < 10 \<and> c = digit_char n"
  by (auto simp: digit_value_def digit_char_def Let_def split: if_splits)

lemma show_octet_of_nat:
  "n < 256 \<Longrightarrow> show_octet (of_nat n) =
     (if n < 10 then [digit_char n]
      else if n < 100 then [digit_char (n div 10), digit_char (n mod 10)]
      else [digit_char (n div 100), digit_char (n div 10 mod 10), digit_char (n mod 10)])"
  by (simp add: show_octet_def Let_def unat_of_nat)

lemma show_parse_octet: "parse_octet s = Some b \<Longrightarrow> show_octet b = s"
proof (induction s rule: parse_octet.induct)
  case (1 a)
  then show ?case by (auto dest: digit_value_Some simp: show_octet_of_nat)
next
  case (2 a b')
  then obtain x y where xy: "digit_value a = Some x" "digit_value b' = Some y" "x \<noteq> 0"
    and b: "b = of_nat (10 * x + y)"
    by (auto split: option.splits if_splits)
  from xy digit_value_Some have "x < 10" "y < 10" "a = digit_char x" "b' = digit_char y" by blast+
  moreover from this have "10 * x + y < 256" "10 * x + y < 100" "\<not> 10 * x + y < 10" using xy(3) by auto
  ultimately show ?case using b show_octet_of_nat [of "10 * x + y"] by (simp del: of_nat_add of_nat_mult)
next
  case (3 a b' c)
  then obtain x y z where xyz: "digit_value a = Some x" "digit_value b' = Some y" "digit_value c = Some z" "x \<noteq> 0"
    and le: "100 * x + 10 * y + z \<le> 255" and b: "b = of_nat (100 * x + 10 * y + z)"
    by (auto split: option.splits if_splits)
  from xyz digit_value_Some
  have d: "x < 10" "y < 10" "z < 10" "a = digit_char x" "b' = digit_char y" "c = digit_char z" by blast+
  let ?n = "100 * x + 10 * y + z"
  have "\<not> ?n < 100" using xyz(4) by simp
  moreover have "?n div 10 = 10 * x + y" using d(3) by simp
  moreover from this have "?n div 10 mod 10 = y" using d(2) by simp
  moreover have "?n mod 10 = z" using d(3) by (simp add: mod_add_left_eq [symmetric])
  moreover have "?n div 100 = x" using d(2,3) by simp
  ultimately show ?case
    using b le d(4,5,6) show_octet_of_nat [of ?n] by (simp del: of_nat_add of_nat_mult)
qed simp_all

lemma splitn2_two: "splitn2 c s = [a, b] \<Longrightarrow> s = a @ c # b"
  using splitn2_join [of c s] by (auto simp: splitn2_def split: if_splits)

text \<open>The other way round, only the canonical spelling of an address is accepted.\<close>

lemma show_parse_ipv4:
  assumes "parse_ipv4 s = Some ip"
  shows "ipv4_to_string ip = s"
proof -
  from assms obtain a r1 b r2 c d w x y z where
    "splitn2 CHR ''.'' s = [a, r1]" "splitn2 CHR ''.'' r1 = [b, r2]" "splitn2 CHR ''.'' r2 = [c, d]"
    and octets: "parse_octet a = Some w" "parse_octet b = Some x" "parse_octet c = Some y" "parse_octet d = Some z"
    and ip: "ip = Ipv4 w x y z"
    by (auto simp: parse_ipv4_def split: list.splits option.splits)
  then have "s = a @ ''.'' @ b @ ''.'' @ c @ ''.'' @ d"
    by (auto dest!: splitn2_two)
  with octets show ?thesis by (simp add: ip show_parse_octet)
qed

end
