(* ===== verification/Cluster_Manager.thy ===== *)
theory Cluster_Manager
  imports Cluster_Func Cluster_Client Cloudflare_Api
begin

text \<open>
  Keeping the node list and the DNS zone in step with the running instances,
  \<open>cluster/src/manager.rs\<close> and \<open>cluster/src/node_source.rs\<close>. The services (EC2, S3, Cloudflare)
  are parameters: the pages EC2 answers with, whether the upload succeeds, and the Cloudflare
  service of Cloudflare_Api. Requests that change the zone are returned in the order they are made,
  so an update that fails shows what it had done before it stopped.
\<close>

section \<open>Data\<close>

record node =
  public_ip :: string

record s3_path =
  bucket :: string
  key :: string

record manager =
  m_cluster_host :: string
  m_role :: string
  m_stage :: string
  m_aws_region :: string
  m_cluster_json_s3_path :: s3_path
  m_cf_auth :: cf_auth_info

definition manager_new ::
  "string \<Rightarrow> string \<Rightarrow> string \<Rightarrow> string \<Rightarrow> s3_path \<Rightarrow> cf_auth_info \<Rightarrow> manager" where
  "manager_new ch role stage aws_region path auth =
     \<lparr>m_cluster_host = ch, m_role = role, m_stage = stage, m_aws_region = aws_region,
      m_cluster_json_s3_path = path, m_cf_auth = auth\<rparr>"

datatype manager_error = DnsError update_error | Ec2Failed | SerializeFailed | UploadFailed

section \<open>The running instances\<close>

text \<open>
  EC2 answers a query with pages; a page that failed is \<open>None\<close>, and reservations, instances and
  public addresses may each be absent.
\<close>

type_synonym ec2_instance = "string option"
type_synonym ec2_reservation = "ec2_instance list option"
type_synonym ec2_page = "ec2_reservation list option"
type_synonym ec2_describe = "(string \<times> string) list \<Rightarrow> string \<Rightarrow> ec2_page option list"

definition page_nodes :: "ec2_page \<Rightarrow> node list" where
  "page_nodes p =
     (case p of
        None \<Rightarrow> []
      | Some reservations \<Rightarrow>
          concat (map (\<lambda>r. List.map_filter (map_option (\<lambda>ip. \<lparr>public_ip = ip\<rparr>))
            (case r of None \<Rightarrow> [] | Some instances \<Rightarrow> instances)) reservations))"

fun collect_pages :: "ec2_page option list \<Rightarrow> node list \<Rightarrow> node list option" where
  "collect_pages [] res = Some res"
| "collect_pages (None # _) res = None"
| "collect_pages (Some p # ps) res = collect_pages ps (res @ page_nodes p)"

definition load_nodes_from_ec2 :: "ec2_describe \<Rightarrow> string \<Rightarrow> string \<Rightarrow> string \<Rightarrow> node list option" where
  "load_nodes_from_ec2 describe stage role region =
     collect_pages
       (describe [(''instance-state-name'', ''running''), (''tag:Role'', role), (''tag:Stage'', stage)] region) []"

text \<open>\<open>get_nodes\<close> passes the manager's role where the stage is expected, and the other way round.\<close>

definition get_nodes :: "ec2_describe \<Rightarrow> manager \<Rightarrow> node list option" where
  "get_nodes describe self = load_nodes_from_ec2 describe (m_role self) (m_stage self) (m_aws_region self)"

section \<open>Sorting the records of the zone\<close>

record record_groups =
  cluster_records :: "cf_a_record list"
  single_records :: "cf_a_record list"

definition split_records :: "cf_a_record list \<Rightarrow> string \<Rightarrow> string \<Rightarrow> string \<Rightarrow> record_groups" where
  "split_records records pfx base_domain cluster_host' =
     (let sfx = ''.'' @ base_domain in
      \<lparr>cluster_records = filter (\<lambda>r. cf_name r = cluster_host') records,
       single_records =
         (if pfx = []
          then let ln = NODE_ID_LEN + length sfx in
               filter (\<lambda>r. length (cf_name r) = ln \<and> suffix sfx (cf_name r)) records
          else let pre = pfx @ ''-''; ln = NODE_ID_LEN + length pre + length sfx in
               filter (\<lambda>r. length (cf_name r) = ln \<and> prefix pre (cf_name r) \<and>
                 suffix sfx (cf_name r)) records)\<rparr>)"

record diff_result =
  adds :: "string list"
  dels :: "cf_a_record list"

definition diff_records :: "cf_a_record list \<Rightarrow> string list \<Rightarrow> diff_result" where
  "diff_records records current_ips =
     (let prev_ip_set = set (map cf_ip records); current_ip_set = set current_ips in
      \<lparr>adds = filter (\<lambda>v. v \<notin> prev_ip_set) current_ips,
       dels = filter (\<lambda>v. cf_ip v \<notin> current_ip_set) records\<rparr>)"

section \<open>The update of the zone\<close>

text \<open>The operations of a loop with \<open>?\<close> in its body: the first error ends it.\<close>

fun run_ops :: "('c list \<times> ('e + unit)) list \<Rightarrow> 'c list \<times> ('e + unit)" where
  "run_ops [] = ([], Ok ())"
| "run_ops ((cs, Inl e) # _) = (cs, Err e)"
| "run_ops ((cs, Inr _) # rest) = (let (ds, r) = run_ops rest in (cs @ ds, r))"

definition diff_ops ::
  "cf_service \<Rightarrow> string \<Rightarrow> (string \<Rightarrow> string) \<Rightarrow> diff_result \<Rightarrow> (dns_call list \<times> (update_error + unit)) list" where
  "diff_ops cf zone_id prefix_of d =
     map (\<lambda>v. delete_arecord cf zone_id (cf_id v)) (dels d) @
     map (\<lambda>v. add_arecord cf zone_id (prefix_of v) v True) (adds d)"

definition update_dns ::
  "xof \<Rightarrow> hex_encoder \<Rightarrow> cf_service \<Rightarrow> manager \<Rightarrow> node list \<Rightarrow> dns_call list \<times> (update_error + unit)" where
  "update_dns shake hexenc cf self ns =
     (let (pfx, base_domain) = split_host (m_cluster_host self) in
      if \<not> cf_client_ok cf (m_cf_auth self) then ([], Err CreateClientFailed) else
      case get_zone_id cf base_domain of
        Inl e \<Rightarrow> ([], Err e)
      | Inr None \<Rightarrow> ([], Err (DomainNotFound base_domain))
      | Inr (Some zone_id) \<Rightarrow>
          (case get_arecords cf zone_id of
             Inl e \<Rightarrow> ([], Err e)
           | Inr records \<Rightarrow>
               let groups = split_records records pfx base_domain (m_cluster_host self);
                   current_ips = map public_ip ns
               in run_ops
                    (diff_ops cf zone_id (\<lambda>_. pfx) (diff_records (cluster_records groups) current_ips) @
                     diff_ops cf zone_id (\<lambda>v. get_node_prefix shake hexenc v (m_cluster_host self))
                       (diff_records (single_records groups) current_ips))))"

section \<open>The node list file and the whole update\<close>

text \<open>\<open>serde_json::to_string\<close> and S3's \<open>put_object\<close> (bucket, key, body) are parameters.\<close>

type_synonym s3_put = "string \<Rightarrow> string \<Rightarrow> string \<Rightarrow> bool"

definition create_cluster_json ::
  "xof \<Rightarrow> hex_encoder \<Rightarrow> (node_list_data \<Rightarrow> string option) \<Rightarrow> manager \<Rightarrow> node list \<Rightarrow> manager_error + string" where
  "create_cluster_json shake hexenc to_json self ns =
     (let data = \<lparr>nodes = map (\<lambda>v. \<lparr>host = get_node_host shake hexenc (public_ip v) (m_cluster_host self)\<rparr>) ns\<rparr>
      in case to_json data of None \<Rightarrow> Err SerializeFailed | Some js \<Rightarrow> Ok js)"

definition update_cluster_json ::
  "xof \<Rightarrow> hex_encoder \<Rightarrow> (node_list_data \<Rightarrow> string option) \<Rightarrow> s3_put \<Rightarrow> manager \<Rightarrow> node list \<Rightarrow> manager_error + string" where
  "update_cluster_json shake hexenc to_json put self ns =
     (case create_cluster_json shake hexenc to_json self ns of
        Inl e \<Rightarrow> Err e
      | Inr js \<Rightarrow>
          if put (bucket (m_cluster_json_s3_path self)) (key (m_cluster_json_s3_path self)) js
          then Ok js else Err UploadFailed)"

text \<open>The file uploaded (if any), the requests on the zone, and the result.\<close>

definition manager_update ::
  "xof \<Rightarrow> hex_encoder \<Rightarrow> ec2_describe \<Rightarrow> (node_list_data \<Rightarrow> string option) \<Rightarrow> s3_put \<Rightarrow> cf_service \<Rightarrow> manager \<Rightarrow>
     string option \<times> dns_call list \<times> (manager_error + unit)" where
  "manager_update shake hexenc describe to_json put cf self =
     (case get_nodes describe self of
        None \<Rightarrow> (None, [], Err Ec2Failed)
      | Some ns \<Rightarrow>
          (case update_cluster_json shake hexenc to_json put self ns of
             Inl e \<Rightarrow> (None, [], Err e)
           | Inr js \<Rightarrow>
               let (calls, r) = update_dns shake hexenc cf self ns in
               (Some js, calls, case r of Inl e \<Rightarrow> Err (DnsError e) | Inr u \<Rightarrow> Ok u)))"

section \<open>Properties of the comparison\<close>

text \<open>
  The difference is exact: dropping the records to delete and adding those to add
  leaves exactly the current addresses, a kept record is never deleted, nothing present is added,
  and comparing again finds nothing to do.
\<close>

theorem diff_records_exact:
  "(let d = diff_records records ips in
    set (map cf_ip (filter (\<lambda>r. r \<notin> set (dels d)) records)) \<union> set (adds d) = set ips \<and>
    set (map cf_ip (dels d)) \<inter> set ips = {} \<and>
    set (adds d) \<inter> set (map cf_ip records) = {} \<and>
    (set (map cf_ip records) = set ips \<longleftrightarrow> adds d = [] \<and> dels d = []))"
  by (auto simp: diff_records_def Let_def filter_empty_conv image_iff)

lemma groups_disjoint:
  assumes h: "split_host h = (pfx, base)"
  shows "set (cluster_records (split_records rs pfx base h)) \<inter> set (single_records (split_records rs pfx base h)) = {}"
proof -
  have "length h \<le> length pfx + 1 + length base"
    using split_host_parts [OF h] by auto
  then show ?thesis
    by (auto simp: split_records_def Let_def NODE_ID_LEN_def)
qed

text \<open>
  Under the cluster's host, the two groups of records never overlap, and the record of
  every server's own name is in the group of single records.
\<close>

theorem split_records_groups:
  assumes ids: "node_id_ok shake hexenc" and h: "split_host h = (pfx, base)"
  shows "set (cluster_records (split_records rs pfx base h)) \<inter> set (single_records (split_records rs pfx base h)) = {} \<and>
    (r \<in> set rs \<and> cf_name r = get_node_host shake hexenc ip h \<longrightarrow>
       r \<in> set (single_records (split_records rs pfx base h)))"
proof -
  have "get_node_host shake hexenc ip h =
      (if pfx = [] then get_node_id shake hexenc ip @ ''.'' @ base
       else (pfx @ ''-'') @ get_node_id shake hexenc ip @ ''.'' @ base)"
    by (simp add: get_node_host_def h)
  then show ?thesis
    using groups_disjoint [OF h, of rs] length_node_id [OF ids, of ip]
    by (auto simp: split_records_def Let_def suffix_def prefix_def)
qed

theorem split_records_groups_witness:
  "\<lparr>cf_id = ''3'', cf_name = get_node_host fold_xof hex_encode ''1.2.3.4'' ''entrance.verseengine.cloud'', cf_ip = ''1.2.3.4''\<rparr>
     \<in> set (single_records (split_records
         [\<lparr>cf_id = ''3'', cf_name = get_node_host fold_xof hex_encode ''1.2.3.4'' ''entrance.verseengine.cloud'', cf_ip = ''1.2.3.4''\<rparr>]
         ''entrance'' ''verseengine.cloud'' ''entrance.verseengine.cloud''))"
proof -
  have "split_host ''entrance.verseengine.cloud'' = (''entrance'', ''verseengine.cloud'')"
    by (simp add: split_host_def splitn2_def)
  from split_records_groups [OF node_id_ok_concrete this] show ?thesis by simp
qed

section \<open>What an update makes of the zone\<close>

text \<open>
  The zone as a set of records, and what Cloudflare documents its requests to do to it: a deletion
  removes the record with the identifier, a creation adds a record whose name is the given label
  under the zone's domain, with a new identifier.
\<close>

primrec zone_apply :: "(dns_call \<Rightarrow> string) \<Rightarrow> string \<Rightarrow> dns_call \<Rightarrow> dns_record set \<Rightarrow> dns_record set" where
  "zone_apply fresh base (DeleteDnsRecord z i) Z = {r \<in> Z. dr_id r \<noteq> i}"
| "zone_apply fresh base (CreateDnsRecord z l ip proxied) Z =
     insert \<lparr>dr_id = fresh (CreateDnsRecord z l ip proxied), dr_name = l @ ''.'' @ base, dr_content = A ip\<rparr> Z"
| "zone_apply fresh base (UpdateDnsRecord z i l ip proxied) Z =
     insert \<lparr>dr_id = i, dr_name = l @ ''.'' @ base, dr_content = A ip\<rparr> {r \<in> Z. dr_id r \<noteq> i}"

definition zone_ips :: "string \<Rightarrow> dns_record set \<Rightarrow> string set" where
  "zone_ips name Z = {ipv4_to_string ip |ip. \<exists>r \<in> Z. dr_name r = name \<and> dr_content r = A ip}"

lemma zone_ips_Un: "zone_ips name (Y \<union> Z) = zone_ips name Y \<union> zone_ips name Z"
  by (auto simp: zone_ips_def)

lemma zone_ips_image:
  "zone_ips name ((\<lambda>v. \<lparr>dr_id = i v, dr_name = l v, dr_content = A (a v)\<rparr>) ` V) =
     {ipv4_to_string (a v) |v. v \<in> V \<and> l v = name}"
  by (force simp: zone_ips_def)

fun deleted_id :: "dns_call \<Rightarrow> string set" where
  "deleted_id (DeleteDnsRecord _ i) = {i}"
| "deleted_id _ = {}"

fun created_by :: "(dns_call \<Rightarrow> string) \<Rightarrow> string \<Rightarrow> dns_call \<Rightarrow> dns_record set" where
  "created_by fresh base (CreateDnsRecord z l ip p) =
     {\<lparr>dr_id = fresh (CreateDnsRecord z l ip p), dr_name = l @ ''.'' @ base, dr_content = A ip\<rparr>}"
| "created_by _ _ _ = {}"

fun is_update :: "dns_call \<Rightarrow> bool" where
  "is_update (UpdateDnsRecord _ _ _ _ _) = True"
| "is_update _ = False"

lemma zone_apply_sets:
  "\<not> is_update c \<Longrightarrow> zone_apply fresh base c Z = {r \<in> Z. dr_id r \<notin> deleted_id c} \<union> created_by fresh base c"
  by (cases c) auto

lemma created_by_id: "r \<in> created_by fresh base c \<Longrightarrow> dr_id r = fresh c"
  by (cases c) auto

lemma zone_fold:
  assumes "\<And>c. fresh c \<notin> \<Union> (deleted_id ` set cs)" and "\<And>c. c \<in> set cs \<Longrightarrow> \<not> is_update c"
  shows "fold (zone_apply fresh base) cs Z =
    {r \<in> Z. dr_id r \<notin> \<Union> (deleted_id ` set cs)} \<union> \<Union> (created_by fresh base ` set cs)"
  using assms
proof (induction cs arbitrary: Z)
  case Nil
  then show ?case by simp
next
  case (Cons c cs)
  let ?D = "\<Union> (deleted_id ` set cs)"
  have "fold (zone_apply fresh base) (c # cs) Z =
      {r \<in> {r \<in> Z. dr_id r \<notin> deleted_id c} \<union> created_by fresh base c. dr_id r \<notin> ?D} \<union>
      \<Union> (created_by fresh base ` set cs)"
    using Cons by (simp add: zone_apply_sets)
  moreover have "dr_id r \<notin> ?D" if "r \<in> created_by fresh base c" for r
    using that Cons.prems(1) created_by_id by (metis UN_iff list.set_intros(2))
  ultimately show ?case by auto
qed

lemma run_ops_ok:
  "run_ops ops = (cs, Inr u) \<Longrightarrow> cs = concat (map fst ops) \<and> (\<forall>op \<in> set ops. \<exists>v. snd op = Inr v)"
  by (induction ops arbitrary: cs rule: run_ops.induct) (auto split: prod.splits)

text \<open>The requests of a comparison that was carried out completely.\<close>

lemma diff_ops_ok:
  assumes "\<forall>op \<in> set (diff_ops cf z f d). \<exists>v. snd op = Inr v"
  shows "(\<forall>ip \<in> set (adds d). parse_ipv4 ip \<noteq> None) \<and>
    concat (map fst (diff_ops cf z f d)) =
      map (\<lambda>v. DeleteDnsRecord z (cf_id v)) (dels d) @
      map (\<lambda>v. CreateDnsRecord z (f v) (the (parse_ipv4 v)) True) (adds d)"
proof -
  from assms have ok: "\<forall>ip \<in> set (adds d). \<exists>v. snd (add_arecord cf z (f ip) ip True) = Inr v"
    by (simp add: diff_ops_def ball_Un)
  then have parsed: "parse_ipv4 ip \<noteq> None" if "ip \<in> set (adds d)" for ip
    using that by (force simp: add_arecord_def split: option.splits)
  then have "map (\<lambda>v. fst (add_arecord cf z (f v) v True)) (adds d) =
      map (\<lambda>v. [CreateDnsRecord z (f v) (the (parse_ipv4 v)) True]) (adds d)"
    by (intro map_cong) (auto simp: add_arecord_def request_def split: option.splits dest: parsed)
  then have "concat (map (\<lambda>v. fst (add_arecord cf z (f v) v True)) (adds d)) =
      map (\<lambda>v. CreateDnsRecord z (f v) (the (parse_ipv4 v)) True) (adds d)"
    by (simp only: concat_map_singleton)
  moreover have "concat (map (\<lambda>v. fst (delete_arecord cf z (cf_id v))) (dels d)) =
      map (\<lambda>v. DeleteDnsRecord z (cf_id v)) (dels d)"
    by (simp add: delete_arecord_def request_def concat_map_singleton)
  ultimately show ?thesis using parsed by (simp add: diff_ops_def comp_def)
qed

lemma zone_ips_records:
  assumes "get_arecords cf z = Inr records" and "cf_list_records cf z = Some rs"
  shows "v \<in> set records \<longleftrightarrow> (\<exists>r \<in> set rs. \<exists>ip. dr_content r = A ip \<and>
    v = \<lparr>cf_id = dr_id r, cf_name = dr_name r, cf_ip = ipv4_to_string ip\<rparr>)"
proof -
  from assms have records: "records = List.map_filter
      (\<lambda>v. case dr_content v of
          A content \<Rightarrow> Some \<lparr>cf_id = dr_id v, cf_name = dr_name v, cf_ip = ipv4_to_string content\<rparr>
        | _ \<Rightarrow> None)
      (filter (\<lambda>v. case dr_content v of A _ \<Rightarrow> True | _ \<Rightarrow> False) rs)"
    by (simp add: get_arecords_def)
  have mem: "x \<in> set (List.map_filter f xs) \<longleftrightarrow> (\<exists>v \<in> set xs. f v = Some x)" for x :: cf_a_record and f and xs :: "dns_record list"
    by (induction xs) (auto simp: List.map_filter_simps split: option.splits)
  show ?thesis
    unfolding records mem
  proof (rule iffI)
    assume "\<exists>r \<in> set rs. \<exists>ip. dr_content r = A ip \<and>
      v = \<lparr>cf_id = dr_id r, cf_name = dr_name r, cf_ip = ipv4_to_string ip\<rparr>"
    then obtain r ip where "r \<in> set rs" "dr_content r = A ip"
      "v = \<lparr>cf_id = dr_id r, cf_name = dr_name r, cf_ip = ipv4_to_string ip\<rparr>" by blast
    then show "\<exists>v' \<in> set (filter (\<lambda>v. case dr_content v of A _ \<Rightarrow> True | _ \<Rightarrow> False) rs).
      (case dr_content v' of
          A content \<Rightarrow> Some \<lparr>cf_id = dr_id v', cf_name = dr_name v', cf_ip = ipv4_to_string content\<rparr>
        | _ \<Rightarrow> None) = Some v"
      by (intro bexI [of _ r]) simp_all
  qed (auto split: dns_content.splits)
qed

text \<open>The requests of a successful update, and the groups of records they come from.\<close>

lemma update_dns_success:
  assumes h: "split_host (m_cluster_host m) = (pfx, base)"
    and zone: "get_zone_id cf base = Inr (Some z)" "cf_list_records cf z = Some rs"
    and run: "update_dns shake hexenc cf m ns = (calls, Inr u)"
  obtains records d1 d2 where "get_arecords cf z = Inr records"
    and "d1 = diff_records (cluster_records (split_records records pfx base (m_cluster_host m))) (map public_ip ns)"
    and "d2 = diff_records (single_records (split_records records pfx base (m_cluster_host m))) (map public_ip ns)"
    and "set calls = (\<lambda>v. DeleteDnsRecord z (cf_id v)) ` (set (dels d1) \<union> set (dels d2)) \<union>
      (\<lambda>v. CreateDnsRecord z pfx (the (parse_ipv4 v)) True) ` set (adds d1) \<union>
      (\<lambda>v. CreateDnsRecord z (get_node_prefix shake hexenc v (m_cluster_host m)) (the (parse_ipv4 v)) True) ` set (adds d2)"
    and "\<And>ip. ip \<in> set (adds d1) \<union> set (adds d2) \<Longrightarrow> ipv4_to_string (the (parse_ipv4 ip)) = ip"
proof -
  from zone run obtain records where recs: "get_arecords cf z = Inr records"
    by (auto simp: update_dns_def h get_arecords_def split: if_splits sum.splits)
  define g where "g = split_records records pfx base (m_cluster_host m)"
  define d1 where "d1 = diff_records (cluster_records g) (map public_ip ns)"
  define d2 where "d2 = diff_records (single_records g) (map public_ip ns)"
  let ?ops1 = "diff_ops cf z (\<lambda>_. pfx) d1"
  let ?ops2 = "diff_ops cf z (\<lambda>v. get_node_prefix shake hexenc v (m_cluster_host m)) d2"
  from run have "run_ops (?ops1 @ ?ops2) = (calls, Inr u)"
    by (simp add: update_dns_def h zone recs Let_def g_def d1_def d2_def split: if_splits)
  from run_ops_ok [OF this] have calls: "calls = concat (map fst ?ops1) @ concat (map fst ?ops2)"
    and ok: "\<forall>op \<in> set ?ops1. \<exists>v. snd op = Inr v" "\<forall>op \<in> set ?ops2. \<exists>v. snd op = Inr v"
    by auto
  note ok1 = diff_ops_ok [OF ok(1)] and ok2 = diff_ops_ok [OF ok(2)]
  have parsed: "ipv4_to_string (the (parse_ipv4 ip)) = ip" if "ip \<in> set (adds d1) \<union> set (adds d2)" for ip
  proof -
    from that ok1 ok2 obtain a where "parse_ipv4 ip = Some a" by blast
    then show ?thesis by (simp add: show_parse_ipv4)
  qed
  have "set calls = (\<lambda>v. DeleteDnsRecord z (cf_id v)) ` (set (dels d1) \<union> set (dels d2)) \<union>
      (\<lambda>v. CreateDnsRecord z pfx (the (parse_ipv4 v)) True) ` set (adds d1) \<union>
      (\<lambda>v. CreateDnsRecord z (get_node_prefix shake hexenc v (m_cluster_host m)) (the (parse_ipv4 v)) True) ` set (adds d2)"
    unfolding calls using ok1 ok2 by auto
  from that [OF recs d1_def [unfolded g_def] d2_def [unfolded g_def] this parsed] show ?thesis .
qed

lemma record_kept_iff:
  assumes records: "\<And>v. v \<in> set records \<longleftrightarrow> (\<exists>r \<in> set rs. \<exists>ip. dr_content r = A ip \<and>
      v = \<lparr>cf_id = dr_id r, cf_name = dr_name r, cf_ip = ipv4_to_string ip\<rparr>)"
    and disjoint: "set (cluster_records g) \<inter> set (single_records g) = {}"
    and g: "cluster_records g = filter (\<lambda>r. cf_name r = h) records" "set (single_records g) \<subseteq> set records"
    and inj: "inj_on dr_id (set rs)"
    and r: "r \<in> set rs" "dr_name r = h" "dr_content r = A ip"
  shows "dr_id r \<in> cf_id ` (set (dels (diff_records (cluster_records g) ips)) \<union>
      set (dels (diff_records (single_records g) ips))) \<longleftrightarrow> ipv4_to_string ip \<notin> set ips"
proof -
  let ?v = "\<lparr>cf_id = dr_id r, cf_name = dr_name r, cf_ip = ipv4_to_string ip\<rparr>"
  have v: "?v \<in> set (cluster_records g)"
    using r by (auto simp: g(1) records)
  have same: "w = ?v" if "w \<in> set records" "cf_id w = dr_id r" for w
  proof -
    from that(1) obtain r' ip' where r': "r' \<in> set rs" "dr_content r' = A ip'"
      and w: "w = \<lparr>cf_id = dr_id r', cf_name = dr_name r', cf_ip = ipv4_to_string ip'\<rparr>"
      by (auto simp: records)
    with that(2) inj r(1) have "r' = r" by (auto dest: inj_onD)
    with r' w r(3) show ?thesis by simp
  qed
  have cluster: "w = ?v" if "w \<in> set (cluster_records g)" "cf_id w = dr_id r" for w
    using same [of w] that g(1) by simp
  have single: False if "w \<in> set (single_records g)" "cf_id w = dr_id r" for w
    using same [of w] that g(2) v disjoint by blast
  have "dr_id r \<in> cf_id ` (set (dels (diff_records (cluster_records g) ips)) \<union>
      set (dels (diff_records (single_records g) ips))) \<longleftrightarrow>
      (\<exists>w \<in> set (cluster_records g) \<union> set (single_records g). cf_id w = dr_id r \<and> cf_ip w \<notin> set ips)"
    unfolding diff_records_def Let_def diff_result.select_convs set_filter by (auto simp: image_iff eq_commute [of "dr_id r"])
  also have "\<dots> \<longleftrightarrow> cf_ip ?v \<notin> set ips"
    using v cluster single by (metis UnE UnI1 cf_a_record.select_convs(1))
  finally show ?thesis by simp
qed

lemma node_record_name:
  assumes ids: "node_id_ok shake hexenc" and h: "split_host h = (pfx, base)"
  shows "get_node_prefix shake hexenc v h @ ''.'' @ base \<noteq> h"
proof -
  have "length h \<le> length pfx + 1 + length base" using split_host_parts [OF h] by auto
  moreover have "length (get_node_prefix shake hexenc v h @ ''.'' @ base) > length pfx + 1 + length base"
    using length_node_id [OF ids, of v] h by (simp add: get_node_prefix_def NODE_ID_LEN_def)
  ultimately have "length (get_node_prefix shake hexenc v h @ ''.'' @ base) \<noteq> length h" by linarith
  then show ?thesis by metis
qed

text \<open>
  Property C15. After a successful update under a host with a prefix, the addresses the cluster's name
  resolves to are exactly those of the running instances, whatever the zone held before.
\<close>

theorem update_dns_zone:
  assumes ids: "node_id_ok shake hexenc"
    and h: "split_host (m_cluster_host m) = (pfx, base)" "pfx \<noteq> []"
    and zone: "get_zone_id cf base = Inr (Some z)" "cf_list_records cf z = Some rs"
    and distinct_ids: "inj_on dr_id (set rs)" and fresh: "\<And>c. fresh c \<notin> dr_id ` set rs"
    and run: "update_dns shake hexenc cf m ns = (calls, Inr u)"
  shows "zone_ips (m_cluster_host m) (fold (zone_apply fresh base) calls (set rs)) = set (map public_ip ns)"
proof -
  obtain records d1 d2 where recs: "get_arecords cf z = Inr records"
    and d1: "d1 = diff_records (cluster_records (split_records records pfx base (m_cluster_host m))) (map public_ip ns)"
    and d2: "d2 = diff_records (single_records (split_records records pfx base (m_cluster_host m))) (map public_ip ns)"
    and calls: "set calls = (\<lambda>v. DeleteDnsRecord z (cf_id v)) ` (set (dels d1) \<union> set (dels d2)) \<union>
      (\<lambda>v. CreateDnsRecord z pfx (the (parse_ipv4 v)) True) ` set (adds d1) \<union>
      (\<lambda>v. CreateDnsRecord z (get_node_prefix shake hexenc v (m_cluster_host m)) (the (parse_ipv4 v)) True) ` set (adds d2)"
    and parsed: "\<And>ip. ip \<in> set (adds d1) \<union> set (adds d2) \<Longrightarrow> ipv4_to_string (the (parse_ipv4 ip)) = ip"
    using update_dns_success [OF h(1) zone run] by blast
  let ?h = "m_cluster_host m" and ?ips = "map public_ip ns"
  let ?g = "split_records records pfx base ?h" and ?D = "cf_id ` (set (dels d1) \<union> set (dels d2))"
  let ?rec = "\<lambda>l v. \<lparr>dr_id = fresh (CreateDnsRecord z l (the (parse_ipv4 v)) True),
      dr_name = l @ ''.'' @ base, dr_content = A (the (parse_ipv4 v))\<rparr>"
  note rec_set = zone_ips_records [OF recs zone(2)]
  have g: "cluster_records ?g = filter (\<lambda>r. cf_name r = ?h) records" "set (single_records ?g) \<subseteq> set records"
    by (auto simp: split_records_def Let_def)
  have kept: "r \<in> set rs \<Longrightarrow> dr_name r = ?h \<Longrightarrow> dr_content r = A ip \<Longrightarrow>
      dr_id r \<in> ?D \<longleftrightarrow> ipv4_to_string ip \<notin> set ?ips" for r ip
    unfolding d1 d2
    using record_kept_iff [OF rec_set groups_disjoint [OF h(1)] g distinct_ids] .
  have deleted: "\<Union> (deleted_id ` set calls) = ?D" by (auto simp: calls)
  have "set (dels d1) \<union> set (dels d2) \<subseteq> set records"
    using g by (auto simp: d1 d2 diff_records_def Let_def)
  then have D: "?D \<subseteq> dr_id ` set rs" by (auto dest!: subsetD simp: rec_set)
  have created: "\<Union> (created_by fresh base ` set calls) =
      ?rec pfx ` set (adds d1) \<union> (\<lambda>v. ?rec (get_node_prefix shake hexenc v ?h) v) ` set (adds d2)"
    unfolding calls by (simp add: UN_Un image_UN UNION_singleton_eq_range)
  have final: "fold (zone_apply fresh base) calls (set rs) =
      {r \<in> set rs. dr_id r \<notin> ?D} \<union> \<Union> (created_by fresh base ` set calls)"
    unfolding deleted [symmetric]
  proof (rule zone_fold)
    show "fresh c \<notin> \<Union> (deleted_id ` set calls)" for c
      unfolding deleted using D fresh by blast
    show "\<not> is_update c" if "c \<in> set calls" for c
      using that unfolding calls by auto
  qed
  have host: "pfx @ ''.'' @ base = ?h" using split_host_parts [OF h(1)] h(2) by simp
  let ?old = "\<lambda>s. \<exists>r \<in> set rs. dr_name r = ?h \<and> (\<exists>ip. dr_content r = A ip \<and> s = ipv4_to_string ip)"
  have "s \<in> zone_ips ?h (\<Union> (created_by fresh base ` set calls)) \<longleftrightarrow>
      (\<exists>v \<in> set (adds d1). s = ipv4_to_string (the (parse_ipv4 v)))" for s
    unfolding created zone_ips_Un zone_ips_image using host node_record_name [OF ids h(1)] by auto
  moreover have "s \<in> zone_ips ?h {r \<in> set rs. dr_id r \<notin> ?D} \<longleftrightarrow> ?old s \<and> s \<in> set ?ips" for s
    unfolding zone_ips_def using kept by blast
  ultimately have "s \<in> zone_ips ?h (fold (zone_apply fresh base) calls (set rs)) \<longleftrightarrow>
      (?old s \<and> s \<in> set ?ips) \<or> (\<exists>v \<in> set (adds d1). s = ipv4_to_string (the (parse_ipv4 v)))" for s
    unfolding final zone_ips_Un by blast
  moreover have "(\<exists>v \<in> set (adds d1). s = ipv4_to_string (the (parse_ipv4 v))) \<longleftrightarrow> s \<in> set (adds d1)" for s
    using parsed by auto
  ultimately have zone_now: "s \<in> zone_ips ?h (fold (zone_apply fresh base) calls (set rs)) \<longleftrightarrow>
      (?old s \<and> s \<in> set ?ips) \<or> s \<in> set (adds d1)" for s
    by simp
  have "s \<in> cf_ip ` set (cluster_records ?g) \<longleftrightarrow> ?old s" for s
    by (force simp: g(1) rec_set)
  then have "s \<in> set (adds d1) \<longleftrightarrow> s \<in> set ?ips \<and> \<not> ?old s" for s
    by (simp add: d1 diff_records_def Let_def)
  then show ?thesis using zone_now by (intro set_eqI) (simp only:, blast)
qed

text \<open>A zone in which the cluster's name points to a stopped server and one of two running ones.\<close>

definition example_manager :: manager where
  "example_manager = manager_new ''entrance.verseengine.cloud'' ''EntranceServer'' ''prd'' ''ap-northeast-1''
     \<lparr>bucket = ''b'', key = ''k''\<rparr> \<lparr>email = ''e'', api_key = ''a''\<rparr>"

definition example_zone :: "dns_record list" where
  "example_zone =
     [\<lparr>dr_id = ''1'', dr_name = ''entrance.verseengine.cloud'', dr_content = A (Ipv4 1 2 3 4)\<rparr>,
      \<lparr>dr_id = ''2'', dr_name = ''entrance.verseengine.cloud'', dr_content = A (Ipv4 9 9 9 9)\<rparr>,
      \<lparr>dr_id = ''3'', dr_name = ''verseengine.cloud'', dr_content = OtherContent\<rparr>]"

definition example_service :: cf_service where
  "example_service =
     \<lparr>cf_client_ok = (\<lambda>_. True), cf_list_zones = (\<lambda>_. Some [''z'']),
      cf_list_records = (\<lambda>_. Some example_zone), cf_list_records_named = (\<lambda>_ _. None), cf_call = (\<lambda>_. True)\<rparr>"

definition example_fresh :: "dns_call \<Rightarrow> string" where
  "example_fresh c = ''new-'' @ (case c of CreateDnsRecord z l ip p \<Rightarrow> l | _ \<Rightarrow> [])"

theorem update_dns_zone_witness:
  "\<exists>calls. update_dns fold_xof hex_encode example_service example_manager
      [\<lparr>public_ip = ''1.2.3.4''\<rparr>, \<lparr>public_ip = ''5.6.7.8''\<rparr>] = (calls, Inr ()) \<and>
    zone_ips ''entrance.verseengine.cloud'' (fold (zone_apply example_fresh ''verseengine.cloud'') calls (set example_zone)) =
      {''1.2.3.4'', ''5.6.7.8''}"
proof -
  let ?ns = "[\<lparr>public_ip = ''1.2.3.4''\<rparr>, \<lparr>public_ip = ''5.6.7.8''\<rparr>]"
  have h: "split_host (m_cluster_host example_manager) = (''entrance'', ''verseengine.cloud'')"
    by (simp add: split_host_def splitn2_def example_manager_def manager_new_def)
  have ch: "m_cluster_host example_manager = ''entrance.verseengine.cloud''"
    by (simp add: example_manager_def manager_new_def)
  have ok: "cf_client_ok example_service a" "cf_call example_service c" for a c
    by (simp_all add: example_service_def)
  have zone: "get_zone_id example_service ''verseengine.cloud'' = Inr (Some ''z'')"
    "cf_list_records example_service ''z'' = Some example_zone"
    by (simp_all add: get_zone_id_def example_service_def)
  have recs: "get_arecords example_service ''z'' =
      Inr [\<lparr>cf_id = ''1'', cf_name = ''entrance.verseengine.cloud'', cf_ip = ''1.2.3.4''\<rparr>,
           \<lparr>cf_id = ''2'', cf_name = ''entrance.verseengine.cloud'', cf_ip = ''9.9.9.9''\<rparr>]"
    by (simp add: get_arecords_def example_service_def example_zone_def List.map_filter_simps) (simp_all add: show_octet_def digit_chars Let_def)
  have "parse_ipv4 ''1.2.3.4'' \<noteq> None" "parse_ipv4 ''5.6.7.8'' \<noteq> None"
    by (simp_all add: parse_ipv4_def splitn2_def digit_value_def)
  then have "\<exists>calls. update_dns fold_xof hex_encode example_service example_manager ?ns = (calls, Inr ())"
    by (auto simp: update_dns_def h [unfolded ch] zone recs split_records_def diff_records_def diff_ops_def NODE_ID_LEN_def
      delete_arecord_def add_arecord_def request_def ch ok Let_def)
  then obtain calls where run: "update_dns fold_xof hex_encode example_service example_manager ?ns = (calls, Inr ())" ..
  have "inj_on dr_id (set example_zone)" and "\<And>c. example_fresh c \<notin> dr_id ` set example_zone"
    by (simp_all add: example_zone_def example_fresh_def)
  from update_dns_zone [OF node_id_ok_concrete h _ zone this run] run show ?thesis
    by (auto simp: ch)
qed

end
