(* ===== verification/Proto_Messages.thy ===== *)
theory Proto_Messages
  imports Routing_Info
begin

text \<open>
  The messages of the data channel and their packing: \<open>proto/src/lib.rs\<close> (module \<open>rpc\<close> and the
  signature conversion of module \<open>swarm\<close>), \<open>common/src/compress.rs\<close> and \<open>hubserv/src/ids.rs\<close>.
  The wire encoding is generated by prost, the compression is zlib and the session identifiers are
  the crate \<open>verse_session_id\<close>: these are parameters, gathered in the records \<open>codec\<close> and
  \<open>sid_api\<close>.
\<close>

section \<open>Messages\<close>

text \<open>Requests and responses have the same fields, in \<open>rpc.proto\<close> and in \<open>swarm.proto\<close>.\<close>

record rpc_message =
  rpc_id :: u32
  rpc_param :: bytes

datatype packet_data = Request rpc_message | Response rpc_message

record rpc_packet =
  rp_data :: "packet_data option"
  is_compressed :: bool

type_synonym swarm_packet = "packet_data option"

record signature_set =
  from_session_id :: bytes
  signature_bytes :: bytes
  salt_bytes :: bytes

record transfer_request =
  to_session_id :: bytes
  tr_signature :: "signature_set option"
  payload :: bytes
  ttl :: u32

record transfer_response =
  tr_result :: bool
  dest_session_id :: bytes

definition set_request :: "rpc_packet \<Rightarrow> rpc_message \<Rightarrow> rpc_packet" where
  "set_request self v = self\<lparr>rp_data := Some (Request v)\<rparr>"

definition set_response :: "rpc_packet \<Rightarrow> rpc_message \<Rightarrow> rpc_packet" where
  "set_response self v = self\<lparr>rp_data := Some (Response v)\<rparr>"

datatype transfer_payload =
    RequestOffer bytes
  | Offer bytes bytes
  | EncryptedPayload bytes

definition set_encrypted_payload :: "transfer_payload option \<Rightarrow> bytes \<Rightarrow> transfer_payload option" where
  "set_encrypted_payload self v = Some (EncryptedPayload v)"

definition RPC_ID_KEEP_ALIVE :: u32 where "RPC_ID_KEEP_ALIVE = 0"
definition RPC_ID_SWARM :: u32 where "RPC_ID_SWARM = 1"
definition RPC_ID_TRANSFER :: u32 where "RPC_ID_TRANSFER = 1"
definition RPC_ID_EXCHANGE_ROUTING_INFO :: u32 where "RPC_ID_EXCHANGE_ROUTING_INFO = 2"

section \<open>What the program uses of other crates\<close>

record codec =
  enc_rpc :: "rpc_packet \<Rightarrow> bytes"
  dec_rpc :: "bytes \<Rightarrow> rpc_packet option"
  enc_swarm :: "swarm_packet \<Rightarrow> bytes"
  dec_swarm :: "bytes \<Rightarrow> swarm_packet option"
  enc_transfer :: "transfer_request \<Rightarrow> bytes"
  dec_transfer :: "bytes \<Rightarrow> transfer_request option"
  enc_transfer_response :: "transfer_response \<Rightarrow> bytes"
  enc_routing :: "routing_info \<Rightarrow> bytes"
  dec_routing :: "bytes \<Rightarrow> routing_info option"
  zlib_compress :: "bytes \<Rightarrow> bytes option"
  zlib_decompress :: "bytes \<Rightarrow> bytes option"

type_synonym session_id = bytes

text \<open>
  \<open>SessionId\<close>: \<open>try_from\<close> a slice, \<open>parse\<close> a string, \<open>verify\<close> a signature over a list of chunks
  (signature and salt as arrays of the crate's sizes), and \<open>eq_slice\<close>.
\<close>

record sid_api =
  sid_try_from :: "bytes \<Rightarrow> session_id option"
  sid_parse :: "string \<Rightarrow> session_id option"
  sid_verify :: "session_id \<Rightarrow> bytes list \<Rightarrow> bytes \<times> bytes \<Rightarrow> bool"
  sid_eq_slice :: "session_id \<Rightarrow> bytes \<Rightarrow> bool"
  SIGNATURE_SIZE :: nat
  SIGNATURE_SALT_SIZE :: nat

datatype rpc_error =
    BadSessionId
  | NoSignature
  | SignatureConvert
  | BadSignature
  | DecodeFailed
  | CompressFailed
  | DecompressFailed
  | SendFailed
  | ParseFailed

text \<open>\<open>TryFrom<&SignatureSet>\<close>: both arrays must have exactly the size the crate expects.\<close>

definition signature_try_from :: "sid_api \<Rightarrow> signature_set \<Rightarrow> rpc_error + bytes \<times> bytes" where
  "signature_try_from api v =
     (if length (signature_bytes v) \<noteq> SIGNATURE_SIZE api then Err SignatureConvert
      else if length (salt_bytes v) \<noteq> SIGNATURE_SALT_SIZE api then Err SignatureConvert
      else Ok (signature_bytes v, salt_bytes v))"

section \<open>Compression\<close>

definition MIN_LENGTH :: nat where "MIN_LENGTH = 100"

definition compress_if_needed :: "codec \<Rightarrow> bytes \<Rightarrow> rpc_error + bytes option" where
  "compress_if_needed c uncompressed =
     (if length uncompressed < MIN_LENGTH then Ok None else
      case zlib_compress c uncompressed of
        None \<Rightarrow> Err CompressFailed
      | Some compressed \<Rightarrow>
          if length uncompressed \<le> length compressed then Ok None else Ok (Some compressed))"

definition decompress :: "codec \<Rightarrow> bytes \<Rightarrow> rpc_error + bytes" where
  "decompress c compressed =
     (case zlib_decompress c compressed of None \<Rightarrow> Err DecompressFailed | Some d \<Rightarrow> Ok d)"

section \<open>Packets\<close>

text \<open>\<open>encode_packet\<close> takes \<open>&mut self\<close>: the packet it leaves behind comes first.\<close>

definition encode_packet :: "codec \<Rightarrow> rpc_packet \<Rightarrow> rpc_packet \<times> bytes" where
  "encode_packet c self =
     (let self =
        (if \<not> is_compressed self then
           (case rp_data self of
              Some (Request r) \<Rightarrow>
                (case compress_if_needed c (rpc_param r) of
                   Inr (Some compressed) \<Rightarrow>
                     self\<lparr>rp_data := Some (Request (r\<lparr>rpc_param := compressed\<rparr>)), is_compressed := True\<rparr>
                 | _ \<Rightarrow> self)
            | Some (Response r) \<Rightarrow>
                (case compress_if_needed c (rpc_param r) of
                   Inr (Some compressed) \<Rightarrow>
                     self\<lparr>rp_data := Some (Response (r\<lparr>rpc_param := compressed\<rparr>)), is_compressed := True\<rparr>
                 | _ \<Rightarrow> self)
            | None \<Rightarrow> self)
         else self)
      in (self, enc_rpc c self))"

definition decode_packet :: "codec \<Rightarrow> bytes \<Rightarrow> rpc_error + rpc_packet" where
  "decode_packet c bs =
     (case dec_rpc c bs of
        None \<Rightarrow> Err DecodeFailed
      | Some p \<Rightarrow>
          Ok (if is_compressed p then
                (case rp_data p of
                   Some (Request r) \<Rightarrow>
                     (case decompress c (rpc_param r) of
                        Inr decompressed \<Rightarrow>
                          p\<lparr>rp_data := Some (Request (r\<lparr>rpc_param := decompressed\<rparr>)), is_compressed := False\<rparr>
                      | Inl _ \<Rightarrow> p)
                 | Some (Response r) \<Rightarrow>
                     (case decompress c (rpc_param r) of
                        Inr decompressed \<Rightarrow>
                          p\<lparr>rp_data := Some (Response (r\<lparr>rpc_param := decompressed\<rparr>)), is_compressed := False\<rparr>
                      | Inl _ \<Rightarrow> p)
                 | None \<Rightarrow> p)
              else p))"

text \<open>What prost and zlib document: decoding what was encoded gives it back.\<close>

definition rpc_codec_ok :: "codec \<Rightarrow> bool" where
  "rpc_codec_ok c \<longleftrightarrow> (\<forall>p. dec_rpc c (enc_rpc c p) = Some p) \<and>
     (\<forall>u z. zlib_compress c u = Some z \<longrightarrow> zlib_decompress c z = Some u)"

section \<open>Properties\<close>

lemma compress_if_needed_Some:
  "compress_if_needed c u = Ok (Some z) \<Longrightarrow> zlib_compress c u = Some z \<and> length z < length u \<and> MIN_LENGTH \<le> length u"
  by (auto simp: compress_if_needed_def split: if_splits option.splits)

lemma decode_encode:
  assumes ok: "rpc_codec_ok c" and p: "\<not> is_compressed p"
  shows "decode_packet c (snd (encode_packet c p)) = Ok p"
proof (cases "rp_data p")
  case None
  with ok p show ?thesis by (simp add: encode_packet_def Let_def decode_packet_def rpc_codec_ok_def)
next
  case (Some d)
  show ?thesis
  proof (cases "\<exists>z. compress_if_needed c (case d of Request r \<Rightarrow> rpc_param r | Response r \<Rightarrow> rpc_param r) = Ok (Some z)")
    case True
    then obtain z where z: "compress_if_needed c (case d of Request r \<Rightarrow> rpc_param r | Response r \<Rightarrow> rpc_param r) = Ok (Some z)" ..
    with ok have "zlib_decompress c z = Some (case d of Request r \<Rightarrow> rpc_param r | Response r \<Rightarrow> rpc_param r)"
      unfolding rpc_codec_ok_def using compress_if_needed_Some by blast
    then have "decompress c z = Ok (case d of Request r \<Rightarrow> rpc_param r | Response r \<Rightarrow> rpc_param r)"
      by (simp add: decompress_def)
    with z Some ok p show ?thesis
      by (cases d) (simp_all add: encode_packet_def Let_def decode_packet_def rpc_codec_ok_def)
  next
    case False
    then have "encode_packet c p = (p, enc_rpc c p)"
      using Some p by (cases d) (auto simp: encode_packet_def split: sum.splits option.splits)
    with ok p show ?thesis by (simp add: decode_packet_def rpc_codec_ok_def)
  qed
qed

text \<open>
  Property C20. Whatever is packed arrives as it was: decoding the packed bytes gives back the packet,
  whether or not its parameter was compressed on the way; a parameter is only compressed when it has
  at least 100 bytes, and then it gets shorter.
\<close>

theorem packet_roundtrip:
  assumes "rpc_codec_ok c" and "\<not> is_compressed p"
  shows "decode_packet c (snd (encode_packet c p)) = Ok p \<and>
    (\<forall>r z. compress_if_needed c (rpc_param r) = Ok (Some z) \<longrightarrow>
       MIN_LENGTH \<le> length (rpc_param r) \<and> length z < length (rpc_param r) \<and>
       fst (encode_packet c (set_request p r)) =
         (set_request p (r\<lparr>rpc_param := z\<rparr>))\<lparr>is_compressed := True\<rparr>)"
proof -
  have "fst (encode_packet c (set_request p r)) =
      (set_request p (r\<lparr>rpc_param := z\<rparr>))\<lparr>is_compressed := True\<rparr>"
    if "compress_if_needed c (rpc_param r) = Ok (Some z)" for r z
    using that assms(2) by (simp add: encode_packet_def Let_def set_request_def)
  then show ?thesis using decode_encode [OF assms] compress_if_needed_Some by blast
qed

text \<open>A wire format and a run-length compression with which the parameters can be instantiated.\<close>

definition u32_bytes :: "u32 \<Rightarrow> bytes" where
  "u32_bytes w = (let n = unat w in
     [of_nat (n mod 256), of_nat (n div 256 mod 256), of_nat (n div 65536 mod 256), of_nat (n div 16777216)])"

definition bytes_u32 :: "bytes \<Rightarrow> u32" where
  "bytes_u32 b = of_nat (unat (b ! 0) + 256 * unat (b ! 1) + 65536 * unat (b ! 2) + 16777216 * unat (b ! 3))"

lemma u32_bytes_roundtrip: "bytes_u32 (u32_bytes w) = w" and length_u32_bytes: "length (u32_bytes w) = 4"
proof -
  have n: "unat w < 4294967296"
    using unsigned_less [of w] by simp
  have split: "n mod 256 + 256 * (n div 256 mod 256) + 65536 * (n div 65536 mod 256) + 16777216 * (n div 16777216) = n"
    for n :: nat
  proof -
    have d: "n div 65536 = n div 256 div 256" "n div 16777216 = n div 256 div 256 div 256"
      by (simp_all add: div_mult2_eq [symmetric])
    have "m mod 256 + 256 * (m div 256) = m" for m :: nat by simp
    from this [of n] this [of "n div 256"] this [of "n div 256 div 256"]
    have "n mod 256 + 256 * (n div 256 mod 256 + 256 * (n div 256 div 256 mod 256 + 256 * (n div 256 div 256 div 256))) = n"
      by presburger
    moreover have "a + 256 * (b + 256 * (c + 256 * e)) = a + 256 * b + 65536 * c + 16777216 * e" for a b c e :: nat
      by simp
    ultimately show ?thesis unfolding d by (simp only:)
  qed
  have "unat w div 16777216 < 256" using n by (simp add: div_less_iff_less_mult)
  then have "unat w div 16777216 mod 256 = unat w div 16777216" by simp
  then have "bytes_u32 (u32_bytes w) = of_nat (unat w mod 256 + 256 * (unat w div 256 mod 256) +
      65536 * (unat w div 65536 mod 256) + 16777216 * (unat w div 16777216))"
    unfolding bytes_u32_def u32_bytes_def Let_def by (simp add: unat_of_nat del: of_nat_add of_nat_mult)
  then show "bytes_u32 (u32_bytes w) = w" unfolding split by simp
  show "length (u32_bytes w) = 4" by (simp add: u32_bytes_def Let_def)
qed

definition enc_data :: "packet_data option \<Rightarrow> bytes" where
  "enc_data d =
     (case d of None \<Rightarrow> [0]
      | Some (Request r) \<Rightarrow> 1 # u32_bytes (rpc_id r) @ rpc_param r
      | Some (Response r) \<Rightarrow> 2 # u32_bytes (rpc_id r) @ rpc_param r)"

definition dec_data :: "bytes \<Rightarrow> packet_data option option" where
  "dec_data bs =
     (if bs = [0] then Some None
      else if length bs < 5 then None
      else let m = \<lparr>rpc_id = bytes_u32 (take 4 (tl bs)), rpc_param = drop 4 (tl bs)\<rparr>
           in if hd bs = 1 then Some (Some (Request m))
              else if hd bs = 2 then Some (Some (Response m)) else None)"

definition rle :: "bytes \<Rightarrow> bytes option" where
  "rle u = Some (if length u < 256 \<and> u = replicate (length u) 1 then [1, of_nat (length u)] else 0 # u)"

definition unrle :: "bytes \<Rightarrow> bytes option" where
  "unrle z = (case z of [] \<Rightarrow> None | a # u \<Rightarrow> if a = 0 then Some u else Some (replicate (unat (hd u)) 1))"

definition example_codec :: codec where
  "example_codec =
     \<lparr>enc_rpc = (\<lambda>p. (if is_compressed p then 1 else 0) # enc_data (rp_data p)),
      dec_rpc = (\<lambda>bs. case bs of [] \<Rightarrow> None
        | f # rest \<Rightarrow> map_option (\<lambda>d. \<lparr>rp_data = d, is_compressed = (f = 1)\<rparr>) (dec_data rest)),
      enc_swarm = enc_data, dec_swarm = dec_data,
      enc_transfer = payload, dec_transfer = (\<lambda>_. None),
      enc_transfer_response = (\<lambda>r. (if tr_result r then 1 else 0) # dest_session_id r),
      enc_routing = (\<lambda>r. case ri_session_id r of None \<Rightarrow> [] | Some s \<Rightarrow> s), dec_routing = (\<lambda>_. None),
      zlib_compress = rle, zlib_decompress = unrle\<rparr>"

lemma dec_enc_data: "dec_data (enc_data d) = Some d"
  by (cases d rule: option.exhaust; cases "the d")
    (auto simp: dec_data_def enc_data_def length_u32_bytes u32_bytes_roundtrip Let_def split: packet_data.splits)

lemma unrle_rle: "rle u = Some z \<Longrightarrow> unrle z = Some u"
  by (auto simp: rle_def unrle_def unat_of_nat split: if_splits)

lemma example_codec_ok: "rpc_codec_ok example_codec"
  by (auto simp: rpc_codec_ok_def example_codec_def dec_enc_data unrle_rle)

theorem packet_roundtrip_witness:
  "let p = \<lparr>rp_data = Some (Request \<lparr>rpc_id = 1, rpc_param = replicate 200 1\<rparr>), is_compressed = False\<rparr>
   in decode_packet example_codec (snd (encode_packet example_codec p)) = Ok p \<and>
      rp_data (fst (encode_packet example_codec p)) = Some (Request \<lparr>rpc_id = 1, rpc_param = [1, 200]\<rparr>)"
proof -
  let ?p = "\<lparr>rp_data = Some (Request \<lparr>rpc_id = 1, rpc_param = replicate 200 1\<rparr>), is_compressed = False\<rparr>"
  have "decode_packet example_codec (snd (encode_packet example_codec ?p)) = Ok ?p"
    using packet_roundtrip [OF example_codec_ok, of ?p] by simp
  moreover have "compress_if_needed example_codec (replicate 200 1) = Ok (Some [1, 200])"
    by (simp add: compress_if_needed_def example_codec_def rle_def MIN_LENGTH_def)
  ultimately show ?thesis by (simp add: encode_packet_def Let_def)
qed

text \<open>A session identifier is its bytes; a signature is the signer's name.\<close>

definition example_sid_api :: sid_api where
  "example_sid_api =
     \<lparr>sid_try_from = (\<lambda>b. if length b = 1 then Some b else None),
      sid_parse = (\<lambda>s. if length s = 1 then Some (as_bytes s) else None),
      sid_verify = (\<lambda>s chunks (sg, salt). sg = s), sid_eq_slice = (\<lambda>s b. s = b),
      SIGNATURE_SIZE = 1, SIGNATURE_SALT_SIZE = 1\<rparr>"

end
