(* ===== verification/Client_Data.thy ===== *)
theory Client_Data
  imports Proto_Messages
begin

text \<open>
  One connected client, \<open>hubserv/src/state/client_data.rs\<close>. Peer connections and data channels are
  objects of the webrtc crate: the model keeps their handles, and what is done to them is a list of
  effects in the order the code asks for them. A client is shared (\<open>Arc\<close>) between the connection
  map, the list of its world and the message callbacks, so the rest of the model refers to clients
  by address.
\<close>

type_synonym pc = nat
type_synonym dc = nat

datatype effect =
    ClearDataChannelHandler pc
  | ClearMessageHandler dc
  | SpawnClose "dc option" pc
  | DcSend dc bytes
  | DcClose dc
  | PcClose pc
  | AddIceCandidate pc string
  | AccessLog string

text \<open>Whether sending on a channel and adding a candidate succeed is up to the webrtc crate.\<close>

record webrtc =
  dc_send_ok :: "dc \<Rightarrow> bytes \<Rightarrow> bool"
  add_ice_ok :: "pc \<Rightarrow> string \<Rightarrow> bool"

record client_data =
  cd_session_id :: session_id
  cd_pc :: pc
  cd_dc :: "dc option"
  cd_url :: string
  cd_routing_info :: "routing_info option"

definition client_data_new :: "session_id \<Rightarrow> pc \<Rightarrow> string \<Rightarrow> client_data" where
  "client_data_new sid p u =
     \<lparr>cd_session_id = sid, cd_pc = p, cd_dc = None, cd_url = u, cd_routing_info = None\<rparr>"

definition get_dc :: "client_data \<Rightarrow> dc option" where
  "get_dc self = cd_dc self"

text \<open>\<open>OnceBox::set\<close>: the first channel stays, a second one is reported and dropped.\<close>

definition set_dc :: "client_data \<Rightarrow> dc \<Rightarrow> client_data" where
  "set_dc self d = (case cd_dc self of None \<Rightarrow> self\<lparr>cd_dc := Some d\<rparr> | Some _ \<Rightarrow> self)"

definition set_routing_info :: "client_data \<Rightarrow> routing_info \<Rightarrow> client_data" where
  "set_routing_info self ri =
     (let ri = set_count ri (of_nat (get_relation_count ri));
          ri = with_known ri []
      in self\<lparr>cd_routing_info := Some ri\<rparr>)"

definition cd_get_routing_info :: "client_data \<Rightarrow> routing_info option" where
  "cd_get_routing_info self = cd_routing_info self"

definition add_ice_candidate :: "webrtc \<Rightarrow> client_data \<Rightarrow> string \<Rightarrow> effect list \<times> (unit + unit)" where
  "add_ice_candidate rtc self candidate =
     ([AddIceCandidate (cd_pc self) candidate],
      if add_ice_ok rtc (cd_pc self) candidate then Ok () else Err ())"

text \<open>The handlers are replaced at once, the channel and the connection closed by a spawned task.\<close>

definition dispose :: "client_data \<Rightarrow> effect list" where
  "dispose self =
     ClearDataChannelHandler (cd_pc self) #
     (case get_dc self of None \<Rightarrow> [] | Some d \<Rightarrow> [ClearMessageHandler d]) @
     [SpawnClose (get_dc self) (cd_pc self)]"

definition cd_send_rpc_response ::
  "codec \<Rightarrow> webrtc \<Rightarrow> client_data \<Rightarrow> u32 \<Rightarrow> bytes \<Rightarrow> effect list \<times> (rpc_error + bool)" where
  "cd_send_rpc_response c rtc self i par =
     (let res_packet = snd (encode_packet c
            \<lparr>rp_data = Some (Response \<lparr>rpc_id = i, rpc_param = par\<rparr>), is_compressed = False\<rparr>)
      in case get_dc self of
           Some d \<Rightarrow>
             ([DcSend d res_packet], if dc_send_ok rtc d res_packet then Ok True else Err SendFailed)
         | None \<Rightarrow> ([], Ok False))"

text \<open>What no operation changes: who the client is and where it is.\<close>

lemma set_dc_keeps [simp]:
  "cd_session_id (set_dc cd d) = cd_session_id cd"
  "cd_url (set_dc cd d) = cd_url cd"
  "cd_pc (set_dc cd d) = cd_pc cd"
  "cd_routing_info (set_dc cd d) = cd_routing_info cd"
  by (simp_all add: set_dc_def split: option.split)

lemma set_routing_info_keeps [simp]:
  "cd_session_id (set_routing_info cd ri) = cd_session_id cd"
  "cd_url (set_routing_info cd ri) = cd_url cd"
  "cd_pc (set_routing_info cd ri) = cd_pc cd"
  "cd_dc (set_routing_info cd ri) = cd_dc cd"
  by (simp_all add: set_routing_info_def Let_def)

lemma client_data_new_sel [simp]:
  "cd_session_id (client_data_new sid p u) = sid"
  "cd_url (client_data_new sid p u) = u"
  "cd_pc (client_data_new sid p u) = p"
  "cd_dc (client_data_new sid p u) = None"
  "cd_routing_info (client_data_new sid p u) = None"
  by (simp_all add: client_data_new_def)

text \<open>
  The data channel of a client is set once: whatever channels are opened afterwards, it
  keeps the first, and the client is closed through that one.
\<close>

theorem set_dc_once:
  "get_dc (foldl set_dc (client_data_new sid p u) ds) = (case ds of [] \<Rightarrow> None | d # _ \<Rightarrow> Some d) \<and>
   dispose (foldl set_dc (client_data_new sid p u) (d0 # ds)) =
     [ClearDataChannelHandler p, ClearMessageHandler d0, SpawnClose (Some d0) p]"
proof -
  have keep: "cd_dc cd = Some d \<Longrightarrow> foldl set_dc cd ds = cd" for cd d ds
    by (induction ds) (auto simp: set_dc_def)
  have first: "foldl set_dc (client_data_new sid p u) (d # ds) = (client_data_new sid p u)\<lparr>cd_dc := Some d\<rparr>" for d ds
    using keep by (simp add: set_dc_def)
  show ?thesis
    by (cases ds) (simp_all add: first get_dc_def dispose_def del: foldl_Cons)
qed

text \<open>A stored tree is cut down to its number of relations and its own fields.\<close>

lemma set_routing_info_stored:
  "\<exists>r. cd_routing_info (set_routing_info cd ri) = Some r \<and> get_relations r = None \<and> ri_known r = [] \<and>
     ri_session_id r = ri_session_id ri \<and> ri_node_type r = ri_node_type ri \<and>
     ri_relation r = Some (Count (of_nat (get_relation_count ri)))"
  by (simp add: set_routing_info_def Let_def set_count_def get_relations_def)

end
