(* ===== verification/Bounded_Registry.thy ===== *)
theory Bounded_Registry
  imports Verse_Prelude
begin

text \<open>
  The contract that both registries of the server keep: a set of members under distinct keys, a
  \<open>u64\<close> counter beside it, and a limit. An entry is admitted or the registry is left as it was; a
  member can be evicted. \<open>Url_Data\<close> interprets the contract on the clients of one world
  (\<open>hubserv/src/state/url_data.rs\<close>), \<open>Server_State\<close> on the connections of the whole server
  (\<open>hubserv/src/state.rs\<close>).
\<close>

datatype ('e, 'k) registry_op = Admit 'e | Evict 'k

text \<open>
  A run of operations, each carried out as it is. The contract is for allowed runs: an entry is ready when
  it is admitted (its key is free), and only members are evicted.
\<close>

fun run_registry ::
  "('e \<Rightarrow> 's \<Rightarrow> 's \<times> bool) \<Rightarrow> ('k \<Rightarrow> 's \<Rightarrow> 's) \<Rightarrow> ('e, 'k) registry_op list \<Rightarrow> 's \<Rightarrow> 's" where
  "run_registry admit evict [] s = s"
| "run_registry admit evict (Admit e # ops) s = run_registry admit evict ops (fst (admit e s))"
| "run_registry admit evict (Evict k # ops) s = run_registry admit evict ops (evict k s)"

fun allowed_ops ::
  "('s \<Rightarrow> 'e \<Rightarrow> bool) \<Rightarrow> ('s \<Rightarrow> 'k set) \<Rightarrow> ('e \<Rightarrow> 's \<Rightarrow> 's \<times> bool) \<Rightarrow> ('k \<Rightarrow> 's \<Rightarrow> 's) \<Rightarrow>
     ('e, 'k) registry_op list \<Rightarrow> 's \<Rightarrow> bool" where
  "allowed_ops ready members admit evict [] s \<longleftrightarrow> True"
| "allowed_ops ready members admit evict (Admit e # ops) s \<longleftrightarrow>
     ready s e \<and> allowed_ops ready members admit evict ops (fst (admit e s))"
| "allowed_ops ready members admit evict (Evict k # ops) s \<longleftrightarrow>
     k \<in> members s \<and> allowed_ops ready members admit evict ops (evict k s)"

locale bounded_registry =
  fixes inv :: "'s \<Rightarrow> bool"
    and members :: "'s \<Rightarrow> 'k set"
    and count :: "'s \<Rightarrow> u64"
    and limit :: "'s \<Rightarrow> u64"
    and ready :: "'s \<Rightarrow> 'e \<Rightarrow> bool"
    and key :: "'s \<Rightarrow> 'e \<Rightarrow> 'k"
    and admit :: "'e \<Rightarrow> 's \<Rightarrow> 's \<times> bool"
    and evict :: "'k \<Rightarrow> 's \<Rightarrow> 's"
  assumes finite_members: "inv s \<Longrightarrow> finite (members s)"
    and count_members: "inv s \<Longrightarrow> unat (count s) = card (members s)"
    and ready_fresh: "inv s \<Longrightarrow> ready s e \<Longrightarrow> key s e \<notin> members s"
    and admit_rejected: "inv s \<Longrightarrow> ready s e \<Longrightarrow> admit e s = (s', False) \<Longrightarrow> s' = s"
    and admit_accepted: "inv s \<Longrightarrow> ready s e \<Longrightarrow> admit e s = (s', True) \<Longrightarrow>
      inv s' \<and> members s' = insert (key s e) (members s) \<and> limit s' = limit s \<and> count s < limit s"
    and evict_member: "inv s \<Longrightarrow> k \<in> members s \<Longrightarrow>
      inv (evict k s) \<and> members (evict k s) = members s - {k} \<and> limit (evict k s) = limit s"
begin

lemma admit_count:
  assumes "inv s" "ready s e" "admit e s = (s', True)"
  shows "unat (count s') = Suc (unat (count s)) \<and> count s' \<le> limit s'"
proof -
  note acc = admit_accepted [OF assms]
  have "unat (count s') = Suc (unat (count s))"
    using acc count_members [of s] count_members [of s'] finite_members [OF assms(1)]
      ready_fresh [OF assms(1,2)] assms(1) by simp
  moreover from this acc have "unat (count s') \<le> unat (limit s')" by (simp add: word_less_nat_alt)
  ultimately show ?thesis by (simp add: word_le_nat_alt)
qed

lemma evict_count:
  assumes "inv s" "k \<in> members s"
  shows "Suc (unat (count (evict k s))) = unat (count s)"
proof -
  note ev = evict_member [OF assms]
  have "Suc (card (members s - {k})) = card (members s)"
    using assms finite_members by (metis card_Suc_Diff1)
  with ev assms(1) count_members [of s] count_members [of "evict k s"] show ?thesis by simp
qed

lemma admit_cases:
  assumes "inv s" "ready s e"
  obtains (rejected) "fst (admit e s) = s"
  | (accepted) s' where "admit e s = (s', True)" "fst (admit e s) = s'"
proof (cases "admit e s")
  case (Pair s' b)
  with assms that admit_rejected [of s e s'] show thesis by (cases b) auto
qed

lemma admit_bounded:
  assumes "inv s" "ready s e" "count s \<le> limit s"
  shows "inv (fst (admit e s)) \<and> count (fst (admit e s)) \<le> limit (fst (admit e s)) \<and>
    limit (fst (admit e s)) = limit s"
  using assms(1,2)
proof (cases rule: admit_cases)
  case rejected
  with assms show ?thesis by simp
next
  case (accepted s')
  with assms admit_accepted [of s e s'] admit_count [of s e s'] show ?thesis by simp
qed

lemma evict_bounded:
  assumes "inv s" "k \<in> members s" "count s \<le> limit s"
  shows "count (evict k s) \<le> limit (evict k s) \<and> limit (evict k s) = limit s"
  using evict_count [OF assms(1,2)] evict_member [OF assms(1,2)] assms(3) by (simp add: word_le_nat_alt)

text \<open>After an eviction there is room: the limit does not turn the next entry away.\<close>

lemma evict_frees: "inv s \<Longrightarrow> k \<in> members s \<Longrightarrow> count s \<le> limit s \<Longrightarrow> count (evict k s) < limit (evict k s)"
  using evict_count [of s k] evict_member [of s k] by (simp add: word_le_nat_alt word_less_nat_alt)

lemma run_keeps:
  "inv s \<Longrightarrow> count s \<le> limit s \<Longrightarrow> allowed_ops ready members admit evict ops s \<Longrightarrow>
     inv (run_registry admit evict ops s) \<and> count (run_registry admit evict ops s) \<le> limit s"
proof (induction ops arbitrary: s)
  case Nil
  then show ?case by simp
next
  case (Cons op ops)
  show ?case
  proof (cases op)
    case (Admit e)
    from Cons.prems(3) have e: "ready s e" by (simp add: Admit)
    from admit_bounded [OF Cons.prems(1) e Cons.prems(2)]
    have t: "inv (fst (admit e s))" "count (fst (admit e s)) \<le> limit (fst (admit e s))"
      "limit (fst (admit e s)) = limit s"
      by blast+
    from Cons.IH [OF t(1,2)] Cons.prems(3) show ?thesis by (simp add: Admit t(3))
  next
    case (Evict k)
    from Cons.prems(3) have k: "k \<in> members s" by (simp add: Evict)
    from evict_member [OF Cons.prems(1) k] evict_bounded [OF Cons.prems(1) k Cons.prems(2)]
    have t: "inv (evict k s)" "count (evict k s) \<le> limit (evict k s)" "limit (evict k s) = limit s"
      by blast+
    from Cons.IH [OF t(1,2)] Cons.prems(3) show ?thesis by (simp add: Evict t(3))
  qed
qed

end

end
