(* ===== verification/Url_Data.thy ===== *)
theory Url_Data
  imports Client_Data Bounded_Registry
begin

text \<open>
  The clients of one world, \<open>hubserv/src/state/url_data.rs\<close>: their list, a counter beside it, and the
  routing information the server hands out for the world, refreshed at most every five seconds.
  Clients are addresses in a store, since the same client is in the connection map too. The loops
  around \<open>compare_exchange\<close> run once here, where one operation runs at a time;
  Server_Threads takes them apart. The \<open>i64\<close> seconds of the clock are unbounded integers: between two
  timestamps of \<open>chrono\<close> the subtraction of \<open>update_routing_info_if_needed\<close> cannot overflow.
\<close>

section \<open>Data and operations\<close>

type_synonym cd_ref = nat
type_synonym cd_store = "cd_ref \<Rightarrow> client_data option"

record url_data =
  ud_clients :: "cd_ref list"
  ud_client_count :: u64
  ud_routing_info_updated :: int
  ud_routing_info :: routing_info

definition ROUTING_INFO_UPDATE_INTERVAL_SECONDS :: int where "ROUTING_INFO_UPDATE_INTERVAL_SECONDS = 5"
definition ROUTING_INFO_MAX :: nat where "ROUTING_INFO_MAX = 1000"

definition tracker_info :: "routing_info list \<Rightarrow> routing_info" where
  "tracker_info infos =
     RoutingInfo (node_type_to_i32 Tracker) None None None (Some (RoutingInfos infos)) [] False"

definition create_default_routing_info :: routing_info where
  "create_default_routing_info = tracker_info []"

definition url_data_new :: "cd_ref \<Rightarrow> url_data" where
  "url_data_new cd =
     \<lparr>ud_clients = [cd], ud_client_count = 1, ud_routing_info_updated = 0,
      ud_routing_info = create_default_routing_info\<rparr>"

definition update_routing_info :: "cd_store \<Rightarrow> url_data \<Rightarrow> url_data" where
  "update_routing_info cds self =
     (let relation = List.map_filter (\<lambda>r. cd_get_routing_info (the (cds r)))
            (take ROUTING_INFO_MAX (ud_clients self))
      in self\<lparr>ud_routing_info := tracker_info relation\<rparr>)"

definition update_routing_info_if_needed :: "cd_store \<Rightarrow> int \<Rightarrow> url_data \<Rightarrow> url_data" where
  "update_routing_info_if_needed cds now self =
     (if now - ud_routing_info_updated self < ROUTING_INFO_UPDATE_INTERVAL_SECONDS then self
      else update_routing_info cds (self\<lparr>ud_routing_info_updated := now\<rparr>))"

definition get_client_count :: "url_data \<Rightarrow> usize" where
  "get_client_count self = ud_client_count self"

definition is_empty :: "url_data \<Rightarrow> bool" where
  "is_empty self \<longleftrightarrow> get_client_count self = 0"

definition url_add_connection :: "usize option \<Rightarrow> cd_ref \<Rightarrow> url_data \<Rightarrow> url_data \<times> bool" where
  "url_add_connection max_connections_by_url cd self =
     (if limit_or_max max_connections_by_url \<le> ud_client_count self then (self, False)
      else (self\<lparr>ud_client_count := ud_client_count self + 1, ud_clients := ud_clients self @ [cd]\<rparr>, True))"

definition retain_relations :: "(routing_info \<Rightarrow> bool) \<Rightarrow> routing_info \<Rightarrow> routing_info" where
  "retain_relations p ri =
     (case ri_relation ri of
        Some (RoutingInfos infos) \<Rightarrow> with_relation ri (Some (RoutingInfos (filter p infos)))
      | _ \<Rightarrow> ri)"

definition url_remove_connection :: "sid_api \<Rightarrow> cd_store \<Rightarrow> session_id \<Rightarrow> url_data \<Rightarrow> url_data" where
  "url_remove_connection api cds sid self =
     self\<lparr>ud_client_count := ud_client_count self - 1,
       ud_clients := filter (\<lambda>v. cd_session_id (the (cds v)) \<noteq> sid) (ud_clients self),
       ud_routing_info := retain_relations
         (\<lambda>v. case ri_session_id v of None \<Rightarrow> True | Some i \<Rightarrow> \<not> sid_eq_slice api sid i) (ud_routing_info self)\<rparr>"

section \<open>The registry contract\<close>

abbreviation sid_of :: "cd_store \<Rightarrow> cd_ref \<Rightarrow> session_id" where
  "sid_of cds r \<equiv> cd_session_id (the (cds r))"

definition url_sessions :: "cd_store \<Rightarrow> url_data \<Rightarrow> session_id set" where
  "url_sessions cds ud = sid_of cds ` set (ud_clients ud)"

text \<open>The counter is the length of the list, and no session is in it twice.\<close>

definition url_ok :: "cd_store \<Rightarrow> url_data \<Rightarrow> bool" where
  "url_ok cds ud \<longleftrightarrow> distinct (map (sid_of cds) (ud_clients ud)) \<and>
     unat (ud_client_count ud) = length (ud_clients ud)"

lemma url_ok_new [simp]: "url_ok cds (url_data_new r)"
  by (simp add: url_ok_def url_data_new_def)

lemma url_add_accepted:
  assumes "url_ok cds ud" "sid_of cds r \<notin> url_sessions cds ud"
    and "url_add_connection m r ud = (ud', True)"
  shows "url_ok cds ud' \<and> url_sessions cds ud' = insert (sid_of cds r) (url_sessions cds ud) \<and>
    ud_client_count ud < limit_or_max m \<and> ud_clients ud' = ud_clients ud @ [r]"
proof -
  from assms(3) have lt: "\<not> limit_or_max m \<le> ud_client_count ud"
    and ud': "ud' = ud\<lparr>ud_client_count := ud_client_count ud + 1, ud_clients := ud_clients ud @ [r]\<rparr>"
    by (auto simp: url_add_connection_def split: if_splits)
  with assms below_limit_no_wrap [OF lt] show ?thesis
    by (auto simp: url_ok_def url_sessions_def ud')
qed

lemma url_remove_ok:
  assumes "url_ok cds ud" "sid \<in> url_sessions cds ud"
  shows "url_ok cds (url_remove_connection api cds sid ud) \<and>
    url_sessions cds (url_remove_connection api cds sid ud) = url_sessions cds ud - {sid} \<and>
    unat (ud_client_count (url_remove_connection api cds sid ud)) = unat (ud_client_count ud) - 1"
proof -
  from assms(2) obtain r where r: "r \<in> set (ud_clients ud)" "sid = sid_of cds r"
    by (auto simp: url_sessions_def)
  have "length (filter (\<lambda>v. sid_of cds v \<noteq> sid) (ud_clients ud)) = length (ud_clients ud) - 1"
    unfolding r(2) using assms(1) r(1) by (intro filter_distinct_remove) (simp_all add: url_ok_def)
  moreover from r(1) have "0 < length (ud_clients ud)" by (rule length_pos_if_in_set)
  moreover from this have "unat (ud_client_count ud - 1) = unat (ud_client_count ud) - 1"
    using assms(1) by (intro unat_pred) (simp add: url_ok_def)
  ultimately show ?thesis
    using assms(1) by (auto simp: url_ok_def url_sessions_def url_remove_connection_def distinct_map_filter)
qed

interpretation worlds: bounded_registry "url_ok cds" "url_sessions cds" ud_client_count
  "\<lambda>_. limit_or_max m" "\<lambda>ud r. sid_of cds r \<notin> url_sessions cds ud" "\<lambda>_. sid_of cds"
  "url_add_connection m" "url_remove_connection api cds"
  for cds :: cd_store and m :: "usize option" and api :: sid_api
proof
  fix ud ud' :: url_data and r
  assume ok: "url_ok cds ud" and fresh: "sid_of cds r \<notin> url_sessions cds ud"
  show "url_add_connection m r ud = (ud', False) \<Longrightarrow> ud' = ud"
    by (auto simp: url_add_connection_def split: if_splits)
  show "url_add_connection m r ud = (ud', True) \<Longrightarrow>
      url_ok cds ud' \<and> url_sessions cds ud' = insert (sid_of cds r) (url_sessions cds ud) \<and>
      limit_or_max m = limit_or_max m \<and> ud_client_count ud < limit_or_max m"
    using url_add_accepted [OF ok fresh] by blast
next
  fix ud :: url_data
  assume ok: "url_ok cds ud"
  have "card (url_sessions cds ud) = length (ud_clients ud)"
    using ok distinct_card [of "map (sid_of cds) (ud_clients ud)"] by (simp add: url_ok_def url_sessions_def)
  then show "unat (ud_client_count ud) = card (url_sessions cds ud)" using ok by (simp add: url_ok_def)
qed (auto simp: url_sessions_def url_remove_ok [unfolded url_sessions_def])

section \<open>Properties\<close>

text \<open>
  Property C21. As long as the clients of a world come and go the way the server lets them, no session
  twice at a time and none out that is not in, the world's counter is the number of its clients, each
  session is listed once, and the limit of the world is never exceeded, however often it refuses. The
  operations do not check this themselves: \<open>unallowed_calls\<close> shows what they do otherwise.
\<close>

theorem world_never_overfull:
  assumes "url_ok cds ud" and "ud_client_count ud \<le> limit_or_max m"
    and "allowed_ops (\<lambda>ud r. sid_of cds r \<notin> url_sessions cds ud) (url_sessions cds)
      (url_add_connection m) (url_remove_connection api cds) ops ud"
  shows "let ud' = run_registry (url_add_connection m) (url_remove_connection api cds) ops ud
    in unat (ud_client_count ud') = card (url_sessions cds ud') \<and>
       length (ud_clients ud') = card (url_sessions cds ud') \<and>
       card (url_sessions cds ud') \<le> unat (limit_or_max m)"
proof -
  let ?ud = "run_registry (url_add_connection m) (url_remove_connection api cds) ops ud"
  from worlds.run_keeps [OF assms] have ok: "url_ok cds ?ud" and le: "ud_client_count ?ud \<le> limit_or_max m"
    by blast+
  from worlds.count_members [OF ok] ok le show ?thesis
    by (simp add: url_ok_def word_le_nat_alt Let_def)
qed

text \<open>A session that is added twice stays counted after it has left; one that is not in is counted away.\<close>

lemma unallowed_calls:
  assumes "url_ok cds ud" "\<not> limit_or_max m \<le> ud_client_count ud"
  shows "sid_of cds r \<in> url_sessions cds ud \<Longrightarrow>
      \<not> url_ok cds (url_remove_connection api cds (sid_of cds r) (fst (url_add_connection m r ud)))"
    and "sid \<notin> url_sessions cds ud \<Longrightarrow> \<not> url_ok cds (url_remove_connection api cds sid ud)"
proof -
  assume "sid_of cds r \<in> url_sessions cds ud"
  then obtain x where x: "x \<in> set (ud_clients ud)" "sid_of cds x = sid_of cds r" by (auto simp: url_sessions_def)
  have "length (filter (\<lambda>v. sid_of cds v \<noteq> sid_of cds x) (ud_clients ud)) = length (ud_clients ud) - 1"
    using assms(1) x(1) by (intro filter_distinct_remove) (simp_all add: url_ok_def)
  moreover from x(1) have "length (ud_clients ud) - 1 \<noteq> length (ud_clients ud)" by (cases "ud_clients ud") auto
  ultimately have "length (filter (\<lambda>v. sid_of cds v \<noteq> sid_of cds r) (ud_clients ud)) \<noteq> length (ud_clients ud)"
    by (simp only: x(2) not_False_eq_True)
  then show "\<not> url_ok cds (url_remove_connection api cds (sid_of cds r) (fst (url_add_connection m r ud)))"
    using assms by (simp add: url_ok_def url_remove_connection_def url_add_connection_def)
next
  assume "sid \<notin> url_sessions cds ud"
  then have "filter (\<lambda>v. sid_of cds v \<noteq> sid) (ud_clients ud) = ud_clients ud"
    by (auto simp: url_sessions_def filter_id_conv)
  moreover have "ud_client_count ud - 1 \<noteq> ud_client_count ud" by simp
  then have "unat (ud_client_count ud - 1) \<noteq> unat (ud_client_count ud)" by (simp only: word_unat_eq_iff not_False_eq_True)
  ultimately show "\<not> url_ok cds (url_remove_connection api cds sid ud)"
    using assms(1) by (simp add: url_ok_def url_remove_connection_def)
qed

text \<open>What the world's routing information holds after a refresh.\<close>

lemma tracker_relations [simp]: "get_relations (tracker_info infos) = Some infos"
  by (simp add: tracker_info_def get_relations_def)

lemma tracker_node_type [simp]: "ri_node_type_of (tracker_info infos) = Tracker"
  by (simp add: tracker_info_def ri_node_type_of_def)

lemma update_routing_info_keeps [simp]:
  "ud_clients (update_routing_info_if_needed cds now ud) = ud_clients ud"
  "ud_client_count (update_routing_info_if_needed cds now ud) = ud_client_count ud"
  "url_ok cds (update_routing_info_if_needed cds now ud) = url_ok cds ud"
  by (simp_all add: update_routing_info_if_needed_def update_routing_info_def Let_def url_ok_def)

lemma get_relations_retain [simp]:
  "get_relations (retain_relations p ri) = map_option (filter p) (get_relations ri)"
  by (simp add: retain_relations_def get_relations_def split: option.split relation.split)

text \<open>
  The routing information of a world is refreshed exactly when five seconds have passed;
  it then lists, in the order of the clients, what each of the first thousand has reported, and a
  removed session is in it no more, while the reports of the others stay.
\<close>

lemma world_routing_info:
  assumes eq: "\<And>s i. sid_eq_slice api s i \<longleftrightarrow> i = s"
  shows "(5 \<le> now - ud_routing_info_updated ud \<longrightarrow>
      get_relations (ud_routing_info (update_routing_info_if_needed cds now ud)) =
        Some (List.map_filter (\<lambda>r. cd_routing_info (the (cds r))) (take 1000 (ud_clients ud))) \<and>
      ud_routing_info_updated (update_routing_info_if_needed cds now ud) = now) \<and>
    (now - ud_routing_info_updated ud < 5 \<longrightarrow> update_routing_info_if_needed cds now ud = ud) \<and>
    (\<forall>infos. get_relations (ud_routing_info ud) = Some infos \<longrightarrow>
      get_relations (ud_routing_info (url_remove_connection api cds sid ud)) =
        Some (filter (\<lambda>v. ri_session_id v \<noteq> Some sid) infos))"
proof -
  have "(case ri_session_id v of None \<Rightarrow> True | Some i \<Rightarrow> \<not> sid_eq_slice api sid i) \<longleftrightarrow> ri_session_id v \<noteq> Some sid" for v
    by (simp add: eq split: option.split)
  then show ?thesis
    by (simp add: update_routing_info_if_needed_def update_routing_info_def cd_get_routing_info_def Let_def
      ROUTING_INFO_UPDATE_INTERVAL_SECONDS_def ROUTING_INFO_MAX_def url_remove_connection_def)
qed

text \<open>Three clients of one world, the first of which has reported.\<close>

definition example_store :: cd_store where
  "example_store =
     [0 \<mapsto> set_routing_info (client_data_new [1] 10 ''u'')
        (RoutingInfo 1 (Some [1]) None None (Some (Count 3)) [] False),
      1 \<mapsto> client_data_new [2] 11 ''u'',
      2 \<mapsto> client_data_new [3] 12 ''u'']"

theorem world_never_overfull_witness:
  "let ud' = run_registry (url_add_connection (Some 2)) (url_remove_connection example_sid_api example_store)
      [Admit 1, Admit 2, Evict [1], Admit 2] (url_data_new 0)
   in ud_clients ud' = [1, 2] \<and> card (url_sessions example_store ud') \<le> 2"
proof -
  have "ud_client_count (url_data_new 0) \<le> limit_or_max (Some 2)"
    by (simp add: url_data_new_def)
  note bound = world_never_overfull [OF url_ok_new this, of example_store example_sid_api "[Admit 1, Admit 2, Evict [1], Admit 2]"]
  have sids: "sid_of example_store 0 = [1]" "sid_of example_store 1 = [2]" "sid_of example_store (Suc 0) = [2]"
    "sid_of example_store 2 = [3]"
    by (simp_all add: example_store_def set_routing_info_def)
  have "ud_clients (run_registry (url_add_connection (Some 2)) (url_remove_connection example_sid_api example_store)
      [Admit 1, Admit 2, Evict [1], Admit 2] (url_data_new 0)) = [1, 2]"
    by (simp add: url_data_new_def url_sessions_def sids url_add_connection_def url_remove_connection_def)
      (auto simp: sids word_le_nat_alt)
  moreover have "allowed_ops (\<lambda>ud r. sid_of example_store r \<notin> url_sessions example_store ud) (url_sessions example_store)
      (url_add_connection (Some 2)) (url_remove_connection example_sid_api example_store)
      [Admit 1, Admit 2, Evict [1], Admit 2] (url_data_new 0)"
    by (simp add: url_data_new_def url_sessions_def sids url_add_connection_def url_remove_connection_def word_le_nat_alt)
  ultimately show ?thesis using bound by (simp add: Let_def)
qed

end
