(* ===== verification/Server_State.thy ===== *)
theory Server_State
  imports Url_Data Cluster_Manager
begin

text \<open>
  The shared state of the server, \<open>hubserv/src/state.rs\<close>: the connections by session, the worlds by
  URL, a counter of connections and the limits. Clients live in a store, because a client is reached
  from the connection map, from the list of its world and from the callbacks of its connection; a
  world is only reached through the map of worlds. Operations run one at a time here;
  Server_Threads has the atomic steps of several threads.
\<close>

section \<open>State\<close>

record server_state =
  cds :: cd_store
  next_ref :: cd_ref
  connection_map :: "session_id \<Rightarrow> cd_ref option"
  url_data_map :: "string \<Rightarrow> url_data option"
  client_count :: u64
  max_connections :: "usize option"
  max_connections_by_url :: "usize option"
  max_routing_results :: usize
  ice_servers :: "string list"
  ft_logger :: "string option"
  cluster_client :: "client option"
  cluster_manager :: "manager option"
  effects :: "effect list"

definition state_new ::
  "usize option \<Rightarrow> usize option \<Rightarrow> usize \<Rightarrow> string list \<Rightarrow> string option \<Rightarrow> client option \<Rightarrow> manager option \<Rightarrow>
     server_state" where
  "state_new mc mu mr ice access_log_path cc cm =
     \<lparr>cds = (\<lambda>_. None), next_ref = 0, connection_map = (\<lambda>_. None), url_data_map = (\<lambda>_. None),
      client_count = 0, max_connections = mc, max_connections_by_url = mu, max_routing_results = mr,
      ice_servers = ice, ft_logger = access_log_path, cluster_client = cc, cluster_manager = cm, effects = []\<rparr>"

text \<open>\<open>Arc::new\<close>: a new object in the store.\<close>

definition alloc_client :: "client_data \<Rightarrow> server_state \<Rightarrow> server_state \<times> cd_ref" where
  "alloc_client cd s =
     (s\<lparr>cds := (cds s)(next_ref s \<mapsto> cd), next_ref := next_ref s + 1\<rparr>, next_ref s)"

definition emit :: "effect list \<Rightarrow> server_state \<Rightarrow> server_state" where
  "emit es s = s\<lparr>effects := effects s @ es\<rparr>"

section \<open>Operations\<close>

definition get_connection :: "session_id \<Rightarrow> server_state \<Rightarrow> cd_ref option" where
  "get_connection sid s = connection_map s sid"

definition get_url_data :: "string \<Rightarrow> server_state \<Rightarrow> url_data option" where
  "get_url_data u s = url_data_map s u"

definition is_new_connection_available :: "string \<Rightarrow> server_state \<Rightarrow> bool" where
  "is_new_connection_available u s =
     (if limit_or_max (max_connections s) \<le> client_count s then False
      else case get_url_data u s of
             Some ud \<Rightarrow> \<not> limit_or_max (max_connections_by_url s) \<le> get_client_count ud
           | None \<Rightarrow> True)"

definition add_connection :: "cd_ref \<Rightarrow> server_state \<Rightarrow> server_state \<times> bool" where
  "add_connection r s =
     (let cd = the (cds s r) in
      if limit_or_max (max_connections s) \<le> client_count s then (s, False) else
      let s = s\<lparr>client_count := client_count s + 1\<rparr>;
          s = s\<lparr>connection_map := (connection_map s)(cd_session_id cd \<mapsto> r)\<rparr>;
          (s, added) =
            (case url_data_map s (cd_url cd) of
               Some ud \<Rightarrow>
                 let (ud, added) = url_add_connection (max_connections_by_url s) r ud
                 in (s\<lparr>url_data_map := (url_data_map s)(cd_url cd \<mapsto> ud)\<rparr>, added)
             | None \<Rightarrow> (s\<lparr>url_data_map := (url_data_map s)(cd_url cd \<mapsto> url_data_new r)\<rparr>, True))
      in if \<not> added
         then (s\<lparr>client_count := client_count s - 1,
                 connection_map := (connection_map s)(cd_session_id cd := None)\<rparr>, False)
         else (s, True))"

text \<open>The last step of a removal: \<open>remove_if\<close> the world is empty.\<close>

definition drop_world_if_empty :: "string \<Rightarrow> server_state \<Rightarrow> server_state" where
  "drop_world_if_empty u s =
     (case url_data_map s u of
        Some ud \<Rightarrow> if is_empty ud then s\<lparr>url_data_map := (url_data_map s)(u := None)\<rparr> else s
      | None \<Rightarrow> s)"

definition remove_connection :: "sid_api \<Rightarrow> session_id \<Rightarrow> server_state \<Rightarrow> server_state" where
  "remove_connection api sid s =
     (case connection_map s sid of
        None \<Rightarrow> s
      | Some r \<Rightarrow>
          let cd = the (cds s r);
              s = s\<lparr>connection_map := (connection_map s)(sid := None)\<rparr>;
              s = s\<lparr>client_count := client_count s - 1\<rparr>;
              s = emit (dispose cd) s;
              s = (case get_url_data (cd_url cd) s of
                     Some ud \<Rightarrow>
                       s\<lparr>url_data_map := (url_data_map s)(cd_url cd \<mapsto> url_remove_connection api (cds s) sid ud)\<rparr>
                   | None \<Rightarrow> s)
          in drop_world_if_empty (cd_url cd) s)"

definition state_send_rpc_response ::
  "codec \<Rightarrow> webrtc \<Rightarrow> session_id \<Rightarrow> u32 \<Rightarrow> bytes \<Rightarrow> server_state \<Rightarrow> server_state \<times> (rpc_error + bool)" where
  "state_send_rpc_response c rtc to_sid i par s =
     (case get_connection to_sid s of
        None \<Rightarrow> (s, Ok False)
      | Some r \<Rightarrow>
          let (es, res) = cd_send_rpc_response c rtc (the (cds s r)) i par
          in (emit es s, res))"

text \<open>\<open>HeaderValue::to_str\<close>: visible ASCII, blank and tab only.\<close>

definition header_to_str :: "string \<Rightarrow> string option" where
  "header_to_str v =
     (if list_all (\<lambda>c. let n = of_char c :: nat in n = 9 \<or> (32 \<le> n \<and> n < 127)) v then Some v else None)"

definition append_access_log :: "usize \<Rightarrow> string \<Rightarrow> (string \<Rightarrow> string option) \<Rightarrow> server_state \<Rightarrow> server_state" where
  "append_access_log cc u headers s =
     (case ft_logger s of
        None \<Rightarrow> s
      | Some _ \<Rightarrow>
          let cf_ip_country =
                (case headers ''cf-ipcountry'' of
                   Some v \<Rightarrow> (case header_to_str v of Some c \<Rightarrow> c | None \<Rightarrow> [])
                 | None \<Rightarrow> [])
          in emit [AccessLog (''access '' @ cf_ip_country @ '' '' @ show_nat (unat cc) @ '' '' @ u)] s)"

section \<open>The abstract view\<close>

text \<open>Which session is in which world: all that the limits depend on.\<close>

type_synonym sessions = "session_id \<Rightarrow> string option"

definition sessions_of :: "server_state \<Rightarrow> sessions" where
  "sessions_of s = (\<lambda>sid. map_option (\<lambda>r. cd_url (the (cds s r))) (connection_map s sid))"

definition population :: "sessions \<Rightarrow> string \<Rightarrow> nat" where
  "population m u = card {sid. m sid = Some u}"

text \<open>The limit of a world does not stop its first client.\<close>

definition may_enter :: "usize option \<Rightarrow> usize option \<Rightarrow> sessions \<Rightarrow> string \<Rightarrow> bool" where
  "may_enter mc mu m u \<longleftrightarrow> card (dom m) < unat (limit_or_max mc) \<and>
     (population m u = 0 \<or> population m u < unat (limit_or_max mu))"

definition count_ok :: "server_state \<Rightarrow> bool" where
  "count_ok s \<longleftrightarrow> finite (dom (connection_map s)) \<and> unat (client_count s) = card (dom (connection_map s))"

text \<open>Every session leads to a client of that session, and nothing outside the store is in use.\<close>

definition refs_ok :: "server_state \<Rightarrow> bool" where
  "refs_ok s \<longleftrightarrow>
     (\<forall>sid r. connection_map s sid = Some r \<longrightarrow> (\<exists>cd. cds s r = Some cd \<and> cd_session_id cd = sid)) \<and>
     (\<forall>r cd. cds s r = Some cd \<longrightarrow> r < next_ref s)"

text \<open>A world is never empty, and its list holds exactly the registered clients of its URL.\<close>

definition worlds_ok :: "server_state \<Rightarrow> bool" where
  "worlds_ok s \<longleftrightarrow> (\<forall>u ud. url_data_map s u = Some ud \<longrightarrow> url_ok (cds s) ud \<and> ud_clients ud \<noteq> [])"

definition listed_ok :: "server_state \<Rightarrow> bool" where
  "listed_ok s \<longleftrightarrow>
     (\<forall>u r. (\<exists>sid. connection_map s sid = Some r) \<and> cd_url (the (cds s r)) = u \<longleftrightarrow>
        (\<exists>ud. url_data_map s u = Some ud \<and> r \<in> set (ud_clients ud)))"

definition state_ok :: "server_state \<Rightarrow> bool" where
  "state_ok s \<longleftrightarrow> count_ok s \<and> refs_ok s \<and> worlds_ok s \<and> listed_ok s"

lemma state_okD:
  assumes "state_ok s"
  shows "finite (dom (connection_map s))"
    and "unat (client_count s) = card (dom (connection_map s))"
    and "connection_map s sid = Some r \<Longrightarrow> \<exists>cd. cds s r = Some cd \<and> cd_session_id cd = sid"
    and "url_data_map s u = Some ud \<Longrightarrow> url_ok (cds s) ud"
    and "url_data_map s u = Some ud \<Longrightarrow> ud_clients ud \<noteq> []"
    and "(\<exists>sid. connection_map s sid = Some r) \<and> cd_url (the (cds s r)) = u \<longleftrightarrow>
        (\<exists>ud. url_data_map s u = Some ud \<and> r \<in> set (ud_clients ud))"
    and "cds s r = Some cd \<Longrightarrow> r < next_ref s"
  using assms by (simp_all add: state_ok_def count_ok_def refs_ok_def worlds_ok_def listed_ok_def)

lemma state_ok_new [simp]: "state_ok (state_new mc mu mr ice l cc cm)"
  by (simp add: state_ok_def count_ok_def refs_ok_def worlds_ok_def listed_ok_def state_new_def)

lemma sessions_of_new [simp]: "sessions_of (state_new mc mu mr ice l cc cm) = (\<lambda>_. None)"
  by (simp add: sessions_of_def state_new_def)

lemma dom_sessions_of [simp]: "dom (sessions_of s) = dom (connection_map s)"
  by (auto simp: sessions_of_def dom_def)

lemma session_owner: "state_ok s \<Longrightarrow> connection_map s sid = Some r \<Longrightarrow> sid_of (cds s) r = sid"
  using state_okD(3) [of s sid r] by auto

text \<open>A registered client is in the list of its world.\<close>

lemma registered_in_world:
  assumes "state_ok s" "connection_map s sid = Some r"
  obtains ud where "url_data_map s (cd_url (the (cds s r))) = Some ud" "r \<in> set (ud_clients ud)"
    "sid_of (cds s) r = sid" "sid \<in> url_sessions (cds s) ud"
proof -
  from state_okD(6) [OF assms(1), of r "cd_url (the (cds s r))"] assms(2)
  obtain ud where ud: "url_data_map s (cd_url (the (cds s r))) = Some ud" "r \<in> set (ud_clients ud)" by blast
  moreover have "sid_of (cds s) r = sid" using state_okD(3) [OF assms] by force
  ultimately show thesis using that by (auto simp: url_sessions_def)
qed

lemma world_sessions:
  assumes ok: "state_ok s" and ud: "url_data_map s u = Some ud"
  shows "url_sessions (cds s) ud = {sid. sessions_of s sid = Some u}"
proof -
  have "sid \<in> url_sessions (cds s) ud \<longleftrightarrow> (\<exists>r. connection_map s sid = Some r \<and> cd_url (the (cds s r)) = u)" for sid
  proof
    assume "sid \<in> url_sessions (cds s) ud"
    then obtain r where r: "r \<in> set (ud_clients ud)" "sid = sid_of (cds s) r" by (auto simp: url_sessions_def)
    with ud state_okD(6) [OF ok, of r u] obtain sid' where "connection_map s sid' = Some r" "cd_url (the (cds s r)) = u"
      by blast
    moreover from this state_okD(3) [OF ok] r(2) have "sid' = sid" by force
    ultimately show "\<exists>r. connection_map s sid = Some r \<and> cd_url (the (cds s r)) = u" by blast
  next
    assume "\<exists>r. connection_map s sid = Some r \<and> cd_url (the (cds s r)) = u"
    then obtain r where r: "connection_map s sid = Some r" "cd_url (the (cds s r)) = u" by blast
    from registered_in_world [OF ok r(1)] r(2) ud show "sid \<in> url_sessions (cds s) ud" by auto
  qed
  then show ?thesis by (auto simp: sessions_of_def)
qed

lemma population_world:
  assumes "state_ok s"
  shows "population (sessions_of s) u =
    (case url_data_map s u of None \<Rightarrow> 0 | Some ud \<Rightarrow> unat (ud_client_count ud))"
proof (cases "url_data_map s u")
  case None
  with assms have "sessions_of s sid \<noteq> Some u" for sid
    using registered_in_world [OF assms, of sid] by (force simp: sessions_of_def)
  with None show ?thesis by (simp add: population_def)
next
  case (Some ud)
  have "unat (ud_client_count ud) = card (url_sessions (cds s) ud)"
    using worlds.count_members state_okD(4) [OF assms Some] by blast
  with Some show ?thesis by (simp add: population_def world_sessions [OF assms Some])
qed

lemma world_populated:
  assumes "state_ok s" "url_data_map s u = Some ud"
  shows "0 < unat (ud_client_count ud)"
  using state_okD(4,5) [OF assms] by (simp add: url_ok_def)

section \<open>Changes of the store\<close>

text \<open>The state stays consistent when the store changes but keeps who and where each registered client is.\<close>

definition keeps_clients :: "server_state \<Rightarrow> cd_store \<Rightarrow> bool" where
  "keeps_clients s cds' \<longleftrightarrow> (\<forall>sid r. connection_map s sid = Some r \<longrightarrow>
     (\<exists>cd. cds' r = Some cd \<and> cd_session_id cd = sid \<and> cd_url cd = cd_url (the (cds s r))))"

lemma keeps_clientsD:
  "keeps_clients s cds' \<Longrightarrow> connection_map s sid = Some r \<Longrightarrow>
     \<exists>cd. cds' r = Some cd \<and> cd_session_id cd = sid \<and> cd_url cd = cd_url (the (cds s r))"
  by (simp add: keeps_clients_def)

lemma state_ok_store:
  assumes ok: "state_ok s" and keeps: "keeps_clients s cds'" and alloc: "\<And>r cd. cds' r = Some cd \<Longrightarrow> r < n"
  shows "state_ok (s\<lparr>cds := cds', next_ref := n\<rparr>)"
    and "sessions_of (s\<lparr>cds := cds', next_ref := n\<rparr>) = sessions_of s"
proof -
  let ?s = "s\<lparr>cds := cds', next_ref := n\<rparr>"
  have url: "cd_url (the (cds' r)) = cd_url (the (cds s r))" and sid: "sid_of cds' r = sid_of (cds s) r"
    if "connection_map s sid = Some r" for sid r
    using keeps_clientsD [OF keeps that] session_owner [OF ok that] by auto
  have "url_ok cds' ud" if "url_data_map s u = Some ud" for u ud
  proof -
    have "map (sid_of cds') (ud_clients ud) = map (sid_of (cds s)) (ud_clients ud)"
      using that state_okD(6) [OF ok, of _ u] sid by (intro map_cong) blast+
    with state_okD(4) [OF ok that] show ?thesis by (simp only: url_ok_def)
  qed
  moreover have "(\<exists>sid. connection_map s sid = Some r) \<and> cd_url (the (cds' r)) = u \<longleftrightarrow>
        (\<exists>ud. url_data_map s u = Some ud \<and> r \<in> set (ud_clients ud))" for u r
    using state_okD(6) [OF ok, of r u] url by metis
  moreover have "\<exists>cd. cds' r = Some cd \<and> cd_session_id cd = sid" if "connection_map s sid = Some r" for sid r
    using keeps_clientsD [OF keeps that] by blast
  ultimately show "state_ok ?s"
    using state_okD(1,2,5) [OF ok] alloc
    by (simp add: state_ok_def count_ok_def refs_ok_def worlds_ok_def listed_ok_def)
  show "sessions_of ?s = sessions_of s"
    using url by (auto simp: sessions_of_def fun_eq_iff map_option_case split: option.split)
qed

lemma alloc_client_sel [simp]:
  "snd (alloc_client cd s) = next_ref s"
  "cds (fst (alloc_client cd s)) = (cds s)(next_ref s \<mapsto> cd)"
  "next_ref (fst (alloc_client cd s)) = next_ref s + 1"
  "connection_map (fst (alloc_client cd s)) = connection_map s"
  "url_data_map (fst (alloc_client cd s)) = url_data_map s"
  "client_count (fst (alloc_client cd s)) = client_count s"
  "max_connections (fst (alloc_client cd s)) = max_connections s"
  "max_connections_by_url (fst (alloc_client cd s)) = max_connections_by_url s"
  "effects (fst (alloc_client cd s)) = effects s"
  "cluster_client (fst (alloc_client cd s)) = cluster_client s"
  by (simp_all add: alloc_client_def)

lemma alloc_client_ok:
  assumes ok: "state_ok s"
  shows "state_ok (fst (alloc_client cd s))" and "sessions_of (fst (alloc_client cd s)) = sessions_of s"
proof -
  have "keeps_clients s ((cds s)(next_ref s \<mapsto> cd))"
    unfolding keeps_clients_def
  proof (intro allI impI)
    fix sid r
    assume r: "connection_map s sid = Some r"
    from state_okD(3) [OF ok r] state_okD(7) [OF ok]
    show "\<exists>cd'. ((cds s)(next_ref s \<mapsto> cd)) r = Some cd' \<and> cd_session_id cd' = sid \<and> cd_url cd' = cd_url (the (cds s r))"
      by (auto dest: order.strict_implies_not_eq)
  qed
  moreover have "\<And>r cd'. ((cds s)(next_ref s \<mapsto> cd)) r = Some cd' \<Longrightarrow> r < next_ref s + 1"
    using state_okD(7) [OF ok] by (auto simp: less_Suc_eq split: if_splits)
  ultimately show "state_ok (fst (alloc_client cd s))" "sessions_of (fst (alloc_client cd s)) = sessions_of s"
    using state_ok_store [OF ok, of "(cds s)(next_ref s \<mapsto> cd)" "next_ref s + 1"] by (simp_all add: alloc_client_def)
qed

section \<open>Adding a connection\<close>

text \<open>An address that holds a client whose session is not registered.\<close>

definition client_ready :: "server_state \<Rightarrow> cd_ref \<Rightarrow> bool" where
  "client_ready s r \<longleftrightarrow> (\<exists>cd. cds s r = Some cd \<and> connection_map s (cd_session_id cd) = None)"

lemma alloc_client_ready:
  "connection_map s (cd_session_id cd) = None \<Longrightarrow> client_ready (fst (alloc_client cd s)) (next_ref s)"
  by (simp add: client_ready_def)

text \<open>What an accepted connection does to the state.\<close>

definition registered :: "cd_ref \<Rightarrow> server_state \<Rightarrow> server_state" where
  "registered r s =
     (let cd = the (cds s r) in
      s\<lparr>client_count := client_count s + 1,
        connection_map := (connection_map s)(cd_session_id cd \<mapsto> r),
        url_data_map := (url_data_map s)(cd_url cd \<mapsto>
          (case url_data_map s (cd_url cd) of
             None \<Rightarrow> url_data_new r
           | Some ud \<Rightarrow> ud\<lparr>ud_client_count := ud_client_count ud + 1, ud_clients := ud_clients ud @ [r]\<rparr>))\<rparr>)"

lemma registered_sel [simp]:
  "cds (registered r s) = cds s" "next_ref (registered r s) = next_ref s"
  "max_connections (registered r s) = max_connections s"
  "max_connections_by_url (registered r s) = max_connections_by_url s"
  "max_routing_results (registered r s) = max_routing_results s"
  "ft_logger (registered r s) = ft_logger s" "cluster_client (registered r s) = cluster_client s"
  "effects (registered r s) = effects s"
  "client_count (registered r s) = client_count s + 1"
  "connection_map (registered r s) = (connection_map s)(sid_of (cds s) r \<mapsto> r)"
  by (simp_all add: registered_def Let_def)

lemma may_enter_state:
  assumes "state_ok s"
  shows "may_enter (max_connections s) (max_connections_by_url s) (sessions_of s) u \<longleftrightarrow>
    \<not> limit_or_max (max_connections s) \<le> client_count s \<and>
    (case url_data_map s u of None \<Rightarrow> True
     | Some ud \<Rightarrow> \<not> limit_or_max (max_connections_by_url s) \<le> ud_client_count ud)"
  using state_okD(2) [OF assms] population_world [OF assms, of u] world_populated [OF assms, of u]
  by (auto simp: may_enter_def word_le_nat_alt split: option.splits)

lemma add_connection_cases:
  assumes ok: "state_ok s" and ready: "client_ready s r"
  shows "add_connection r s =
    (if may_enter (max_connections s) (max_connections_by_url s) (sessions_of s) (cd_url (the (cds s r)))
     then (registered r s, True) else (s, False))"
proof -
  from ready have new: "connection_map s (sid_of (cds s) r) = None" by (auto simp: client_ready_def)
  let ?u = "cd_url (the (cds s r))"
  show ?thesis
  proof (cases "limit_or_max (max_connections s) \<le> client_count s")
    case True
    then show ?thesis by (simp add: add_connection_def Let_def may_enter_state [OF ok])
  next
    case False
    show ?thesis
    proof (cases "url_data_map s ?u")
      case None
      with False show ?thesis
        by (simp add: add_connection_def Let_def may_enter_state [OF ok] registered_def)
    next
      case (Some ud)
      have same: "(connection_map s)(sid_of (cds s) r := None) = connection_map s"
        "(url_data_map s)(?u \<mapsto> ud) = url_data_map s"
        using new Some by (simp_all add: fun_upd_idem)
      with False Some show ?thesis
        by (simp add: add_connection_def Let_def may_enter_state [OF ok] registered_def url_add_connection_def)
    qed
  qed
qed

lemma ready_not_listed:
  assumes ok: "state_ok s" and ready: "client_ready s r"
  shows "connection_map s sid \<noteq> Some r"
    and "url_data_map s u = Some ud \<Longrightarrow> r \<notin> set (ud_clients ud)"
    and "url_data_map s u = Some ud \<Longrightarrow> sid_of (cds s) r \<notin> url_sessions (cds s) ud"
proof -
  from ready have new: "connection_map s (sid_of (cds s) r) = None" by (auto simp: client_ready_def)
  show unreg: "connection_map s sid \<noteq> Some r" for sid
  proof
    assume "connection_map s sid = Some r"
    with state_okD(3) [OF ok this] new show False by auto
  qed
  show "url_data_map s u = Some ud \<Longrightarrow> r \<notin> set (ud_clients ud)"
    using state_okD(6) [OF ok, of r u] unreg by blast
  show "url_data_map s u = Some ud \<Longrightarrow> sid_of (cds s) r \<notin> url_sessions (cds s) ud"
    using new by (auto simp: world_sessions [OF ok] sessions_of_def)
qed

lemma registered_ok:
  assumes ok: "state_ok s" and ready: "client_ready s r"
    and enter: "may_enter (max_connections s) (max_connections_by_url s) (sessions_of s) (cd_url (the (cds s r)))"
  shows "state_ok (registered r s)"
proof -
  let ?s = "registered r s" and ?u = "cd_url (the (cds s r))"
  from ready obtain cd where cd: "cds s r = Some cd" and new: "connection_map s (cd_session_id cd) = None"
    by (auto simp: client_ready_def)
  note limits = enter [unfolded may_enter_state [OF ok]]
  have "count_ok ?s"
    using limits [THEN conjunct1, THEN below_limit_no_wrap] state_okD(1,2) [OF ok] new cd
    by (simp add: count_ok_def card_insert_if domIff)
  moreover have "refs_ok ?s"
    using state_okD(3,7) [OF ok] cd by (auto simp: refs_ok_def)
  moreover have "worlds_ok ?s"
    unfolding worlds_ok_def
  proof (intro allI impI)
    fix u ud
    assume ud: "url_data_map ?s u = Some ud"
    show "url_ok (cds ?s) ud \<and> ud_clients ud \<noteq> []"
    proof (cases "u = ?u")
      case False
      with ud have "url_data_map s u = Some ud" by (simp add: registered_def Let_def)
      with state_okD(4,5) [OF ok] show ?thesis by simp
    next
      case u: True
      show ?thesis
      proof (cases "url_data_map s ?u")
        case None
        with ud u have "ud = url_data_new r" by (simp add: registered_def Let_def)
        then show ?thesis by (simp add: url_data_new_def url_ok_def)
      next
        case (Some ud0)
        with limits have "url_add_connection (max_connections_by_url s) r ud0 =
            (ud0\<lparr>ud_client_count := ud_client_count ud0 + 1, ud_clients := ud_clients ud0 @ [r]\<rparr>, True)"
          by (simp add: url_add_connection_def)
        moreover from ud u Some have "ud = ud0\<lparr>ud_client_count := ud_client_count ud0 + 1, ud_clients := ud_clients ud0 @ [r]\<rparr>"
          by (simp add: registered_def Let_def)
        ultimately show ?thesis
          using url_add_accepted [OF state_okD(4) [OF ok Some] ready_not_listed(3) [OF ok ready Some]] by simp
      qed
    qed
  qed
  moreover have "listed_ok ?s"
    unfolding listed_ok_def
  proof (intro allI)
    fix u r'
    have old: "(\<exists>sid. connection_map s sid = Some r') \<and> cd_url (the (cds s r')) = u \<longleftrightarrow>
        (\<exists>ud. url_data_map s u = Some ud \<and> r' \<in> set (ud_clients ud))"
      by (rule state_okD(6) [OF ok])
    have "(\<exists>sid. connection_map ?s sid = Some r') \<longleftrightarrow> r' = r \<or> (\<exists>sid. connection_map s sid = Some r')"
      using new cd by (simp only: registered_sel option.sel ex_map_upd)
    moreover have "(\<exists>ud. url_data_map ?s u = Some ud \<and> r' \<in> set (ud_clients ud)) \<longleftrightarrow>
        (r' = r \<and> u = ?u) \<or> (\<exists>ud. url_data_map s u = Some ud \<and> r' \<in> set (ud_clients ud))"
      by (auto simp: registered_def Let_def url_data_new_def split: option.splits)
    ultimately show "(\<exists>sid. connection_map ?s sid = Some r') \<and> cd_url (the (cds ?s r')) = u \<longleftrightarrow>
        (\<exists>ud. url_data_map ?s u = Some ud \<and> r' \<in> set (ud_clients ud))"
      using old by auto
  qed
  ultimately show ?thesis by (simp add: state_ok_def)
qed

lemma sessions_of_registered:
  "client_ready s r \<Longrightarrow> sessions_of (registered r s) = (sessions_of s)(sid_of (cds s) r \<mapsto> cd_url (the (cds s r)))"
  by (auto simp: sessions_of_def client_ready_def)

section \<open>Removing a connection\<close>

text \<open>What the removal of a registered session leaves, up to the emitted effects.\<close>

definition unregistered :: "sid_api \<Rightarrow> session_id \<Rightarrow> server_state \<Rightarrow> server_state" where
  "unregistered api sid s =
     (let r = the (connection_map s sid); u = cd_url (the (cds s r));
          ud = url_remove_connection api (cds s) sid (the (url_data_map s u)) in
      s\<lparr>connection_map := (connection_map s)(sid := None), client_count := client_count s - 1,
        effects := effects s @ dispose (the (cds s r)),
        url_data_map := (url_data_map s)(u := (if is_empty ud then None else Some ud))\<rparr>)"

lemma remove_connection_cases:
  assumes ok: "state_ok s"
  shows "remove_connection api sid s = (if connection_map s sid = None then s else unregistered api sid s)"
proof (cases "connection_map s sid")
  case None
  then show ?thesis by (simp add: remove_connection_def)
next
  case (Some r)
  from registered_in_world [OF ok Some] obtain ud where
    "url_data_map s (cd_url (the (cds s r))) = Some ud" by blast
  with Some show ?thesis
    by (simp add: remove_connection_def unregistered_def Let_def emit_def get_url_data_def drop_world_if_empty_def)
qed

lemma unregistered_sel [simp]:
  "cds (unregistered api sid s) = cds s" "next_ref (unregistered api sid s) = next_ref s"
  "max_connections (unregistered api sid s) = max_connections s"
  "max_connections_by_url (unregistered api sid s) = max_connections_by_url s"
  "max_routing_results (unregistered api sid s) = max_routing_results s"
  "ft_logger (unregistered api sid s) = ft_logger s"
  "cluster_client (unregistered api sid s) = cluster_client s"
  "client_count (unregistered api sid s) = client_count s - 1"
  "connection_map (unregistered api sid s) = (connection_map s)(sid := None)"
  by (simp_all add: unregistered_def Let_def)

lemma unregistered_ok:
  assumes ok: "state_ok s" and r: "connection_map s sid = Some r"
  shows "state_ok (unregistered api sid s)"
proof -
  let ?s = "unregistered api sid s" and ?u = "cd_url (the (cds s r))"
  from registered_in_world [OF ok r] obtain ud where ud: "url_data_map s ?u = Some ud"
    and in_world: "sid \<in> url_sessions (cds s) ud" and sid: "sid_of (cds s) r = sid" by blast
  define ud' where "ud' = url_remove_connection api (cds s) sid ud"
  note rem = url_remove_ok [OF state_okD(4) [OF ok ud] in_world, of api, folded ud'_def]
  have clients: "ud_clients ud' = filter (\<lambda>v. sid_of (cds s) v \<noteq> sid) (ud_clients ud)"
    by (simp add: ud'_def url_remove_connection_def)
  have map': "url_data_map ?s = (url_data_map s)(?u := (if is_empty ud' then None else Some ud'))"
    by (simp add: unregistered_def Let_def r ud ud'_def)
  have empty: "is_empty ud' \<longleftrightarrow> ud_clients ud' = []"
    using rem by (auto simp: is_empty_def get_client_count_def url_ok_def unat_eq_0 [symmetric])
  have "unat (client_count s - 1) = unat (client_count s) - 1"
    using card_pos_dom [OF state_okD(1) [OF ok] r] state_okD(2) [OF ok] by (intro unat_pred) simp
  then have "count_ok ?s"
    using state_okD(1,2) [OF ok] r by (simp add: count_ok_def card_Diff_singleton domI)
  moreover have "refs_ok ?s"
    using state_okD(3,7) [OF ok] by (auto simp: refs_ok_def)
  moreover have "worlds_ok ?s"
    using state_okD(4,5) [OF ok] rem empty by (auto simp: worlds_ok_def map')
  moreover have "listed_ok ?s"
    unfolding listed_ok_def
  proof (intro allI)
    fix u r'
    have old: "(\<exists>sid. connection_map s sid = Some r') \<and> cd_url (the (cds s r')) = u \<longleftrightarrow>
        (\<exists>ud. url_data_map s u = Some ud \<and> r' \<in> set (ud_clients ud))"
      by (rule state_okD(6) [OF ok])
    have reg: "(\<exists>sid. connection_map ?s sid = Some r') \<longleftrightarrow>
        (\<exists>sid. connection_map s sid = Some r') \<and> sid_of (cds s) r' \<noteq> sid"
      using session_owner [OF ok] unfolding unregistered_sel ex_map_del by blast
    have "(\<exists>ud. url_data_map ?s u = Some ud \<and> r' \<in> set (ud_clients ud)) \<longleftrightarrow>
        (\<exists>ud. url_data_map s u = Some ud \<and> r' \<in> set (ud_clients ud)) \<and> (u = ?u \<longrightarrow> sid_of (cds s) r' \<noteq> sid)"
      using ud empty by (auto simp: map' clients filter_empty_conv)
    moreover have "u = ?u" if "sid_of (cds s) r' = sid" "\<exists>ud. url_data_map s u = Some ud \<and> r' \<in> set (ud_clients ud)"
      using that old session_owner [OF ok] r by auto
    ultimately show "(\<exists>sid. connection_map ?s sid = Some r') \<and> cd_url (the (cds ?s r')) = u \<longleftrightarrow>
        (\<exists>ud. url_data_map ?s u = Some ud \<and> r' \<in> set (ud_clients ud))"
      using old reg by auto
  qed
  ultimately show ?thesis by (simp add: state_ok_def)
qed

lemma remove_connection_ok: "state_ok s \<Longrightarrow> state_ok (remove_connection api sid s)"
  using unregistered_ok by (auto simp: remove_connection_cases)

lemma sessions_of_removed:
  "state_ok s \<Longrightarrow> sessions_of (remove_connection api sid s) = (sessions_of s)(sid := None)"
  by (auto simp: remove_connection_cases sessions_of_def)

lemma remove_connection_sel [simp]:
  assumes "state_ok s"
  shows "cds (remove_connection api sid s) = cds s"
    "next_ref (remove_connection api sid s) = next_ref s"
    "max_connections (remove_connection api sid s) = max_connections s"
    "max_connections_by_url (remove_connection api sid s) = max_connections_by_url s"
    "max_routing_results (remove_connection api sid s) = max_routing_results s"
    "ft_logger (remove_connection api sid s) = ft_logger s"
    "cluster_client (remove_connection api sid s) = cluster_client s"
    "connection_map (remove_connection api sid s) = (connection_map s)(sid := None)"
  using assms by (auto simp: remove_connection_cases)

lemma remove_effects:
  "state_ok s \<Longrightarrow> effects (remove_connection api sid s) = effects s @
     (case connection_map s sid of None \<Rightarrow> [] | Some r \<Rightarrow> dispose (the (cds s r)))"
  by (auto simp: remove_connection_cases unregistered_def Let_def)

section \<open>The registry contract\<close>

interpretation connections: bounded_registry state_ok "\<lambda>s. dom (connection_map s)" client_count
  "\<lambda>s. limit_or_max (max_connections s)" client_ready "\<lambda>s. sid_of (cds s)" add_connection "remove_connection api"
  for api :: sid_api
proof
  fix s s' :: server_state and r
  assume ok: "state_ok s" and ready: "client_ready s r"
  show "sid_of (cds s) r \<notin> dom (connection_map s)" using ready by (auto simp: client_ready_def)
  show "add_connection r s = (s', False) \<Longrightarrow> s' = s"
    by (auto simp: add_connection_cases [OF ok ready] split: if_splits)
  show "add_connection r s = (s', True) \<Longrightarrow>
      state_ok s' \<and> dom (connection_map s') = insert (sid_of (cds s) r) (dom (connection_map s)) \<and>
      limit_or_max (max_connections s') = limit_or_max (max_connections s) \<and>
      client_count s < limit_or_max (max_connections s)"
    using registered_ok [OF ok ready]
    by (auto simp: add_connection_cases [OF ok ready] may_enter_state [OF ok] not_le split: if_splits)
next
  fix s :: server_state and sid
  assume ok: "state_ok s"
  then show "finite (dom (connection_map s))" "unat (client_count s) = card (dom (connection_map s))"
    by (rule state_okD)+
  show "state_ok (remove_connection api sid s) \<and>
      dom (connection_map (remove_connection api sid s)) = dom (connection_map s) - {sid} \<and>
      limit_or_max (max_connections (remove_connection api sid s)) = limit_or_max (max_connections s)"
    using ok remove_connection_ok [OF ok] by simp
qed

section \<open>Properties\<close>

text \<open>The specification of an entry.\<close>

definition spec_add :: "usize option \<Rightarrow> usize option \<Rightarrow> session_id \<Rightarrow> string \<Rightarrow> sessions \<Rightarrow> sessions" where
  "spec_add mc mu sid u m = (if may_enter mc mu m u then m(sid \<mapsto> u) else m)"

lemma add_connection_spec:
  assumes "state_ok s" "client_ready s r"
  shows "state_ok (fst (add_connection r s)) \<and>
    sessions_of (fst (add_connection r s)) =
      spec_add (max_connections s) (max_connections_by_url s) (sid_of (cds s) r) (cd_url (the (cds s r))) (sessions_of s) \<and>
    (snd (add_connection r s) \<longleftrightarrow>
      may_enter (max_connections s) (max_connections_by_url s) (sessions_of s) (cd_url (the (cds s r)))) \<and>
    (\<not> snd (add_connection r s) \<longrightarrow> fst (add_connection r s) = s)"
  using assms registered_ok [OF assms] by (simp add: add_connection_cases spec_add_def sessions_of_registered)

text \<open>
  Property C5. Adding a connection implements its specification: a client whose session is not
  registered is accepted exactly when the server has room and its world is empty or has room; then the
  session is in its world, and otherwise nothing is left behind of the attempt. The state stays
  consistent either way.
\<close>

theorem add_connection_refines:
  assumes "state_ok s" "client_ready s r"
  shows "state_ok (fst (add_connection r s)) \<and>
    sessions_of (fst (add_connection r s)) =
      spec_add (max_connections s) (max_connections_by_url s) (sid_of (cds s) r) (cd_url (the (cds s r))) (sessions_of s) \<and>
    (snd (add_connection r s) \<longleftrightarrow>
      may_enter (max_connections s) (max_connections_by_url s) (sessions_of s) (cd_url (the (cds s r)))) \<and>
    (\<not> snd (add_connection r s) \<longrightarrow> fst (add_connection r s) = s)"
  by (rule add_connection_spec [OF assms])

text \<open>
  Property C6. Removing a session takes exactly that session out of its world and out of the count,
  closes its client once, and drops the world when it was its last client; an unknown session changes
  nothing.
\<close>

theorem remove_connection_refines:
  assumes ok: "state_ok s"
  shows "state_ok (remove_connection api sid s) \<and>
    sessions_of (remove_connection api sid s) = (sessions_of s)(sid := None) \<and>
    effects (remove_connection api sid s) = effects s @
      (case connection_map s sid of None \<Rightarrow> [] | Some r \<Rightarrow> dispose (the (cds s r))) \<and>
    (sessions_of s sid = None \<longrightarrow> remove_connection api sid s = s) \<and>
    (\<forall>u. url_data_map (remove_connection api sid s) u = None \<longleftrightarrow>
       population (sessions_of (remove_connection api sid s)) u = 0)"
proof -
  note ok' = remove_connection_ok [OF ok, of api sid]
  have "url_data_map (remove_connection api sid s) u = None \<longleftrightarrow>
      population (sessions_of (remove_connection api sid s)) u = 0" for u
    using world_populated [OF ok', of u]
    by (simp add: population_world [OF ok'] split: option.split)
  moreover have "effects (remove_connection api sid s) = effects s @
      (case connection_map s sid of None \<Rightarrow> [] | Some r \<Rightarrow> dispose (the (cds s r)))"
    by (rule remove_effects [OF ok])
  moreover have "sessions_of s sid = None \<Longrightarrow> remove_connection api sid s = s"
    by (simp add: remove_connection_cases [OF ok] sessions_of_def)
  ultimately show ?thesis using ok' sessions_of_removed [OF ok] by blast
qed

text \<open>
  Property C30. The check before the work agrees with the decision after it: a client is told that a
  connection is available exactly when adding it to this state succeeds.
\<close>

theorem availability_is_admission:
  assumes "state_ok s" "client_ready s r"
  shows "is_new_connection_available (cd_url (the (cds s r))) s = snd (add_connection r s)"
  using add_connection_spec [OF assms] assms(1)
  by (simp add: may_enter_state is_new_connection_available_def get_url_data_def get_client_count_def split: option.split)

text \<open>Worlds stay within their limit too, up to the first client, which is always let in.\<close>

definition within_limits :: "server_state \<Rightarrow> bool" where
  "within_limits s \<longleftrightarrow> client_count s \<le> limit_or_max (max_connections s) \<and>
     (\<forall>u. population (sessions_of s) u \<le> max 1 (unat (limit_or_max (max_connections_by_url s))))"

lemma population_upd:
  "finite (dom m) \<Longrightarrow> population (m(sid \<mapsto> u)) v \<le> population m v + (if v = u then 1 else 0)"
proof -
  assume fin: "finite (dom m)"
  then have fin': "finite {s. m s = Some w}" for w
    by (rule rev_finite_subset) auto
  have "{s. (m(sid \<mapsto> u)) s = Some v} \<subseteq> (if v = u then insert sid {s. m s = Some v} else {s. m s = Some v})"
    by auto
  then have "card {s. (m(sid \<mapsto> u)) s = Some v} \<le>
      card (if v = u then insert sid {s. m s = Some v} else {s. m s = Some v})"
    using fin' by (intro card_mono) auto
  also have "\<dots> \<le> card {s. m s = Some v} + (if v = u then 1 else 0)"
    using fin' [of u] by (simp add: card_insert_if)
  finally show ?thesis by (simp add: population_def)
qed

lemma population_del: "finite (dom m) \<Longrightarrow> population (m(sid := None)) v \<le> population m v"
  unfolding population_def
  by (rule card_mono) (auto intro: rev_finite_subset)

lemma add_within_limits:
  assumes ok: "state_ok s" "client_ready s r" and lim: "within_limits s"
  shows "within_limits (fst (add_connection r s))"
proof (cases "snd (add_connection r s)")
  case False
  with add_connection_spec [OF ok] lim show ?thesis by simp
next
  case True
  let ?u = "cd_url (the (cds s r))"
  have enter: "may_enter (max_connections s) (max_connections_by_url s) (sessions_of s) ?u"
    using add_connection_spec [OF ok] True by blast
  then have s': "fst (add_connection r s) = registered r s" by (simp add: add_connection_cases [OF ok])
  have "population (sessions_of (registered r s)) v \<le> max 1 (unat (limit_or_max (max_connections_by_url s)))" for v
    using population_upd [of "sessions_of s" "sid_of (cds s) r" ?u v] state_okD(1) [OF ok(1)] enter lim
    by (auto simp: sessions_of_registered [OF ok(2)] may_enter_def within_limits_def le_max_iff_disj
        dest!: spec [of _ v] split: if_splits)
  moreover have "client_count s + 1 \<le> limit_or_max (max_connections s)"
    using enter by (intro below_limit_le) (simp add: may_enter_state [OF ok(1)])
  ultimately show ?thesis by (simp add: s' within_limits_def)
qed

lemma remove_within_limits:
  assumes ok: "state_ok s" and lim: "within_limits s"
  shows "within_limits (remove_connection api sid s)"
proof -
  have "population (sessions_of (remove_connection api sid s)) v \<le> population (sessions_of s) v" for v
    using state_okD(1) [OF ok] by (simp add: sessions_of_removed [OF ok] population_del)
  moreover have "client_count (remove_connection api sid s) \<le> limit_or_max (max_connections s)"
    using connections.evict_bounded [OF ok, of sid] lim
    by (cases "connection_map s sid") (auto simp: within_limits_def remove_connection_cases [OF ok] ok)
  ultimately show ?thesis
    using lim ok order_trans by (fastforce simp: within_limits_def)
qed

section \<open>Witnesses\<close>

text \<open>
  The situation of the repository's own test: at most three connections, two in one world; two clients
  of the first world are registered, a third one for it and one for another world are waiting.
\<close>

definition example_client :: "u8 \<Rightarrow> string \<Rightarrow> client_data" where
  "example_client n u = client_data_new [n] (unat n) u"

definition example_clients :: "client_data list" where
  "example_clients =
     [example_client 1 ''w1'', example_client 2 ''w1'', example_client 3 ''w1'', example_client 4 ''w2'']"

definition waiting_state :: server_state where
  "waiting_state =
     foldl (\<lambda>s cd. fst (alloc_client cd s)) (state_new (Some 3) (Some 2) 10 [] None None None) example_clients"

definition example_state :: server_state where
  "example_state = fst (add_connection 1 (fst (add_connection 0 waiting_state)))"

lemmas example_defs = example_state_def waiting_state_def example_clients_def state_new_def alloc_client_def
  add_connection_def Let_def example_client_def url_add_connection_def url_data_new_def word_le_nat_alt

lemma example_state_sel:
  "cds example_state 2 = Some (example_client 3 ''w1'')" "cds example_state 3 = Some (example_client 4 ''w2'')"
  "cds example_state 0 = Some (example_client 1 ''w1'')" "cds example_state 1 = Some (example_client 2 ''w1'')"
  "connection_map example_state = [[1] \<mapsto> 0, [2] \<mapsto> 1]" "client_count example_state = 2"
  "max_connections example_state = Some 3" "max_connections_by_url example_state = Some 2" "effects example_state = []"
  by (simp_all add: example_defs)

lemma example_ready:
  "client_ready waiting_state 0" "client_ready (fst (add_connection 0 waiting_state)) 1"
  "client_ready example_state 2" "client_ready example_state 3"
  by (simp_all add: client_ready_def example_state_sel) (simp_all add: example_defs example_client_def)

lemma example_state_ok: "state_ok example_state"
proof -
  have "state_ok s \<Longrightarrow> state_ok (foldl (\<lambda>s cd. fst (alloc_client cd s)) s cs)" for s cs
    by (induction cs arbitrary: s) (simp_all add: alloc_client_ok)
  then have "state_ok waiting_state" by (simp add: waiting_state_def)
  with example_ready(1) have "state_ok (fst (add_connection 0 waiting_state))"
    using add_connection_spec by blast
  with example_ready(2) show ?thesis
    using add_connection_spec by (metis example_state_def)
qed

lemma example_sessions: "sessions_of example_state = [[1] \<mapsto> ''w1'', [2] \<mapsto> ''w1'']"
  by (rule ext) (simp add: sessions_of_def example_state_sel example_state_sel(4) [simplified] example_client_def)

lemma example_population:
  "population [[1] \<mapsto> ''w1'', [2] \<mapsto> ''w1''] ''w1'' = 2" "population [[1] \<mapsto> ''w1'', [2] \<mapsto> ''w1''] ''w2'' = 0"
proof -
  have "{sid. ([[1] \<mapsto> ''w1'', [2] \<mapsto> ''w1''] :: sessions) sid = Some ''w1''} = {[1], [2]}" by auto
  then show "population [[1] \<mapsto> ''w1'', [2] \<mapsto> ''w1''] ''w1'' = 2" by (simp add: population_def)
  show "population [[1] \<mapsto> ''w1'', [2] \<mapsto> ''w1''] ''w2'' = 0" by (simp add: population_def)
qed

theorem add_connection_refines_witness:
  "snd (add_connection 2 example_state) = False \<and> fst (add_connection 2 example_state) = example_state \<and>
   sessions_of (fst (add_connection 3 example_state)) = [[1] \<mapsto> ''w1'', [2] \<mapsto> ''w1'', [4] \<mapsto> ''w2'']"
proof -
  have "\<not> may_enter (Some 3) (Some 2) [[1] \<mapsto> ''w1'', [2] \<mapsto> ''w1''] ''w1''"
    and "may_enter (Some 3) (Some 2) [[1] \<mapsto> ''w1'', [2] \<mapsto> ''w1''] ''w2''"
    by (simp_all add: may_enter_def example_population card_insert_if)
  then show ?thesis
    using add_connection_refines [OF example_state_ok example_ready(3)]
      add_connection_refines [OF example_state_ok example_ready(4)]
    by (simp add: example_state_sel example_sessions spec_add_def example_client_def)
qed

theorem remove_connection_refines_witness:
  "sessions_of (remove_connection example_sid_api [1] example_state) = [[2] \<mapsto> ''w1''] \<and>
   effects (remove_connection example_sid_api [1] example_state) = [ClearDataChannelHandler 1, SpawnClose None 1]"
  using remove_connection_refines [OF example_state_ok, of example_sid_api "[1]"]
  by (simp add: example_sessions example_state_sel example_client_def dispose_def get_dc_def fun_upd_twist)

theorem availability_is_admission_witness:
  "is_new_connection_available ''w1'' example_state = snd (add_connection 2 example_state) \<and>
   is_new_connection_available ''w2'' example_state = snd (add_connection 3 example_state)"
  using availability_is_admission [OF example_state_ok example_ready(3)]
    availability_is_admission [OF example_state_ok example_ready(4)]
  by (simp add: example_state_sel example_client_def)

end
