(* ===== verification/Swarm_Rpc.thy ===== *)
theory Swarm_Rpc
  imports Server_State
begin

text \<open>
  What the server does with a message of a data channel, \<open>hubserv/src/rtc_api.rs\<close> and
  \<open>hubserv/src/swarm.rs\<close>: passing a signed message on to another client, and exchanging routing
  information. The outside of these operations is one record: the wire formats, the sessions, the
  webrtc crate, the clock and the random choice. A handler gives the new state and an outcome, since
  one of its branches panics.
\<close>

record world =
  w_codec :: codec
  w_sid :: sid_api
  w_rtc :: webrtc
  w_now :: int
  w_choose :: "nat \<Rightarrow> routing_info list \<Rightarrow> routing_info list"

type_synonym 'a reply = "server_state \<times> (rpc_error + 'a) outcome"

section \<open>Passing a message on\<close>

definition transfer_core :: "world \<Rightarrow> transfer_request \<Rightarrow> server_state \<Rightarrow> bool reply" where
  "transfer_core w req s =
     (case sid_try_from (w_sid w) (to_session_id req) of
        None \<Rightarrow> (s, Returns (Err BadSessionId))
      | Some to_sid \<Rightarrow>
          (case tr_signature req of
             None \<Rightarrow> (s, Returns (Err NoSignature))
           | Some signature \<Rightarrow>
               (case signature_try_from (w_sid w) signature of
                  Inl e \<Rightarrow> (s, Returns (Err e))
                | Inr ss \<Rightarrow>
                    (case sid_try_from (w_sid w) (from_session_id signature) of
                       None \<Rightarrow> (s, Returns (Err BadSessionId))
                     | Some from_sid \<Rightarrow>
                         if \<not> sid_verify (w_sid w) from_sid [to_session_id req, payload req] ss
                         then (s, Returns (Err BadSignature))
                         else if ttl req < 1 then (s, Returns (Ok False))
                         else
                           let req = req\<lparr>ttl := ttl req - 1\<rparr>;
                               packet = Some (Request
                                 \<lparr>rpc_id = RPC_ID_TRANSFER, rpc_param = enc_transfer (w_codec w) req\<rparr>);
                               (s, res) = state_send_rpc_response (w_codec w) (w_rtc w) to_sid RPC_ID_SWARM
                                 (enc_swarm (w_codec w) packet) s
                           in (s, Returns res)))))"

definition transfer :: "world \<Rightarrow> transfer_request \<Rightarrow> server_state \<Rightarrow> transfer_response reply" where
  "transfer w req s =
     (let to_sid = to_session_id req in
      case transfer_core w req s of
        (s, Panic) \<Rightarrow> (s, Panic)
      | (s, Returns (Inl e)) \<Rightarrow> (s, Returns (Err e))
      | (s, Returns (Inr res)) \<Rightarrow> (s, Returns (Ok \<lparr>tr_result = res, dest_session_id = to_sid\<rparr>)))"

section \<open>Exchanging routing information\<close>

text \<open>Writes through the shared client; the client is the one whose channel the message came on.\<close>

definition modify_client :: "cd_ref \<Rightarrow> (client_data \<Rightarrow> client_data) \<Rightarrow> server_state \<Rightarrow> server_state" where
  "modify_client r f s = s\<lparr>cds := (cds s)(r := map_option f (cds s r))\<rparr>"

definition exchange_routeing_info :: "world \<Rightarrow> cd_ref \<Rightarrow> routing_info \<Rightarrow> server_state \<Rightarrow> routing_info reply" where
  "exchange_routeing_info w r req s =
     (let s = modify_client r (\<lambda>cd. set_routing_info cd req) s; u = cd_url (the (cds s r)) in
      case get_url_data u s of
        None \<Rightarrow> (s, Panic)
      | Some ud \<Rightarrow>
          let ud = update_routing_info_if_needed (cds s) (w_now w) ud;
              s = s\<lparr>url_data_map := (url_data_map s)(u \<mapsto> ud)\<rparr>;
              ri = ud_routing_info ud
          in (case get_relations ri of
                Some relation \<Rightarrow>
                  if unat (max_routing_results s) < length relation
                  then (s, Returns (Ok (set_relations ri (w_choose w (unat (max_routing_results s)) relation))))
                  else (s, Returns (Ok ri))
              | None \<Rightarrow> (s, Returns (Ok ri))))"

section \<open>Dispatch\<close>

definition on_swarm_message :: "world \<Rightarrow> cd_ref \<Rightarrow> swarm_packet \<Rightarrow> server_state \<Rightarrow> swarm_packet option reply" where
  "on_swarm_message w r packet s =
     (case packet of
        Some (Request req) \<Rightarrow>
          let answer = (\<lambda>res. Ok (Some (Some (Response \<lparr>rpc_id = rpc_id req, rpc_param = res\<rparr>)))) in
          if rpc_id req = RPC_ID_TRANSFER then
            (case dec_transfer (w_codec w) (rpc_param req) of
               None \<Rightarrow> (s, Returns (Err DecodeFailed))
             | Some treq \<Rightarrow>
                 (case transfer w treq s of
                    (s, Panic) \<Rightarrow> (s, Panic)
                  | (s, Returns (Inl e)) \<Rightarrow> (s, Returns (Err e))
                  | (s, Returns (Inr res)) \<Rightarrow> (s, Returns (answer (enc_transfer_response (w_codec w) res)))))
          else if rpc_id req = RPC_ID_EXCHANGE_ROUTING_INFO then
            (case dec_routing (w_codec w) (rpc_param req) of
               None \<Rightarrow> (s, Returns (Err DecodeFailed))
             | Some ri \<Rightarrow>
                 (case exchange_routeing_info w r ri s of
                    (s, Panic) \<Rightarrow> (s, Panic)
                  | (s, Returns (Inl e)) \<Rightarrow> (s, Returns (Err e))
                  | (s, Returns (Inr res)) \<Rightarrow> (s, Returns (answer (enc_routing (w_codec w) res)))))
          else (s, Returns (Ok None))
      | _ \<Rightarrow> (s, Returns (Ok None)))"

definition on_rtc_message :: "world \<Rightarrow> cd_ref \<Rightarrow> bytes \<Rightarrow> server_state \<Rightarrow> unit reply" where
  "on_rtc_message w r data s =
     (case decode_packet (w_codec w) data of
        Inl e \<Rightarrow> (s, Returns (Err e))
      | Inr packet \<Rightarrow>
          (case rp_data packet of
             Some (Request req) \<Rightarrow>
               if rpc_id req = RPC_ID_KEEP_ALIVE then (s, Returns (Ok ()))
               else if rpc_id req = RPC_ID_SWARM then
                 (case dec_swarm (w_codec w) (rpc_param req) of
                    None \<Rightarrow> (s, Returns (Err DecodeFailed))
                  | Some sp \<Rightarrow>
                      (case on_swarm_message w r sp s of
                         (s, Panic) \<Rightarrow> (s, Panic)
                       | (s, Returns (Inl e)) \<Rightarrow> (s, Returns (Err e))
                       | (s, Returns (Inr None)) \<Rightarrow> (s, Returns (Ok ()))
                       | (s, Returns (Inr (Some res))) \<Rightarrow>
                           (case cd_send_rpc_response (w_codec w) (w_rtc w) (the (cds s r)) (rpc_id req)
                                   (enc_swarm (w_codec w) res) of
                              (es, Inl e) \<Rightarrow> (emit es s, Returns (Err e))
                            | (es, Inr _) \<Rightarrow> (emit es s, Returns (Ok ())))))
               else (s, Returns (Ok ()))
           | _ \<Rightarrow> (s, Returns (Ok ()))))"

section \<open>The state under the messages\<close>

text \<open>A client that a session leads to.\<close>

definition is_registered :: "server_state \<Rightarrow> cd_ref \<Rightarrow> bool" where
  "is_registered s r \<longleftrightarrow> (\<exists>sid. connection_map s sid = Some r)"

text \<open>A change that leaves the sessions, the counters and the limits as they are.\<close>

definition identities :: "server_state \<Rightarrow> cd_ref \<Rightarrow> (session_id \<times> pc \<times> string) option" where
  "identities s = (\<lambda>r. map_option (\<lambda>cd. (cd_session_id cd, cd_pc cd, cd_url cd)) (cds s r))"

definition same_sessions :: "server_state \<Rightarrow> server_state \<Rightarrow> bool" where
  "same_sessions s s' \<longleftrightarrow> state_ok s' \<and> sessions_of s' = sessions_of s \<and> connection_map s' = connection_map s \<and>
     client_count s' = client_count s \<and> max_connections s' = max_connections s \<and>
     max_connections_by_url s' = max_connections_by_url s \<and> next_ref s' = next_ref s \<and>
     max_routing_results s' = max_routing_results s \<and> cluster_client s' = cluster_client s \<and>
     identities s' = identities s"

lemma same_sessions_refl: "state_ok s \<Longrightarrow> same_sessions s s"
  by (simp add: same_sessions_def)

lemma same_sessions_trans: "same_sessions s s' \<Longrightarrow> same_sessions s' s'' \<Longrightarrow> same_sessions s s''"
  by (simp add: same_sessions_def)

lemma emit_sel [simp]:
  "cds (emit es s) = cds s" "connection_map (emit es s) = connection_map s"
  "url_data_map (emit es s) = url_data_map s" "effects (emit es s) = effects s @ es"
  "client_count (emit es s) = client_count s" "max_connections (emit es s) = max_connections s"
  "max_connections_by_url (emit es s) = max_connections_by_url s" "next_ref (emit es s) = next_ref s"
  "max_routing_results (emit es s) = max_routing_results s" "cluster_client (emit es s) = cluster_client s"
  by (simp_all add: emit_def)

lemma emit_emit: "emit es' (emit es s) = emit (es @ es') s"
  by (simp add: emit_def)

lemma emit_same: "state_ok s \<Longrightarrow> same_sessions s (emit es s)"
  by (simp add: same_sessions_def sessions_of_def identities_def state_ok_def count_ok_def refs_ok_def worlds_ok_def
    listed_ok_def)

lemma modify_client_same:
  assumes ok: "state_ok s"
    and f: "\<And>cd. cd_session_id (f cd) = cd_session_id cd" "\<And>cd. cd_url (f cd) = cd_url cd"
      "\<And>cd. cd_pc (f cd) = cd_pc cd"
  shows "same_sessions s (modify_client r f s)"
proof -
  let ?cds = "(cds s)(r := map_option f (cds s r))"
  have "keeps_clients s ?cds"
    unfolding keeps_clients_def
  proof (intro allI impI)
    fix sid r'
    assume "connection_map s sid = Some r'"
    from state_okD(3) [OF ok this] obtain cd where "cds s r' = Some cd" "cd_session_id cd = sid" by blast
    then show "\<exists>cd. ?cds r' = Some cd \<and> cd_session_id cd = sid \<and> cd_url cd = cd_url (the (cds s r'))"
      using f by (cases "r' = r") simp_all
  qed
  moreover have "\<And>r' cd. ?cds r' = Some cd \<Longrightarrow> r' < next_ref s"
    using state_okD(7) [OF ok] by (auto split: if_splits)
  ultimately have "state_ok (s\<lparr>cds := ?cds, next_ref := next_ref s\<rparr>)"
    "sessions_of (s\<lparr>cds := ?cds, next_ref := next_ref s\<rparr>) = sessions_of s"
    using state_ok_store [OF ok, of ?cds "next_ref s"] by blast+
  moreover have "identities (modify_client r f s) = identities s"
    using f by (auto simp: identities_def modify_client_def fun_eq_iff option.map_comp comp_def)
  ultimately show ?thesis by (simp add: same_sessions_def modify_client_def)
qed

text \<open>A world may change what it hands out, as long as its clients and its counter stay.\<close>

lemma refresh_world_same:
  assumes ok: "state_ok s" and ud: "url_data_map s u = Some ud"
    and ud': "ud_clients ud' = ud_clients ud" "ud_client_count ud' = ud_client_count ud"
  shows "same_sessions s (s\<lparr>url_data_map := (url_data_map s)(u \<mapsto> ud')\<rparr>)"
proof -
  have "url_ok (cds s) ud' \<and> ud_clients ud' \<noteq> []"
    using state_okD(4,5) [OF ok ud] ud' by (simp add: url_ok_def)
  moreover have "(\<exists>ud. ((url_data_map s)(u \<mapsto> ud')) v = Some ud \<and> r \<in> set (ud_clients ud)) \<longleftrightarrow>
      (\<exists>ud. url_data_map s v = Some ud \<and> r \<in> set (ud_clients ud))" for v r
    using ud ud'(1) by auto
  ultimately show ?thesis
    using ok by (auto simp: same_sessions_def sessions_of_def identities_def state_ok_def count_ok_def refs_ok_def
      worlds_ok_def listed_ok_def)
qed

lemma registered_client: "state_ok s \<Longrightarrow> is_registered s r \<Longrightarrow> \<exists>cd. cds s r = Some cd"
  using state_okD(3) unfolding is_registered_def by blast

lemma registered_world:
  assumes "state_ok s" "is_registered s r"
  obtains ud where "url_data_map s (cd_url (the (cds s r))) = Some ud" "r \<in> set (ud_clients ud)"
  using assms registered_in_world unfolding is_registered_def by metis

section \<open>Properties of an exchange\<close>

text \<open>\<open>choose_multiple\<close> of the rand crate: a sample of the asked size, of different positions.\<close>

definition choose_ok :: "(nat \<Rightarrow> routing_info list \<Rightarrow> routing_info list) \<Rightarrow> bool" where
  "choose_ok f \<longleftrightarrow> (\<forall>n xs. n \<le> length xs \<longrightarrow> length (f n xs) = n \<and> set (f n xs) \<subseteq> set xs)"

lemma exchange_cases:
  assumes ok: "state_ok s" and reg: "is_registered s r"
  shows "\<exists>s' ud ri.
    exchange_routeing_info w r req s = (s', Returns (Ok ri)) \<and> same_sessions s s' \<and>
    url_data_map s' (cd_url (the (cds s r))) = Some ud \<and>
    (ri = ud_routing_info ud \<or>
     (\<exists>relation. get_relations (ud_routing_info ud) = Some relation \<and> unat (max_routing_results s) < length relation \<and>
        ri = set_relations (ud_routing_info ud) (w_choose w (unat (max_routing_results s)) relation))) \<and>
    (\<forall>relation. get_relations (ud_routing_info ud) = Some relation \<and> unat (max_routing_results s) < length relation \<longrightarrow>
        ri = set_relations (ud_routing_info ud) (w_choose w (unat (max_routing_results s)) relation))"
proof -
  let ?s = "modify_client r (\<lambda>cd. set_routing_info cd req) s"
  have same: "same_sessions s ?s" by (rule modify_client_same [OF ok]) simp_all
  have u: "cd_url (the (cds ?s r)) = cd_url (the (cds s r))"
    using registered_client [OF ok reg] by (auto simp: modify_client_def)
  have "is_registered ?s r" using reg same by (simp add: is_registered_def same_sessions_def)
  moreover have "state_ok ?s" using same by (simp add: same_sessions_def)
  ultimately obtain ud where ud: "url_data_map ?s (cd_url (the (cds s r))) = Some ud"
    using registered_world u by metis
  define ud' where "ud' = update_routing_info_if_needed (cds ?s) (w_now w) ud"
  let ?t = "?s\<lparr>url_data_map := (url_data_map ?s)(cd_url (the (cds s r)) \<mapsto> ud')\<rparr>"
  have "same_sessions ?s ?t"
    using refresh_world_same [OF \<open>state_ok ?s\<close> ud] by (simp add: ud'_def)
  with same have st: "same_sessions s ?t" by (rule same_sessions_trans)
  then have mr: "max_routing_results ?t = max_routing_results s" by (simp add: same_sessions_def)
  show ?thesis
  proof (cases "\<exists>relation. get_relations (ud_routing_info ud') = Some relation \<and>
      unat (max_routing_results s) < length relation")
    case True
    then obtain relation where rel: "get_relations (ud_routing_info ud') = Some relation"
      "unat (max_routing_results s) < length relation" by blast
    let ?ri = "set_relations (ud_routing_info ud') (w_choose w (unat (max_routing_results s)) relation)"
    have "exchange_routeing_info w r req s = (?t, Returns (Ok ?ri))"
      using rel mr by (simp add: exchange_routeing_info_def Let_def get_url_data_def u ud ud'_def [symmetric])
    with st rel show ?thesis by (intro exI [of _ ?t] exI [of _ ud'] exI [of _ ?ri]) simp
  next
    case False
    then have "exchange_routeing_info w r req s = (?t, Returns (Ok (ud_routing_info ud')))"
      using mr by (auto simp: exchange_routeing_info_def Let_def get_url_data_def u ud ud'_def [symmetric] split: option.split)
    with st False show ?thesis by (intro exI [of _ ?t] exI [of _ ud'] exI [of _ "ud_routing_info ud'"]) auto
  qed
qed

text \<open>
  Property C14. A registered client gets an answer to its exchange: never a panic, at most as many
  relations as the server allows, all of them from its own world, and no session, counter or limit
  changes.
\<close>

theorem exchange_bounded:
  assumes ok: "state_ok s" and reg: "is_registered s r" and choose: "choose_ok (w_choose w)"
  shows "\<exists>s' ud ri. exchange_routeing_info w r req s = (s', Returns (Ok ri)) \<and> same_sessions s s' \<and>
    url_data_map s' (cd_url (the (cds s r))) = Some ud \<and>
    length (children ri) \<le> unat (max_routing_results s) \<and>
    set (children ri) \<subseteq> set (children (ud_routing_info ud))"
proof -
  from exchange_cases [OF ok reg, of w req] obtain s' ud ri where
    run: "exchange_routeing_info w r req s = (s', Returns (Ok ri))" "same_sessions s s'"
      "url_data_map s' (cd_url (the (cds s r))) = Some ud"
    and ri: "ri = ud_routing_info ud \<or>
     (\<exists>relation. get_relations (ud_routing_info ud) = Some relation \<and> unat (max_routing_results s) < length relation \<and>
        ri = set_relations (ud_routing_info ud) (w_choose w (unat (max_routing_results s)) relation))"
    and large: "\<forall>relation. get_relations (ud_routing_info ud) = Some relation \<and> unat (max_routing_results s) < length relation \<longrightarrow>
        ri = set_relations (ud_routing_info ud) (w_choose w (unat (max_routing_results s)) relation)"
    by blast
  show ?thesis
  proof (cases "unat (max_routing_results s) < length (children (ud_routing_info ud))")
    case True
    then obtain relation where rel: "get_relations (ud_routing_info ud) = Some relation"
      by (auto simp: children_def split: option.splits)
    then have ch: "children (ud_routing_info ud) = relation" by (simp add: children_def)
    with True rel large have "ri = set_relations (ud_routing_info ud) (w_choose w (unat (max_routing_results s)) relation)"
      by blast
    moreover from True ch choose have "length (w_choose w (unat (max_routing_results s)) relation) = unat (max_routing_results s)"
      "set (w_choose w (unat (max_routing_results s)) relation) \<subseteq> set relation"
      by (simp_all add: choose_ok_def)
    ultimately show ?thesis using run ch by auto
  next
    case False
    with ri have "ri = ud_routing_info ud" by (auto simp: children_def)
    with False run show ?thesis by auto
  qed
qed


section \<open>Properties of a transfer\<close>

lemma state_send_cases:
  "state_send_rpc_response c rtc to i par s =
     (case connection_map s to of
        None \<Rightarrow> (s, Ok False)
      | Some r \<Rightarrow>
          (case cd_dc (the (cds s r)) of
             None \<Rightarrow> (emit [] s, Ok False)
           | Some d \<Rightarrow>
               let bs = snd (encode_packet c
                 \<lparr>rp_data = Some (Response \<lparr>rpc_id = i, rpc_param = par\<rparr>), is_compressed = False\<rparr>)
               in (emit [DcSend d bs] s, if dc_send_ok rtc d bs then Ok True else Err SendFailed)))"
  by (simp add: state_send_rpc_response_def get_connection_def cd_send_rpc_response_def get_dc_def Let_def
    split: option.split)

lemma emit_nil [simp]: "emit [] s = s"
  by (simp add: emit_def)

text \<open>The check a request has to pass before anything is sent.\<close>

definition transfer_signed :: "world \<Rightarrow> transfer_request \<Rightarrow> bool" where
  "transfer_signed w req \<longleftrightarrow> (\<exists>signature ss from_sid.
     tr_signature req = Some signature \<and> signature_try_from (w_sid w) signature = Ok ss \<and>
     sid_try_from (w_sid w) (from_session_id signature) = Some from_sid \<and>
     sid_verify (w_sid w) from_sid [to_session_id req, payload req] ss)"

definition forwarded :: "world \<Rightarrow> transfer_request \<Rightarrow> bytes" where
  "forwarded w req = snd (encode_packet (w_codec w)
     \<lparr>rp_data = Some (Response \<lparr>rpc_id = RPC_ID_SWARM,
        rpc_param = enc_swarm (w_codec w) (Some (Request
          \<lparr>rpc_id = RPC_ID_TRANSFER, rpc_param = enc_transfer (w_codec w) (req\<lparr>ttl := ttl req - 1\<rparr>)\<rparr>))\<rparr>),
      is_compressed = False\<rparr>)"

lemma transfer_core_cases:
  assumes to_sid: "sid_try_from (w_sid w) (to_session_id req) = Some to_sid" and signed: "transfer_signed w req"
  shows "transfer_core w req s =
    (if ttl req = 0 then (s, Returns (Ok False))
     else (case connection_map s to_sid of
             None \<Rightarrow> (s, Returns (Ok False))
           | Some r \<Rightarrow>
               (case cd_dc (the (cds s r)) of
                  None \<Rightarrow> (s, Returns (Ok False))
                | Some d \<Rightarrow>
                    (emit [DcSend d (forwarded w req)] s,
                     Returns (if dc_send_ok (w_rtc w) d (forwarded w req) then Ok True else Err SendFailed)))))"
proof -
  from signed obtain signature ss from_sid where sig: "tr_signature req = Some signature"
    "signature_try_from (w_sid w) signature = Ok ss"
    "sid_try_from (w_sid w) (from_session_id signature) = Some from_sid"
    "sid_verify (w_sid w) from_sid [to_session_id req, payload req] ss"
    by (auto simp: transfer_signed_def)
  show ?thesis
    by (simp add: transfer_core_def to_sid sig state_send_cases forwarded_def Let_def word_less_1 split: option.split)
qed

text \<open>A request that is not signed is an error, with nothing sent.\<close>

lemma transfer_unsigned:
  "\<not> transfer_signed w req \<Longrightarrow> sid_try_from (w_sid w) (to_session_id req) = Some to_sid \<Longrightarrow>
     \<exists>e. transfer_core w req s = (s, Returns (Err e))"
  by (auto simp: transfer_core_def transfer_signed_def split: option.split sum.split)

lemma transfer_core_state: "\<exists>es res. transfer_core w req s = (emit es s, Returns res)"
proof -
  have "\<exists>es. fst (transfer_core w req s) = emit es s" and "\<exists>res. snd (transfer_core w req s) = Returns res"
    by (auto simp: transfer_core_def state_send_cases Let_def split: option.splits sum.splits intro: exI [of _ "[]"])
  then show ?thesis by (metis prod.collapse)
qed

lemma forwarded_content:
  "rpc_codec_ok (w_codec w) \<Longrightarrow> decode_packet (w_codec w) (forwarded w req) = Ok
     \<lparr>rp_data = Some (Response \<lparr>rpc_id = RPC_ID_SWARM,
        rpc_param = enc_swarm (w_codec w) (Some (Request
          \<lparr>rpc_id = RPC_ID_TRANSFER, rpc_param = enc_transfer (w_codec w) (req\<lparr>ttl := ttl req - 1\<rparr>)\<rparr>))\<rparr>),
      is_compressed = False\<rparr>"
  unfolding forwarded_def by (rule decode_encode) simp_all

text \<open>The addressee of a request, and whether it can be reached: a registered client with an open channel.\<close>

definition addressee :: "world \<Rightarrow> transfer_request \<Rightarrow> server_state \<Rightarrow> dc option" where
  "addressee w req s =
     Option.bind (sid_try_from (w_sid w) (to_session_id req)) (\<lambda>to_sid.
     Option.bind (connection_map s to_sid) (\<lambda>r. cd_dc (the (cds s r))))"

lemma transfer_cases:
  "transfer w req s =
     (if sid_try_from (w_sid w) (to_session_id req) \<noteq> None \<and> transfer_signed w req
      then (let answer = (\<lambda>b. Returns (Ok \<lparr>tr_result = b, dest_session_id = to_session_id req\<rparr>)) in
            case (if ttl req = 0 then None else addressee w req s) of
              None \<Rightarrow> (s, answer False)
            | Some d \<Rightarrow> (emit [DcSend d (forwarded w req)] s,
                if dc_send_ok (w_rtc w) d (forwarded w req) then answer True else Returns (Err SendFailed)))
      else (s, snd (transfer w req s)))"
proof (cases "sid_try_from (w_sid w) (to_session_id req)")
  case None
  then show ?thesis by (simp add: transfer_def transfer_core_def)
next
  case (Some to_sid)
  show ?thesis
  proof (cases "transfer_signed w req")
    case True
    show ?thesis
      unfolding transfer_def Let_def transfer_core_cases [OF Some True]
      by (simp add: Some True addressee_def split: option.split)
  next
    case False
    from transfer_unsigned [OF this Some, of s] False show ?thesis by (auto simp: transfer_def)
  qed
qed

lemma transfer_error:
  "sid_try_from (w_sid w) (to_session_id req) = None \<or> \<not> transfer_signed w req \<Longrightarrow>
     \<exists>e. transfer w req s = (s, Returns (Err e))"
proof (cases "sid_try_from (w_sid w) (to_session_id req)")
  case (Some to_sid)
  moreover assume "sid_try_from (w_sid w) (to_session_id req) = None \<or> \<not> transfer_signed w req"
  ultimately obtain e where "transfer_core w req s = (s, Returns (Err e))"
    using transfer_unsigned [of w req to_sid s] by auto
  then show ?thesis by (simp add: transfer_def)
qed (simp add: transfer_def transfer_core_def)

lemma emit_one [simp]:
  "emit [e] s \<noteq> s" "s \<noteq> emit [e] s" "emit [e] s = emit [e'] s \<longleftrightarrow> e = e'"
  by (auto dest: arg_cong [of _ _ effects])

text \<open>
  Property C13. Whatever a transfer is answered, also when it ends in an error: the one thing it can do is
  to send one message, and it does so exactly if the request names a session, its sender has signed it
  for this receiver and this payload, it has hops left, and the receiver is registered with an open
  channel. The message is the same request with one hop less. The answer is positive exactly if the
  sending succeeded, an unsigned request is an error, and an answer of \<open>false\<close> sends nothing.
\<close>

theorem transfer_sends:
  assumes "transfer w req s = (s', out)"
  shows "(s' = s \<or> (\<exists>d. s' = emit [DcSend d (forwarded w req)] s)) \<and>
    (\<forall>d. s' = emit [DcSend d (forwarded w req)] s \<longleftrightarrow>
       sid_try_from (w_sid w) (to_session_id req) \<noteq> None \<and> transfer_signed w req \<and> 0 < ttl req \<and>
       addressee w req s = Some d) \<and>
    (out = Returns (Ok \<lparr>tr_result = True, dest_session_id = to_session_id req\<rparr>) \<longleftrightarrow>
       (\<exists>d. s' = emit [DcSend d (forwarded w req)] s \<and> dc_send_ok (w_rtc w) d (forwarded w req))) \<and>
    (\<not> transfer_signed w req \<longrightarrow> (\<exists>e. out = Returns (Err e))) \<and>
    (\<forall>res. out = Returns (Ok res) \<longrightarrow> dest_session_id res = to_session_id req \<and> (\<not> tr_result res \<longrightarrow> s' = s)) \<and>
    (rpc_codec_ok (w_codec w) \<longrightarrow> decode_packet (w_codec w) (forwarded w req) = Ok
     \<lparr>rp_data = Some (Response \<lparr>rpc_id = RPC_ID_SWARM,
        rpc_param = enc_swarm (w_codec w) (Some (Request
          \<lparr>rpc_id = RPC_ID_TRANSFER, rpc_param = enc_transfer (w_codec w) (req\<lparr>ttl := ttl req - 1\<rparr>)\<rparr>))\<rparr>),
      is_compressed = False\<rparr>)"
proof -
  let ?may = "sid_try_from (w_sid w) (to_session_id req) \<noteq> None \<and> transfer_signed w req"
  note content = forwarded_content [of w req]
  show ?thesis
  proof (cases ?may)
    case False
    then obtain e where "transfer w req s = (s, Returns (Err e))" using transfer_error [of w req s] by auto
    with False assms content show ?thesis by auto
  next
    case True
    then have run: "(s', out) =
       (let answer = (\<lambda>b. Returns (Ok \<lparr>tr_result = b, dest_session_id = to_session_id req\<rparr>)) in
            case (if ttl req = 0 then None else addressee w req s) of
              None \<Rightarrow> (s, answer False)
            | Some d \<Rightarrow> (emit [DcSend d (forwarded w req)] s,
                if dc_send_ok (w_rtc w) d (forwarded w req) then answer True else Returns (Err SendFailed)))"
      using transfer_cases [of w req s] assms by simp
    show ?thesis
    proof (cases "if ttl req = 0 then None else addressee w req s")
      case None
      then have "\<not> (0 < ttl req \<and> addressee w req s = Some d)" for d by (auto simp: word_gt_0)
      with run True content None show ?thesis by (auto simp: Let_def)
    next
      case (Some d)
      then have "0 < ttl req" "addressee w req s = Some d" by (auto simp: word_gt_0 split: if_splits)
      with run True content Some show ?thesis by (auto simp: Let_def)
    qed
  qed
qed

section \<open>Messages are safe\<close>

lemma transfer_safe:
  assumes "state_ok s"
  shows "same_sessions s (fst (transfer w req s)) \<and> snd (transfer w req s) \<noteq> Panic"
proof -
  obtain es res where "transfer_core w req s = (emit es s, Returns res)" using transfer_core_state by blast
  then show ?thesis using emit_same [OF assms] by (cases res) (simp_all add: transfer_def)
qed

text \<open>A reply keeps the sessions, and it is no panic if \<open>b\<close> says so.\<close>

definition safe_reply :: "bool \<Rightarrow> server_state \<Rightarrow> 'a reply \<Rightarrow> bool" where
  "safe_reply b s rep \<longleftrightarrow> same_sessions s (fst rep) \<and> (b \<longrightarrow> snd rep \<noteq> Panic)"

lemma safe_reply_map:
  "safe_reply b s rep \<Longrightarrow> (\<And>s' e. rep = (s', Returns (Inl e)) \<Longrightarrow> same_sessions s s' \<Longrightarrow> safe_reply b s (f s' e)) \<Longrightarrow>
     (\<And>s' x. rep = (s', Returns (Inr x)) \<Longrightarrow> same_sessions s s' \<Longrightarrow> safe_reply b s (g s' x)) \<Longrightarrow>
     safe_reply b s (case rep of (s', Panic) \<Rightarrow> (s', Panic) | (s', Returns (Inl e)) \<Rightarrow> f s' e | (s', Returns (Inr x)) \<Rightarrow> g s' x)"
  by (auto simp: safe_reply_def split: prod.split outcome.split sum.split)

lemma safe_reply_here [simp]: "state_ok s \<Longrightarrow> safe_reply b s (s, Returns res)"
  by (simp add: safe_reply_def same_sessions_refl)

lemma safe_reply_same [simp]: "same_sessions s s' \<Longrightarrow> safe_reply b s (s', Returns res)"
  by (simp add: safe_reply_def)

lemma exchange_safe:
  assumes ok: "state_ok s"
  shows "safe_reply (is_registered s r) s (exchange_routeing_info w r ri s)"
proof -
  let ?s = "modify_client r (\<lambda>cd. set_routing_info cd ri) s"
  have same: "same_sessions s ?s" by (rule modify_client_same [OF ok]) simp_all
  then have ok': "state_ok ?s" by (simp add: same_sessions_def)
  have "same_sessions s (?s\<lparr>url_data_map := (url_data_map ?s)(u \<mapsto> update_routing_info_if_needed (cds ?s) now ud)\<rparr>)"
    if "url_data_map ?s u = Some ud" for u ud now
    by (rule same_sessions_trans [OF same refresh_world_same [OF ok' that]]) simp_all
  then have "same_sessions s (fst (exchange_routeing_info w r ri s))"
    using same by (simp add: exchange_routeing_info_def Let_def get_url_data_def split: option.split)
  moreover have "snd (exchange_routeing_info w r ri s) \<noteq> Panic" if "is_registered s r"
  proof -
    from exchange_cases [OF ok that, of w ri] obtain s' res where
      "exchange_routeing_info w r ri s = (s', Returns (Ok res))" by blast
    then show ?thesis by simp
  qed
  ultimately show ?thesis by (simp add: safe_reply_def)
qed

lemma on_swarm_message_safe:
  assumes ok: "state_ok s"
  shows "safe_reply (is_registered s r) s (on_swarm_message w r packet s)"
proof -
  let ?b = "is_registered s r"
  have exchange: "safe_reply ?b s (exchange_routeing_info w r ri s)" for ri by (rule exchange_safe [OF ok])
  have transfer: "safe_reply ?b s (transfer w t s)" for t
    using transfer_safe [OF ok] by (simp add: safe_reply_def)
  show ?thesis
  proof (cases "\<exists>req. packet = Some (Request req)")
    case False
    then show ?thesis using ok by (auto simp: on_swarm_message_def split: option.split packet_data.split)
  next
    case True
    then obtain req where packet: "packet = Some (Request req)" ..
    have forward: "safe_reply ?b s
        (case transfer w t s of
           (s, Panic) \<Rightarrow> (s, Panic)
         | (s, Returns (Inl e)) \<Rightarrow> (s, Returns (Err e))
         | (s, Returns (Inr res)) \<Rightarrow> (s, Returns (h res)))" for t h
      by (rule safe_reply_map [OF transfer]) simp_all
    have routing: "safe_reply ?b s
        (case exchange_routeing_info w r ri s of
           (s, Panic) \<Rightarrow> (s, Panic)
         | (s, Returns (Inl e)) \<Rightarrow> (s, Returns (Err e))
         | (s, Returns (Inr res)) \<Rightarrow> (s, Returns (h res)))" for ri h
      by (rule safe_reply_map [OF exchange]) simp_all
    show ?thesis
      unfolding on_swarm_message_def packet option.case packet_data.case Let_def
      using ok by (simp add: forward routing split: option.split)
  qed
qed

lemma on_rtc_message_safe:
  assumes ok: "state_ok s"
  shows "safe_reply (is_registered s r) s (on_rtc_message w r data s)" (is "safe_reply ?b _ _")
proof (cases "decode_packet (w_codec w) data")
  case (Inl e)
  then show ?thesis using ok by (simp add: on_rtc_message_def)
next
  case (Inr packet)
  have answer: "safe_reply ?b s
      (case cd_send_rpc_response c rtc cd i bs of
         (es, Inl e) \<Rightarrow> (emit es s1, Returns (Err e)) | (es, Inr _) \<Rightarrow> (emit es s1, Returns (Ok ())))"
    if "same_sessions s s1" for c rtc cd i bs s1
  proof -
    have "same_sessions s (emit es s1)" for es
      using that emit_same same_sessions_trans by (metis same_sessions_def)
    then show ?thesis by (auto split: prod.split sum.split)
  qed
  have request: "safe_reply ?b s
      (case on_swarm_message w r sp s of
         (s, Panic) \<Rightarrow> (s, Panic)
       | (s, Returns (Inl e)) \<Rightarrow> (s, Returns (Err e))
       | (s, Returns (Inr None)) \<Rightarrow> (s, Returns (Ok ()))
       | (s, Returns (Inr (Some res))) \<Rightarrow>
           (case cd_send_rpc_response (w_codec w) (w_rtc w) (the (cds s r)) i (enc_swarm (w_codec w) res) of
              (es, Inl e) \<Rightarrow> (emit es s, Returns (Err e))
            | (es, Inr _) \<Rightarrow> (emit es s, Returns (Ok ()))))" for sp i
    by (rule safe_reply_map [OF on_swarm_message_safe [OF ok]]) (auto intro: answer split: option.split)
  show ?thesis
    unfolding on_rtc_message_def Inr sum.case using ok
    by (auto split: option.split packet_data.split intro: request)
qed

text \<open>
  Property C9. No message of a registered client, whatever its bytes, makes the server panic or
  changes a session, a counter or a limit.
\<close>

theorem messages_are_safe:
  assumes ok: "state_ok s" and reg: "is_registered s r"
  shows "same_sessions s (fst (on_rtc_message w r data s)) \<and> snd (on_rtc_message w r data s) \<noteq> Panic"
  using on_rtc_message_safe [OF ok, of r w data] reg by (simp add: safe_reply_def)

section \<open>Witnesses\<close>

definition example_world :: world where
  "example_world =
     \<lparr>w_codec = example_codec, w_sid = example_sid_api,
      w_rtc = \<lparr>dc_send_ok = (\<lambda>_ _. True), add_ice_ok = (\<lambda>_ _. True)\<rparr>, w_now = 100, w_choose = take\<rparr>"

lemma example_choose_ok: "choose_ok (w_choose example_world)"
  by (auto simp: choose_ok_def example_world_def dest: in_set_takeD)

lemma example_registered: "is_registered example_state 0" "is_registered example_state 1"
  unfolding is_registered_def example_state_sel by (rule exI [of _ "[1]"], simp) (rule exI [of _ "[2]"], simp)

theorem exchange_bounded_witness:
  "\<exists>s' ri. exchange_routeing_info example_world 0 default_routing_info example_state = (s', Returns (Ok ri)) \<and>
     length (children ri) \<le> unat (max_routing_results example_state)"
  using exchange_bounded [OF example_state_ok example_registered(1) example_choose_ok] by blast


theorem messages_are_safe_witness:
  "snd (on_rtc_message example_world 0 [1, 2, 3] example_state) \<noteq> Panic"
  using messages_are_safe [OF example_state_ok example_registered(1)] by blast

definition example_transfer :: transfer_request where
  "example_transfer =
     \<lparr>to_session_id = [2],
      tr_signature = Some \<lparr>from_session_id = [1], signature_bytes = [1], salt_bytes = [0]\<rparr>,
      payload = [9], ttl = 3\<rparr>"

definition opened_state :: server_state where
  "opened_state = modify_client 1 (\<lambda>cd. set_dc cd 7) example_state"

theorem transfer_sends_witness:
  "\<exists>s'. transfer example_world example_transfer opened_state =
      (s', Returns (Ok \<lparr>tr_result = True, dest_session_id = [2]\<rparr>)) \<and>
    effects s' = effects opened_state @ [DcSend 7 (forwarded example_world example_transfer)] \<and>
    fst (transfer example_world (example_transfer\<lparr>payload := [9], tr_signature := None\<rparr>) opened_state) = opened_state"
proof -
  let ?unsigned = "example_transfer\<lparr>payload := [9], tr_signature := None\<rparr>"
  have signed: "transfer_signed example_world example_transfer" and ttl: "0 < ttl example_transfer"
    by (simp_all add: transfer_signed_def example_transfer_def example_world_def signature_try_from_def example_sid_api_def)
  have to_sid: "sid_try_from (w_sid example_world) (to_session_id example_transfer) = Some [2]"
    by (simp add: example_transfer_def example_world_def example_sid_api_def)
  have to: "addressee example_world example_transfer opened_state = Some 7"
    by (simp add: addressee_def to_sid opened_state_def modify_client_def example_state_sel example_state_sel(4) [simplified]
      set_dc_def example_client_def)
  obtain s' out where run: "transfer example_world example_transfer opened_state = (s', out)" by fastforce
  have sent: "s' = emit [DcSend 7 (forwarded example_world example_transfer)] opened_state"
    using transfer_sends [OF run] signed ttl to_sid to by blast
  moreover have "dc_send_ok (w_rtc example_world) 7 (forwarded example_world example_transfer)"
    by (simp add: example_world_def)
  ultimately have "out = Returns (Ok \<lparr>tr_result = True, dest_session_id = to_session_id example_transfer\<rparr>)"
    using transfer_sends [OF run] by blast
  moreover have "\<not> transfer_signed example_world ?unsigned" by (simp add: transfer_signed_def)
  then have "fst (transfer example_world ?unsigned opened_state) = opened_state"
    using transfer_sends [of example_world ?unsigned opened_state] by (metis prod.collapse)
  ultimately show ?thesis using run sent by (simp add: example_transfer_def)
qed

end
