(* ===== verification/Request_Types.thy ===== *)
theory Request_Types
  imports Proto_Messages
begin

text \<open>
  The signed requests of the HTTP interface and the normal form of a world's URL,
  \<open>hubserv/src/types.rs\<close>. JSON and URL parsing and the session identifiers are other crates and
  parameters; trimming is the standard library's and written out. Whether the log level \<open>warn\<close> is
  enabled is a parameter too, because the argument of the warning can panic.
\<close>

section \<open>Trimming\<close>

text \<open>The UTF-8 spellings of the characters with the Unicode property White\_Space.\<close>

definition white_space :: "string list" where
  "white_space =
     [[CHR 0x09], [CHR 0x0A], [CHR 0x0B], [CHR 0x0C], [CHR 0x0D], [CHR 0x20],
      [CHR 0xC2, CHR 0x85], [CHR 0xC2, CHR 0xA0], [CHR 0xE1, CHR 0x9A, CHR 0x80]] @
     map (\<lambda>c. [CHR 0xE2, CHR 0x80, c])
       [CHR 0x80, CHR 0x81, CHR 0x82, CHR 0x83, CHR 0x84, CHR 0x85, CHR 0x86, CHR 0x87, CHR 0x88,
        CHR 0x89, CHR 0x8A, CHR 0xA8, CHR 0xA9, CHR 0xAF] @
     [[CHR 0xE2, CHR 0x81, CHR 0x9F], [CHR 0xE3, CHR 0x80, CHR 0x80]]"

lemma white_space_nonempty: "w \<in> set white_space \<Longrightarrow> w \<noteq> []"
  by (auto simp: white_space_def)

lemma find_white_space:
  "List.find p white_space = Some w \<Longrightarrow> p w \<and> 0 < length w"
  using white_space_nonempty by (auto simp: find_Some_iff)

lemma white_space_shorter:
  "List.find (\<lambda>w. prefix w s) white_space = Some w \<Longrightarrow> length s - length w < length s"
  "List.find (\<lambda>w. suffix w s) white_space = Some w \<Longrightarrow> length s - length w < length s"
  using find_white_space [of "\<lambda>w. prefix w s" w] find_white_space [of "\<lambda>w. suffix w s" w]
    prefix_length_le [of w s] suffix_length_le [of w s] by linarith+

function trim_start :: "string \<Rightarrow> string" where
  "trim_start s =
     (case List.find (\<lambda>w. prefix w s) white_space of
        Some w \<Rightarrow> trim_start (drop (length w) s)
      | None \<Rightarrow> s)"
  by pat_completeness auto
termination
  by (relation "measure length") (simp_all add: white_space_shorter)

function trim_end :: "string \<Rightarrow> string" where
  "trim_end s =
     (case List.find (\<lambda>w. suffix w s) white_space of
        Some w \<Rightarrow> trim_end (take (length s - length w) s)
      | None \<Rightarrow> s)"
  by pat_completeness auto
termination
  by (relation "measure length") (simp_all add: white_space_shorter)

declare trim_start.simps [simp del] trim_end.simps [simp del]

definition trim :: "string \<Rightarrow> string" where
  "trim s = trim_end (trim_start s)"

section \<open>URLs\<close>

text \<open>The parts of \<open>url::Url\<close> the program asks for.\<close>

record parsed_url =
  pu_scheme :: string
  pu_host :: "string option"
  pu_path :: string

type_synonym url_parser = "string \<Rightarrow> parsed_url option"

definition normalize_url :: "url_parser \<Rightarrow> string \<Rightarrow> string" where
  "normalize_url parse u =
     (case parse (trim u) of
        None \<Rightarrow> []
      | Some u \<Rightarrow>
          (case pu_host u of
             None \<Rightarrow> []
           | Some h \<Rightarrow>
               let res = pu_scheme u @ ''://'' @ h @ pu_path u
               in if ends_with_char res CHR ''/'' then butlast res else res))"

definition MAX_URL_LEN :: nat where "MAX_URL_LEN = 4096"

section \<open>Payloads\<close>

text \<open>The payloads of both requests have the same fields, the second of its own type.\<close>

record 'd payload =
  pl_url :: string
  pl_sdp :: 'd
  pl_raw_url :: string

record session_description =
  sdp_type :: string
  sdp :: string

text \<open>Of \<open>RTCIceCandidateInit\<close> the program reads the candidate itself.\<close>

type_synonym ice_candidate = string

type_synonym enter_request_payload = "session_description payload"
type_synonym candidate_request_payload = "ice_candidate payload"

text \<open>
  The warning shows the first 128 bytes; a slice that splits a character panics, but only if the
  warning is formatted at all.
\<close>

definition warn_incorrect_url :: "bool \<Rightarrow> string \<Rightarrow> unit outcome" where
  "warn_incorrect_url warn_enabled raw =
     (if \<not> warn_enabled then Returns ()
      else if 128 < length raw
      then (case str_slice_to raw 128 of Panic \<Rightarrow> Panic | Returns _ \<Rightarrow> Returns ())
      else Returns ())"

definition enter_normalize ::
  "url_parser \<Rightarrow> bool \<Rightarrow> enter_request_payload \<Rightarrow> enter_request_payload outcome" where
  "enter_normalize parse warn_enabled self =
     (let self = self\<lparr>pl_raw_url := pl_url self\<rparr> in
      if MAX_URL_LEN < length (pl_raw_url self) \<or> CHR 0x0D \<in> set (pl_raw_url self) \<or> CHR 0x0A \<in> set (pl_raw_url self)
      then (case warn_incorrect_url warn_enabled (pl_raw_url self) of
              Panic \<Rightarrow> Panic | Returns _ \<Rightarrow> Returns (self\<lparr>pl_url := []\<rparr>))
      else Returns (self\<lparr>pl_url := normalize_url parse (pl_url self)\<rparr>))"

definition candidate_normalize ::
  "url_parser \<Rightarrow> bool \<Rightarrow> candidate_request_payload \<Rightarrow> candidate_request_payload outcome" where
  "candidate_normalize parse warn_enabled self =
     (let self = self\<lparr>pl_raw_url := pl_url self\<rparr> in
      if MAX_URL_LEN < length (pl_raw_url self) \<or> CHR 0x0D \<in> set (pl_raw_url self) \<or> CHR 0x0A \<in> set (pl_raw_url self)
      then (case warn_incorrect_url warn_enabled (pl_raw_url self) of
              Panic \<Rightarrow> Panic | Returns _ \<Rightarrow> Returns (self\<lparr>pl_url := []\<rparr>))
      else Returns (self\<lparr>pl_url := normalize_url parse (pl_url self)\<rparr>))"

record signed_request =
  sr_session_id :: string
  sr_sign :: "bytes \<times> bytes"
  sr_payload :: string

text \<open>\<open>verify\<close>, for a payload type with its JSON parser and its \<open>normalize\<close>.\<close>

definition verify ::
  "sid_api \<Rightarrow> (string \<Rightarrow> 'd payload option) \<Rightarrow> ('d payload \<Rightarrow> 'd payload outcome) \<Rightarrow> signed_request \<Rightarrow>
     (rpc_error + session_id \<times> 'd payload) outcome" where
  "verify api from_json norm self =
     (case sid_parse api (sr_session_id self) of
        None \<Rightarrow> Returns (Err BadSessionId)
      | Some sid \<Rightarrow>
          if \<not> sid_verify api sid [as_bytes (sr_payload self)] (sr_sign self) then Returns (Err BadSignature) else
          (case from_json (sr_payload self) of
             None \<Rightarrow> Returns (Err ParseFailed)
           | Some res \<Rightarrow>
               (case norm res of Panic \<Rightarrow> Panic | Returns res \<Rightarrow> Returns (Ok (sid, res)))))"

section \<open>Properties\<close>

text \<open>
  Property C23. Nothing unsigned gets through: a request yields a session and a payload only if the
  signature of that session over exactly the received payload text is valid.
\<close>

theorem verify_sound:
  assumes "verify api from_json norm req = Returns (Ok (sid, p))"
  shows "sid_parse api (sr_session_id req) = Some sid \<and>
    sid_verify api sid [as_bytes (sr_payload req)] (sr_sign req) \<and>
    (\<exists>p0. from_json (sr_payload req) = Some p0 \<and> norm p0 = Returns p)"
  using assms by (auto simp: verify_def split: option.splits if_splits outcome.splits)

lemma verify_norm:
  "verify api from_json norm req = Returns (Ok (sid, p)) \<Longrightarrow> \<exists>p0. norm p0 = Returns p"
  by (auto simp: verify_def split: option.splits if_splits outcome.splits)

lemma warn_result:
  "warn_incorrect_url w raw =
     (if w \<and> 128 < length raw \<and> \<not> is_char_boundary raw 128 then Panic else Returns ())"
  by (simp add: warn_incorrect_url_def str_slice_to_def)

lemma case_if_outcome:
  "(case (if b then Panic else Returns ()) of Panic \<Rightarrow> x | Returns _ \<Rightarrow> y) = (if b then x else y)"
  by simp

text \<open>
  What normalizing an entry's URL gives, on every branch: an overlong URL or one with a
  line break is emptied, any other is replaced by its normal form, and the text received is kept for
  the access log. The only panic is the warning about an overlong or broken URL whose 128th byte is
  inside a character.
\<close>

lemma normalize_branches:
  "enter_normalize parse w p =
    (if 4096 < length (pl_url p) \<or> CHR 0x0D \<in> set (pl_url p) \<or> CHR 0x0A \<in> set (pl_url p)
     then (if w \<and> 128 < length (pl_url p) \<and> \<not> is_char_boundary (pl_url p) 128 then Panic
           else Returns \<lparr>pl_url = [], pl_sdp = pl_sdp p, pl_raw_url = pl_url p\<rparr>)
     else Returns \<lparr>pl_url = normalize_url parse (pl_url p), pl_sdp = pl_sdp p, pl_raw_url = pl_url p\<rparr>) \<and>
   candidate_normalize parse w q =
    (if 4096 < length (pl_url q) \<or> CHR 0x0D \<in> set (pl_url q) \<or> CHR 0x0A \<in> set (pl_url q)
     then (if w \<and> 128 < length (pl_url q) \<and> \<not> is_char_boundary (pl_url q) 128 then Panic
           else Returns \<lparr>pl_url = [], pl_sdp = pl_sdp q, pl_raw_url = pl_url q\<rparr>)
     else Returns \<lparr>pl_url = normalize_url parse (pl_url q), pl_sdp = pl_sdp q, pl_raw_url = pl_url q\<rparr>)"
  unfolding enter_normalize_def candidate_normalize_def MAX_URL_LEN_def Let_def warn_result case_if_outcome
  by (cases p; cases q) simp

text \<open>A path with at most one slash at its end removed.\<close>

definition strip_slash :: "string \<Rightarrow> string" where
  "strip_slash p = (if ends_with_char p CHR ''/'' then butlast p else p)"

text \<open>What the URL standard says of the parts of a URL with a host.\<close>

definition url_parser_ok :: "url_parser \<Rightarrow> bool" where
  "url_parser_ok parse \<longleftrightarrow> (\<forall>s u h. parse s = Some u \<and> pu_host u = Some h \<longrightarrow>
     CHR '':'' \<notin> set (pu_scheme u) \<and> h \<noteq> [] \<and> CHR ''/'' \<notin> set h \<and> (pu_path u = [] \<or> hd (pu_path u) = CHR ''/''))"

lemma takeWhile_until: "c \<notin> set a \<Longrightarrow> (b = [] \<or> hd b = c) \<Longrightarrow> takeWhile (\<lambda>x. x \<noteq> c) (a @ b) = a"
  by (subst takeWhile_append2) (auto simp: takeWhile_eq_Nil_iff)

lemma normalize_url_Some:
  assumes ok: "url_parser_ok parse" and u: "parse (trim s) = Some u" "pu_host u = Some h"
  shows "normalize_url parse s = pu_scheme u @ ''://'' @ h @ strip_slash (pu_path u)"
proof -
  from ok u have "h \<noteq> []" "CHR ''/'' \<notin> set h" by (auto simp: url_parser_ok_def)
  then have "last h \<noteq> CHR ''/''" using last_in_set by fastforce
  with \<open>h \<noteq> []\<close> show ?thesis
    by (cases "pu_path u = []")
      (simp_all add: normalize_url_def u Let_def ends_with_char_def strip_slash_def butlast_append)
qed

lemma normalize_url_nonempty:
  assumes "normalize_url parse s \<noteq> []"
  obtains u h where "parse (trim s) = Some u" "pu_host u = Some h"
  using assms that by (auto simp: normalize_url_def split: option.splits)

lemma strip_slash_hd: "p = [] \<or> hd p = CHR ''/'' \<Longrightarrow> strip_slash p = [] \<or> hd (strip_slash p) = CHR ''/''"
  by (cases p rule: rev_cases) (auto simp: strip_slash_def hd_append split: if_splits)

text \<open>
  Property C24. Worlds are told apart by scheme, host and path, up to one slash at the end of the path,
  and by nothing else: two URLs get the same non-empty name exactly when these agree, whatever their
  ports, queries and fragments.
\<close>

theorem same_world_iff:
  assumes ok: "url_parser_ok parse"
    and s: "parse (trim s) = Some u" "pu_host u = Some h"
  shows "normalize_url parse s \<noteq> [] \<and>
    (normalize_url parse t = normalize_url parse s \<longleftrightarrow>
      (\<exists>v. parse (trim t) = Some v \<and> pu_scheme v = pu_scheme u \<and> pu_host v = Some h \<and>
         strip_slash (pu_path v) = strip_slash (pu_path u)))"
proof -
  note ns = normalize_url_Some [OF ok s]
  then have ne: "normalize_url parse s \<noteq> []" by simp
  have "\<exists>v. parse (trim t) = Some v \<and> pu_scheme v = pu_scheme u \<and> pu_host v = Some h \<and>
      strip_slash (pu_path v) = strip_slash (pu_path u)"
    if eq: "normalize_url parse t = normalize_url parse s"
  proof -
    from eq ne obtain v h' where t: "parse (trim t) = Some v" "pu_host v = Some h'"
      by (metis normalize_url_nonempty)
    from eq have eq': "pu_scheme v @ ''://'' @ h' @ strip_slash (pu_path v) =
        pu_scheme u @ ''://'' @ h @ strip_slash (pu_path u)"
      by (simp only: ns normalize_url_Some [OF ok t])
    have parts: "CHR '':'' \<notin> set (pu_scheme v)" "CHR '':'' \<notin> set (pu_scheme u)" "CHR ''/'' \<notin> set h" "CHR ''/'' \<notin> set h'"
      "strip_slash (pu_path v) = [] \<or> hd (strip_slash (pu_path v)) = CHR ''/''"
      "strip_slash (pu_path u) = [] \<or> hd (strip_slash (pu_path u)) = CHR ''/''"
      using ok s t strip_slash_hd unfolding url_parser_ok_def by blast+
    have scheme: "pu_scheme v = pu_scheme u"
      using arg_cong [OF eq', of "takeWhile (\<lambda>x. x \<noteq> CHR '':'')"] parts(1,2) by (simp add: takeWhile_until)
    with eq' have rest: "h' @ strip_slash (pu_path v) = h @ strip_slash (pu_path u)" by simp
    have "h' = h"
      using arg_cong [OF rest, of "takeWhile (\<lambda>x. x \<noteq> CHR ''/'')"] parts(3-6) by (simp add: takeWhile_until)
    with t scheme rest show ?thesis by simp
  qed
  moreover have "normalize_url parse t = normalize_url parse s"
    if "parse (trim t) = Some v \<and> pu_scheme v = pu_scheme u \<and> pu_host v = Some h \<and>
         strip_slash (pu_path v) = strip_slash (pu_path u)" for v
    using that ns normalize_url_Some [OF ok, of t v h] by simp
  ultimately show ?thesis using ne by blast
qed

text \<open>A parser of URLs of the one scheme \<open>https\<close>, and a request with its own payload format.\<close>

definition example_url_parser :: url_parser where
  "example_url_parser s =
     (let r = drop 8 s;
          h = takeWhile (\<lambda>c. c \<noteq> CHR ''/'' \<and> c \<noteq> CHR ''?'') r;
          p = dropWhile (\<lambda>c. c \<noteq> CHR ''/'' \<and> c \<noteq> CHR ''?'') r
      in if prefix ''https://'' s \<and> h \<noteq> []
         then Some \<lparr>pu_scheme = ''https'', pu_host = Some h, pu_path = takeWhile (\<lambda>c. c \<noteq> CHR ''?'') p\<rparr>
         else None)"

lemma example_url_parser_ok: "url_parser_ok example_url_parser"
proof -
  have "takeWhile (\<lambda>c. c \<noteq> CHR ''?'') p = [] \<or> hd (takeWhile (\<lambda>c. c \<noteq> CHR ''?'') p) = CHR ''/''"
    if "p = dropWhile (\<lambda>c. c \<noteq> CHR ''/'' \<and> c \<noteq> CHR ''?'') r" for p r
    unfolding that by (induction r) auto
  then show ?thesis
    unfolding url_parser_ok_def example_url_parser_def Let_def
    by (auto split: if_splits dest: set_takeWhileD)
qed

lemma trim_plain:
  "(\<And>w. w \<in> set white_space \<Longrightarrow> \<not> prefix w s \<and> \<not> suffix w s) \<Longrightarrow> trim s = s"
proof -
  assume plain: "\<And>w. w \<in> set white_space \<Longrightarrow> \<not> prefix w s \<and> \<not> suffix w s"
  then have "List.find (\<lambda>w. prefix w s) white_space = None" "List.find (\<lambda>w. suffix w s) white_space = None"
    by (auto simp: find_None_iff)
  then show ?thesis by (simp add: trim_def trim_start.simps [of s] trim_end.simps [of s])
qed

theorem same_world_iff_witness:
  "normalize_url example_url_parser ''https://a.b/w/?q=1'' = normalize_url example_url_parser ''https://a.b/w'' \<and>
   normalize_url example_url_parser ''https://a.b/v'' \<noteq> normalize_url example_url_parser ''https://a.b/w''"
proof -
  have t: "trim ''https://a.b/w'' = ''https://a.b/w''" "trim ''https://a.b/w/?q=1'' = ''https://a.b/w/?q=1''"
    "trim ''https://a.b/v'' = ''https://a.b/v''"
    by (rule trim_plain, simp add: white_space_def suffix_to_prefix, fastforce)+
  have p: "example_url_parser ''https://a.b/w'' = Some \<lparr>pu_scheme = ''https'', pu_host = Some ''a.b'', pu_path = ''/w''\<rparr>"
    "example_url_parser ''https://a.b/w/?q=1'' = Some \<lparr>pu_scheme = ''https'', pu_host = Some ''a.b'', pu_path = ''/w/''\<rparr>"
    "example_url_parser ''https://a.b/v'' = Some \<lparr>pu_scheme = ''https'', pu_host = Some ''a.b'', pu_path = ''/v''\<rparr>"
    by (simp_all add: example_url_parser_def)
  note iff = same_world_iff [OF example_url_parser_ok, of "''https://a.b/w''" "\<lparr>pu_scheme = ''https'', pu_host = Some ''a.b'', pu_path = ''/w''\<rparr>" "''a.b''"]
  from iff [of "''https://a.b/w/?q=1''"] iff [of "''https://a.b/v''"] show ?thesis
    by (simp add: t p strip_slash_def ends_with_char_def)
qed

definition example_enter_json :: "string \<Rightarrow> enter_request_payload option" where
  "example_enter_json s =
     (if s = [] then None else Some \<lparr>pl_url = s, pl_sdp = \<lparr>sdp_type = ''offer'', sdp = ''v=0''\<rparr>, pl_raw_url = []\<rparr>)"

theorem verify_sound_witness:
  "\<exists>p. verify example_sid_api example_enter_json (enter_normalize example_url_parser True)
     \<lparr>sr_session_id = ''A'', sr_sign = ([65], [0]), sr_payload = ''https://a.b/w''\<rparr> = Returns (Ok ([65], p)) \<and>
     sid_verify example_sid_api [65] [as_bytes ''https://a.b/w''] ([65], [0])"
proof -
  let ?req = "\<lparr>sr_session_id = ''A'', sr_sign = ([65], [0]), sr_payload = ''https://a.b/w''\<rparr>"
  have "as_bytes ''A'' = [65]" by (simp add: as_bytes_def)
  then have "\<exists>p. verify example_sid_api example_enter_json (enter_normalize example_url_parser True) ?req = Returns (Ok ([65], p))"
    by (simp add: verify_def example_sid_api_def example_enter_json_def enter_normalize_def MAX_URL_LEN_def)
  then obtain p where "verify example_sid_api example_enter_json (enter_normalize example_url_parser True) ?req =
      Returns (Ok ([65], p))" ..
  with verify_sound [OF this] show ?thesis by auto
qed

end
