(* ===== verification/Server_Args.thy ===== *)
theory Server_Args
  imports Cluster_Func
begin

text \<open>
  The configuration of the server, \<open>hubserv/src/args.rs\<close>. Parsing the command line and the
  environment is clap's and a parameter of \<open>load\<close>; so are the answers of EC2 and of the secrets
  manager. The environment variables the program sets are part of the model, because the command
  line is parsed a second time after they are set.
\<close>

section \<open>Data\<close>

record args =
  http_host :: "string option"
  use_https :: bool
  lets_encrypt_email :: "string list"
  cache :: "string option"
  http_port :: nat
  udp_port :: nat
  status_port :: nat
  arg_max_connections :: "nat option"
  arg_max_connections_by_url :: "nat option"
  arg_max_routing_results :: nat
  arg_public_ip :: "string option"
  arg_ice_servers :: "string list"
  cloudflare_api_key :: "string option"
  cloudflare_email :: "string option"
  aws_secretsmanager_name :: "string option"
  aws_secretsmanager_region :: "string option"
  aws_secretsmanager_enabled :: bool
  aws_ec2_instance_id :: "string option"
  aws_ec2_region :: "string option"
  prometheus_prefix :: "string option"
  access_log_path :: "string option"
  http_log_path :: "string option"
  cluster_node_list_url :: "string option"
  cluster_node_host :: "string option"
  cluster_node_role :: "string option"
  cluster_node_stage :: "string option"
  cluster_json_s3_bucket :: "string option"
  cluster_json_s3_key :: "string option"
  update_cluster_key :: "string option"

section \<open>Replacing tags\<close>

text \<open>\<open>str::replace\<close>: every occurrence from left to right, without overlaps.\<close>

function str_replace :: "string \<Rightarrow> string \<Rightarrow> string \<Rightarrow> string" where
  "str_replace pat by [] = (if pat = [] then by else [])"
| "str_replace pat by (c # s) =
     (if pat = [] then by @ c # str_replace pat by s
      else if prefix pat (c # s) then by @ str_replace pat by (drop (length pat) (c # s))
      else c # str_replace pat by s)"
  by pat_completeness auto
termination by (relation "measure (\<lambda>(pat, by, s). length s)") (auto simp: neq_Nil_conv)

definition replace_tags :: "string \<Rightarrow> (string \<times> string) list \<Rightarrow> string" where
  "replace_tags v tags = foldl (\<lambda>v t. str_replace (''{tag:'' @ fst t @ ''}'') (snd t) v) v tags"

section \<open>The services\<close>

text \<open>A tag of EC2 has an optional key and value; a page may have no tags, and may fail.\<close>

type_synonym ec2_tag = "string option \<times> string option"
type_synonym tag_page = "ec2_tag list option"

fun page_tags :: "ec2_tag list \<Rightarrow> (string \<times> string) list" where
  "page_tags [] = []"
| "page_tags ((Some k, Some v) # ts) = (k, v) # page_tags ts"
| "page_tags (_ # ts) = page_tags ts"

fun load_ec2_tags_loop :: "tag_page option list \<Rightarrow> (string \<times> string) list \<Rightarrow> (string \<times> string) list option" where
  "load_ec2_tags_loop [] res = Some res"
| "load_ec2_tags_loop (None # _) res = None"
| "load_ec2_tags_loop (Some p # ps) res =
     load_ec2_tags_loop ps (res @ (case p of None \<Rightarrow> [] | Some ts \<Rightarrow> page_tags ts))"

definition load_ec2_tags ::
  "((string \<times> string) list \<Rightarrow> string option \<Rightarrow> tag_page option list) \<Rightarrow> string \<Rightarrow> string option \<Rightarrow>
     (string \<times> string) list option" where
  "load_ec2_tags describe_tags instance_id region =
     load_ec2_tags_loop (describe_tags [(''resource-id'', instance_id), (''resource-type'', ''instance'')] region) []"

text \<open>
  The secret is a JSON object; its entries, in the order the map yields them, become environment
  variables. Unicode's upper case mapping is a parameter.
\<close>

type_synonym environment = "string \<Rightarrow> string option"

record secrets_api =
  get_secret_value :: "string \<Rightarrow> string option \<Rightarrow> string option option"
  secret_json :: "string \<Rightarrow> (string \<times> string) list option"
  to_uppercase :: "string \<Rightarrow> string"

definition env_name :: "secrets_api \<Rightarrow> string \<Rightarrow> string" where
  "env_name api k = to_uppercase api (map (\<lambda>c. if c = CHR ''-'' then CHR ''_'' else c) k)"

definition load_secrets :: "secrets_api \<Rightarrow> string \<Rightarrow> string option \<Rightarrow> environment \<Rightarrow> environment option" where
  "load_secrets api secret_name region env =
     (case get_secret_value api secret_name region of
        None \<Rightarrow> None
      | Some None \<Rightarrow> Some env
      | Some (Some secret_string) \<Rightarrow>
          (case secret_json api secret_string of
             None \<Rightarrow> None
           | Some js \<Rightarrow> Some (foldl (\<lambda>env kv. env(env_name api (fst kv) \<mapsto> snd kv)) env js)))"

section \<open>Loading\<close>

definition load_to_env :: "secrets_api \<Rightarrow> args \<Rightarrow> environment \<Rightarrow> environment option" where
  "load_to_env api self env =
     (if aws_secretsmanager_enabled self
      then (case aws_secretsmanager_name self of
              Some secret_name \<Rightarrow> load_secrets api secret_name (aws_secretsmanager_region self) env
            | None \<Rightarrow> Some env)
      else Some env)"

definition set_other_args :: "xof \<Rightarrow> hex_encoder \<Rightarrow> args \<Rightarrow> args" where
  "set_other_args shake hexenc self =
     (case (http_host self, arg_public_ip self) of
        (Some host, Some ip) \<Rightarrow> self\<lparr>cluster_node_host := Some (get_node_host shake hexenc ip host)\<rparr>
      | _ \<Rightarrow> self)"

definition load ::
  "xof \<Rightarrow> hex_encoder \<Rightarrow> ((string \<times> string) list \<Rightarrow> string option \<Rightarrow> tag_page option list) \<Rightarrow> secrets_api \<Rightarrow>
     (environment \<Rightarrow> args) \<Rightarrow> environment \<Rightarrow> args option" where
  "load shake hexenc describe_tags api parse env =
     (let args = parse env in
      case (case aws_ec2_instance_id args of
              Some instance_id \<Rightarrow> load_ec2_tags describe_tags instance_id (aws_ec2_region args)
            | None \<Rightarrow> Some []) of
        None \<Rightarrow> None
      | Some tags \<Rightarrow>
          let args = args\<lparr>aws_secretsmanager_name :=
                       map_option (\<lambda>v. replace_tags v tags) (aws_secretsmanager_name args)\<rparr>;
              args = args\<lparr>aws_secretsmanager_region :=
                       map_option (\<lambda>v. replace_tags v tags) (aws_secretsmanager_region args)\<rparr>
          in (case load_to_env api args env of
                None \<Rightarrow> None
              | Some env \<Rightarrow> Some (set_other_args shake hexenc (parse env))))"

section \<open>Printing\<close>

datatype debug_value = DOpt "string option" | DBool bool | DList "string list" | DNat nat | DOptNat "nat option"

definition debug_fields :: "args \<Rightarrow> (string \<times> debug_value) list" where
  "debug_fields self =
     [(''http_host'', DOpt (http_host self)),
      (''use_https'', DBool (use_https self)),
      (''lets_encrypt_email'', DList (lets_encrypt_email self)),
      (''cache'', DOpt (cache self)),
      (''http_port'', DNat (http_port self)),
      (''udp_port'', DNat (udp_port self)),
      (''status_port'', DNat (status_port self)),
      (''max_connections'', DOptNat (arg_max_connections self)),
      (''max_connections_by_url'', DOptNat (arg_max_connections_by_url self)),
      (''public_ip'', DOpt (arg_public_ip self)),
      (''ice_servers'', DList (arg_ice_servers self)),
      (''cloudflare_api_key'', DOpt (map_option (\<lambda>v. replicate (length v) CHR ''*'') (cloudflare_api_key self))),
      (''cloudflare_email'', DOpt (cloudflare_email self)),
      (''aws_secretsmanager_enabled'', DBool (aws_secretsmanager_enabled self)),
      (''aws_secretsmanager_name'', DOpt (aws_secretsmanager_name self)),
      (''aws_secretsmanager_region'', DOpt (aws_secretsmanager_region self)),
      (''aws_ec2_instance_id'', DOpt (aws_ec2_instance_id self)),
      (''aws_ec2_region'', DOpt (aws_ec2_region self)),
      (''access_log_path'', DOpt (access_log_path self)),
      (''http_log_path'', DOpt (http_log_path self)),
      (''cluster_node_list_url'', DOpt (cluster_node_list_url self)),
      (''cluster_node_host'', DOpt (cluster_node_host self)),
      (''cluster_node_role'', DOpt (cluster_node_role self)),
      (''cluster_node_stage'', DOpt (cluster_node_stage self)),
      (''cluster_json_s3_bucket'', DOpt (cluster_json_s3_bucket self)),
      (''cluster_json_s3_key'', DOpt (cluster_json_s3_key self))]"

section \<open>Properties\<close>

text \<open>
  What the server prints of its configuration at its start does not depend on its
  secrets: with another API key of the same length and any other key of the update path, the
  output is the same.
\<close>

theorem debug_hides_secrets:
  "length k = length k' \<Longrightarrow>
     debug_fields (a\<lparr>cloudflare_api_key := Some k, update_cluster_key := u\<rparr>) =
     debug_fields (a\<lparr>cloudflare_api_key := Some k', update_cluster_key := u'\<rparr>)"
  by (simp add: debug_fields_def)

lemma str_replace_absent: "pat \<noteq> [] \<Longrightarrow> \<not> sublist pat s \<Longrightarrow> str_replace pat by s = s"
proof (induction pat "by" s rule: str_replace.induct)
  case (2 pat "by" c s)
  then have "\<not> prefix pat (c # s)" "\<not> sublist pat s"
    by (auto simp: sublist_Cons_right)
  with 2 show ?case by simp
qed simp

lemma str_replace_first:
  assumes "pat \<noteq> []" and clean: "hd pat \<notin> set a"
  shows "str_replace pat by (a @ pat @ b) = a @ by @ str_replace pat by b"
  using clean
proof (induction a)
  case Nil
  from assms(1) obtain c p where "pat = c # p" by (cases pat) auto
  then show ?case by simp
next
  case (Cons c a)
  then have "\<not> prefix pat ((c # a) @ pat @ b)"
    using assms(1) by (cases pat) auto
  with Cons assms(1) show ?case by simp
qed

definition example_args :: args where
  "example_args =
     \<lparr>http_host = Some ''verse.example.org'', use_https = True, lets_encrypt_email = [], cache = Some ''certs'',
      http_port = 443, udp_port = 8000, status_port = 9098, arg_max_connections = None,
      arg_max_connections_by_url = Some 100, arg_max_routing_results = 10, arg_public_ip = Some ''1.2.3.4'',
      arg_ice_servers = [], cloudflare_api_key = None, cloudflare_email = None, aws_secretsmanager_name = None,
      aws_secretsmanager_region = None, aws_secretsmanager_enabled = False, aws_ec2_instance_id = None,
      aws_ec2_region = Some ''ap-northeast-1'', prometheus_prefix = None, access_log_path = None,
      http_log_path = None, cluster_node_list_url = None, cluster_node_host = None, cluster_node_role = None,
      cluster_node_stage = None, cluster_json_s3_bucket = None, cluster_json_s3_key = None,
      update_cluster_key = None\<rparr>"

theorem debug_hides_secrets_witness:
  "debug_fields (example_args\<lparr>cloudflare_api_key := Some ''abc'', update_cluster_key := Some ''x''\<rparr>) =
   debug_fields (example_args\<lparr>cloudflare_api_key := Some ''xyz'', update_cluster_key := None\<rparr>)"
  by (rule debug_hides_secrets) simp

end
