(* ===== verification/Cluster_Glue.thy ===== *)
theory Cluster_Glue
  imports Server_State Server_Args
begin

text \<open>
  The server's side of the cluster, \<open>hubserv/src/cluster.rs\<close>: making the cluster client from the
  configuration, keeping its node list up to date, and sending a request to the server that works on
  its world. What the node list's URL answers is a parameter, one answer per attempt.
\<close>

datatype http_response = Status nat | RedirectTemporary string

abbreviation "BAD_REQUEST \<equiv> Status 400"
abbreviation "FORBIDDEN \<equiv> Status 403"
abbreviation "UNPROCESSABLE_ENTITY \<equiv> Status 422"
abbreviation "INTERNAL_SERVER_ERROR \<equiv> Status 500"
abbreviation "SERVICE_UNAVAILABLE \<equiv> Status 503"

section \<open>Operations\<close>

text \<open>\<open>assert_ne!\<close> panics when both hosts are the same.\<close>

definition create_client :: "args \<Rightarrow> client option outcome" where
  "create_client a =
     (case http_host a of
        None \<Rightarrow> Returns None
      | Some ch \<Rightarrow>
          (case cluster_node_host a of
             None \<Rightarrow> Returns None
           | Some nh \<Rightarrow>
               if ch = nh then Panic else Returns (Some (client_new nh ch))))"

definition load_node_list :: "node_list_data option \<Rightarrow> server_state \<Rightarrow> server_state \<times> bool" where
  "load_node_list answer s =
     (case answer of
        None \<Rightarrow> (s, False)
      | Some data \<Rightarrow>
          (case cluster_client s of
             None \<Rightarrow> (s, True)
           | Some c \<Rightarrow>
               if get_node_list c = Some (nodes data) then (s, True)
               else (s\<lparr>cluster_client := Some (set_node_list c data)\<rparr>, True)))"

text \<open>The attempts \<open>n .. 4\<close>, with the seconds slept between them.\<close>

fun first_loads ::
  "(nat \<Rightarrow> node_list_data option) \<Rightarrow> nat list \<Rightarrow> server_state \<Rightarrow> nat list \<Rightarrow> server_state \<times> nat list" where
  "first_loads answers [] s slept = (s, slept)"
| "first_loads answers (n # ns) s slept =
     (let (s, ok) = load_node_list (answers n) s in
      if ok then (s, slept) else first_loads answers ns s (slept @ [(n + 1) * 3]))"

datatype background = RefreshLoop string

text \<open>The state, the seconds slept, and the task left running.\<close>

definition start_client ::
  "(nat \<Rightarrow> node_list_data option) \<Rightarrow> args \<Rightarrow> server_state \<Rightarrow> server_state \<times> nat list \<times> background option" where
  "start_client answers a s =
     (case cluster_node_list_url a of
        None \<Rightarrow> (s, [], None)
      | Some node_list_url \<Rightarrow>
          if cluster_client s = None then (s, [], None)
          else let (s, slept) = first_loads answers [0..<5] s []
               in (s, slept, Some (RefreshLoop node_list_url)))"

definition redirect_if_needed :: "client \<Rightarrow> string \<Rightarrow> string \<Rightarrow> string \<Rightarrow> http_response + unit" where
  "redirect_if_needed c request_host world_url path =
     (case get_worker c world_url of
        Me \<Rightarrow> Ok ()
      | Nothing \<Rightarrow> Err FORBIDDEN
      | Other other_host \<Rightarrow>
          if can_redirect c request_host then Err (RedirectTemporary (''https://'' @ other_host @ path))
          else Err FORBIDDEN)"

section \<open>Properties\<close>

text \<open>
  With a public address and a host, the configuration always yields a cluster client, for
  the server's own name under the cluster's host: the assertion that the two differ cannot fail.
\<close>

theorem create_client_total:
  assumes ids: "node_id_ok shake hexenc" and a: "http_host a = Some h" "arg_public_ip a = Some ip"
  shows "create_client (set_other_args shake hexenc a) =
    Returns (Some (client_new (get_node_host shake hexenc ip h) h))"
proof -
  obtain pfx base where split: "split_host h = (pfx, base)" by (cases "split_host h")
  have "get_node_host shake hexenc ip h \<noteq> h"
    using node_record_name [OF ids split, of ip]
    by (cases "pfx = []") (simp_all add: get_node_host_def get_node_prefix_def split)
  then show ?thesis by (simp add: create_client_def set_other_args_def a)
qed

theorem create_client_total_witness:
  "create_client (set_other_args fold_xof hex_encode example_args) =
    Returns (Some (client_new (get_node_host fold_xof hex_encode ''1.2.3.4'' ''verse.example.org'') ''verse.example.org''))"
  by (rule create_client_total [OF node_id_ok_concrete]) (simp_all add: example_args_def)

text \<open>
  Property C25. A request is redirected at most once: where it is sent to, that server takes it if it has
  the same node list, and whatever list it has, it never redirects it again, as long as the server's
  name is not the cluster's.
\<close>

theorem redirected_once:
  assumes c1: "c1 = set_node_list (client_new n1 h) data"
    and sent: "redirect_if_needed c1 req u path = Err (RedirectTemporary (''https://'' @ n2 @ path))"
    and n2: "n2 \<noteq> h"
  shows "redirect_if_needed (set_node_list (client_new n2 h) data) n2 u path = Ok () \<and>
    (\<forall>data' loc. redirect_if_needed (set_node_list (client_new n2 h) data') n2 u path \<noteq> Err (RedirectTemporary loc))"
proof -
  from sent have "get_worker c1 u = Other n2"
    by (auto simp: redirect_if_needed_def split: worker.splits if_splits)
  then have "\<exists>nd. get_assigned_node c1 u = Some nd \<and> host nd = n2"
    by (auto simp: get_worker_def split: option.splits if_splits)
  then have "get_worker (set_node_list (client_new n2 h) data) u = Me"
    by (auto simp: c1 get_worker_def get_assigned_node_def get_node_list_def set_node_list_def client_new_def
      split: option.splits if_splits)
  then show ?thesis
    using n2 by (auto simp: redirect_if_needed_def can_redirect_def set_node_list_def client_new_def
      split: worker.splits)
qed

text \<open>
  Property C36. Starting the cluster client always ends, after at most five attempts and 45 seconds of
  waiting; it has then the first node list that was answered, or still none if every attempt failed.
\<close>

theorem start_client_loads:
  assumes "cluster_node_list_url a = Some url" and "cluster_client s = Some c" and "get_node_list c = None"
  shows "let (s', slept, bg) = start_client answers a s in
    bg = Some (RefreshLoop url) \<and> sum_list slept \<le> 45 \<and>
    (\<exists>c'. cluster_client s' = Some c' \<and>
      get_node_list c' = map_option nodes (case List.find (\<lambda>n. answers n \<noteq> None) [0..<5] of
        None \<Rightarrow> None | Some n \<Rightarrow> answers n))"
proof -
  have five: "[0..<5] = [0, 1, 2, 3, 4 :: nat]" by code_simp
  have load: "load_node_list (answers n) s =
      (case answers n of None \<Rightarrow> (s, False) | Some data \<Rightarrow> (s\<lparr>cluster_client := Some (set_node_list c data)\<rparr>, True))" for n
    using assms by (simp add: load_node_list_def split: option.split)
  show ?thesis
    using assms by (auto simp: start_client_def five load set_node_list_def get_node_list_def split: option.split)
qed

theorem start_client_loads_witness:
  "let answers = (\<lambda>n. if n = 2 then Some \<lparr>nodes = [\<lparr>host = ''a''\<rparr>]\<rparr> else None);
       (s', slept, bg) = start_client answers (example_args\<lparr>cluster_node_list_url := Some ''u''\<rparr>)
         (state_new None None 10 [] None (Some (client_new ''a'' ''c'')) None)
   in slept = [3, 6] \<and> map_option get_node_list (cluster_client s') = Some (Some [\<lparr>host = ''a''\<rparr>])"
proof -
  let ?answers = "\<lambda>n :: nat. if n = 2 then Some \<lparr>nodes = [\<lparr>host = ''a''\<rparr>]\<rparr> else None"
  let ?a = "example_args\<lparr>cluster_node_list_url := Some ''u''\<rparr>"
  let ?s = "state_new None None 10 [] None (Some (client_new ''a'' ''c'')) None"
  have five: "[0..<5] = [0, 1, 2, 3, 4 :: nat]" by code_simp
  have "cluster_client ?s = Some (client_new ''a'' ''c'')" by (simp add: state_new_def)
  moreover have "get_node_list (client_new ''a'' ''c'') = None" by (simp add: client_new_def get_node_list_def)
  ultimately have "let (s', slept, bg) = start_client ?answers ?a ?s in
      bg = Some (RefreshLoop ''u'') \<and> sum_list slept \<le> 45 \<and>
      (\<exists>c'. cluster_client s' = Some c' \<and> get_node_list c' = Some [\<lparr>host = ''a''\<rparr>])"
    using start_client_loads [of ?a "''u''" ?s "client_new ''a'' ''c''" ?answers] by (simp add: five)
  moreover have "fst (snd (start_client ?answers ?a ?s)) = [3, 6]"
    by (simp add: start_client_def five load_node_list_def state_new_def client_new_def get_node_list_def)
  ultimately show ?thesis by (auto simp: Let_def split: prod.splits)
qed

theorem redirected_once_witness:
  "redirect_if_needed (set_node_list (client_new ''b'' ''c'') \<lparr>nodes = [\<lparr>host = ''b''\<rparr>]\<rparr>) ''b'' ''w'' ''/enter'' = Ok ()"
proof -
  have "redirect_if_needed (set_node_list (client_new ''a'' ''c'') \<lparr>nodes = [\<lparr>host = ''b''\<rparr>]\<rparr>) ''c'' ''w'' ''/enter'' =
      Err (RedirectTemporary (''https://'' @ ''b'' @ ''/enter''))"
    by (simp add: redirect_if_needed_def client_defs)
  from redirected_once [OF refl this] show ?thesis by simp
qed

end
