(* ===== verification/Entrance_Router.thy ===== *)
theory Entrance_Router
  imports Swarm_Rpc Request_Types Cluster_Glue
begin

text \<open>
  The entrance itself, \<open>hubserv/src/entrance_server_router.rs\<close>: the two HTTP handlers and the
  callbacks they install on a peer connection and on its data channel. The server becomes a machine:
  the shared state, the peer connections with what their callbacks have captured, and the data
  channels with theirs. A handler that awaits is split where other tasks can run in between; the
  parts between two awaits are atomic.
\<close>

section \<open>The machine\<close>

text \<open>
  What the callbacks of a peer connection hold. \<open>pe_request\<close> is the request the connection was made
  for; the program does not keep it, the invariant below speaks of it.
\<close>

record peer =
  pe_session :: session_id
  pe_url :: string
  pe_raw_url :: string
  pe_headers :: "string \<Rightarrow> string option"
  pe_log_sent :: bool
  pe_request :: signed_request

text \<open>What the message callback of a data channel holds: weak references to all but the session.\<close>

record channel =
  ch_client :: cd_ref
  ch_pc :: pc
  ch_session :: session_id

record machine =
  srv :: server_state
  peers :: "pc \<Rightarrow> peer option"
  channels :: "dc \<Rightarrow> channel option"

text \<open>The crates the handlers use beside those of \<open>world\<close>.\<close>

record http_api =
  h_url_parser :: url_parser
  h_warn_enabled :: bool
  h_enter_json :: "string \<Rightarrow> enter_request_payload option"
  h_candidate_json :: "string \<Rightarrow> candidate_request_payload option"

record peer_api =
  p_set_remote_ok :: "pc \<Rightarrow> session_description \<Rightarrow> bool"
  p_create_answer :: "pc \<Rightarrow> session_description option"
  p_set_local_ok :: "pc \<Rightarrow> session_description \<Rightarrow> bool"
  p_local_description :: "pc \<Rightarrow> session_description option"
  p_in_time :: "pc \<Rightarrow> bool"

section \<open>Entering\<close>

text \<open>Up to the new peer connection: verification, the URL, the cluster, the limits.\<close>

definition enter_check ::
  "world \<Rightarrow> http_api \<Rightarrow> string \<Rightarrow> signed_request \<Rightarrow> server_state \<Rightarrow>
     (http_response + session_id \<times> enter_request_payload) outcome" where
  "enter_check w h request_host req s =
     (case verify (w_sid w) (h_enter_json h) (enter_normalize (h_url_parser h) (h_warn_enabled h)) req of
        Panic \<Rightarrow> Panic
      | Returns (Inl _) \<Rightarrow> Returns (Err INTERNAL_SERVER_ERROR)
      | Returns (Inr (sid, pl)) \<Rightarrow>
          if pl_url pl = [] \<or> sdp (pl_sdp pl) = [] then Returns (Err BAD_REQUEST) else
          (case (case cluster_client s of
                   None \<Rightarrow> Ok ()
                 | Some c \<Rightarrow> redirect_if_needed c request_host (pl_url pl) ''/enter'') of
             Inl r \<Rightarrow> Returns (Err r)
           | Inr _ \<Rightarrow>
               if \<not> is_new_connection_available (pl_url pl) s then Returns (Err SERVICE_UNAVAILABLE)
               else Returns (Ok (sid, pl))))"

text \<open>The callbacks on the states of the new connection capture the session, the URLs and the headers.\<close>

definition open_peer ::
  "pc \<Rightarrow> session_id \<Rightarrow> enter_request_payload \<Rightarrow> (string \<Rightarrow> string option) \<Rightarrow> signed_request \<Rightarrow> machine \<Rightarrow> machine" where
  "open_peer p sid pl headers req m =
     m\<lparr>peers := (peers m)(p \<mapsto>
        \<lparr>pe_session = sid, pe_url = pl_url pl, pe_raw_url = pl_raw_url pl, pe_headers = headers,
         pe_log_sent = False, pe_request = req\<rparr>)\<rparr>"

definition setup_pc :: "peer_api \<Rightarrow> pc \<Rightarrow> session_description \<Rightarrow> http_response + session_description" where
  "setup_pc api p offer =
     (if \<not> p_set_remote_ok api p offer then Err BAD_REQUEST else
      case p_create_answer api p of
        None \<Rightarrow> Err INTERNAL_SERVER_ERROR
      | Some answer \<Rightarrow>
          if \<not> p_set_local_ok api p answer then Err INTERNAL_SERVER_ERROR else
          (case p_local_description api p of
             None \<Rightarrow> Err INTERNAL_SERVER_ERROR
           | Some answer \<Rightarrow> Ok answer))"

text \<open>The setup has five seconds; a connection that is not set up is closed.\<close>

definition enter_setup ::
  "peer_api \<Rightarrow> pc \<Rightarrow> session_description \<Rightarrow> machine \<Rightarrow> machine \<times> (http_response + session_description)" where
  "enter_setup api p offer m =
     (if \<not> p_in_time api p then (m\<lparr>srv := emit [PcClose p] (srv m)\<rparr>, Err INTERNAL_SERVER_ERROR)
      else case setup_pc api p offer of
             Inl e \<Rightarrow> (m\<lparr>srv := emit [PcClose p] (srv m)\<rparr>, Err e)
           | Inr answer \<Rightarrow> (m, Ok answer))"

definition enter_register :: "world \<Rightarrow> session_id \<Rightarrow> enter_request_payload \<Rightarrow> pc \<Rightarrow> machine \<Rightarrow> machine \<times> bool" where
  "enter_register w sid pl p m =
     (let s = remove_connection (w_sid w) sid (srv m);
          (s, r) = alloc_client (client_data_new sid p (pl_url pl)) s;
          (s, added) = add_connection r s
      in if \<not> added then (m\<lparr>srv := emit [PcClose p] s\<rparr>, False) else (m\<lparr>srv := s\<rparr>, True))"

text \<open>
  The whole handler. \<open>new_pc\<close> is the crate's new connection. \<open>meanwhile\<close> is what the other tasks of the
  server do while it awaits: first the new connection, then the setup of at most five seconds.
\<close>

definition enter ::
  "world \<Rightarrow> http_api \<Rightarrow> peer_api \<Rightarrow> pc option \<Rightarrow> (nat \<Rightarrow> machine \<Rightarrow> machine) \<Rightarrow> string \<Rightarrow>
     (string \<Rightarrow> string option) \<Rightarrow> signed_request \<Rightarrow> machine \<Rightarrow>
     machine \<times> (http_response + session_description) outcome" where
  "enter w h api new_pc meanwhile request_host headers req m =
     (case enter_check w h request_host req (srv m) of
        Panic \<Rightarrow> (m, Panic)
      | Returns (Inl e) \<Rightarrow> (m, Returns (Err e))
      | Returns (Inr (sid, pl)) \<Rightarrow>
          let m = meanwhile 0 m in
          (case new_pc of
             None \<Rightarrow> (m, Returns (Err INTERNAL_SERVER_ERROR))
           | Some p \<Rightarrow>
               let m = meanwhile 1 (open_peer p sid pl headers req m) in
               (case enter_setup api p (pl_sdp pl) m of
                  (m, Inl e) \<Rightarrow> (m, Returns (Err e))
                | (m, Inr answer) \<Rightarrow>
                    (case enter_register w sid pl p m of
                       (m, False) \<Rightarrow> (m, Returns (Err SERVICE_UNAVAILABLE))
                     | (m, True) \<Rightarrow> (m, Returns (Ok answer))))))"

section \<open>Candidates\<close>

definition candidate ::
  "world \<Rightarrow> http_api \<Rightarrow> string \<Rightarrow> signed_request \<Rightarrow> server_state \<Rightarrow> server_state \<times> (http_response + unit) outcome" where
  "candidate w h request_host req s =
     (case verify (w_sid w) (h_candidate_json h) (candidate_normalize (h_url_parser h) (h_warn_enabled h)) req of
        Panic \<Rightarrow> (s, Panic)
      | Returns (Inl _) \<Rightarrow> (s, Returns (Err INTERNAL_SERVER_ERROR))
      | Returns (Inr (sid, pl)) \<Rightarrow>
          if pl_url pl = [] \<or> pl_sdp pl = [] then (s, Returns (Err UNPROCESSABLE_ENTITY)) else
          (case (case cluster_client s of
                   None \<Rightarrow> Ok ()
                 | Some c \<Rightarrow> redirect_if_needed c request_host (pl_url pl) ''/candidate'') of
             Inl r \<Rightarrow> (s, Returns (Err r))
           | Inr _ \<Rightarrow>
               (case get_connection sid s of
                  None \<Rightarrow> (s, Returns (Err BAD_REQUEST))
                | Some r \<Rightarrow>
                    (case add_ice_candidate (w_rtc w) (the (cds s r)) (pl_sdp pl) of
                       (es, Inl _) \<Rightarrow> (emit es s, Returns (Err INTERNAL_SERVER_ERROR))
                     | (es, Inr _) \<Rightarrow> (emit es s, Returns (Ok ()))))))"

section \<open>Callbacks\<close>

datatype ice_state = IceUnspecified | IceNew | IceChecking | IceConnected | IceCompleted | IceDisconnected | IceFailed | IceClosed

datatype peer_state = PcUnspecified | PcNew | PcConnecting | PcConnected | PcDisconnected | PcFailed | PcClosed

definition on_ice_state :: "world \<Rightarrow> pc \<Rightarrow> ice_state \<Rightarrow> machine \<Rightarrow> machine" where
  "on_ice_state w p st m =
     (case peers m p of
        None \<Rightarrow> m
      | Some pe \<Rightarrow>
          if st = IceDisconnected \<or> st = IceFailed \<or> st = IceClosed
          then m\<lparr>srv := remove_connection (w_sid w) (pe_session pe) (srv m)\<rparr>
          else m)"

definition on_peer_state :: "world \<Rightarrow> pc \<Rightarrow> peer_state \<Rightarrow> machine \<Rightarrow> machine" where
  "on_peer_state w p st m =
     (case peers m p of
        None \<Rightarrow> m
      | Some pe \<Rightarrow>
          let m = (if st = PcConnected \<and> \<not> pe_log_sent pe
                   then let cc = (case get_url_data (pe_url pe) (srv m) of
                                    Some ud \<Rightarrow> get_client_count ud | None \<Rightarrow> 1)
                        in m\<lparr>peers := (peers m)(p \<mapsto> pe\<lparr>pe_log_sent := True\<rparr>),
                             srv := append_access_log cc (pe_raw_url pe) (pe_headers pe) (srv m)\<rparr>
                   else m)
          in if st = PcFailed \<or> st = PcDisconnected \<or> st = PcClosed
             then m\<lparr>srv := remove_connection (w_sid w) (pe_session pe) (srv m)\<rparr>
             else m)"

text \<open>The channel goes to the client registered for the session at that time.\<close>

definition on_data_channel :: "pc \<Rightarrow> dc \<Rightarrow> machine \<Rightarrow> machine" where
  "on_data_channel p d m =
     (case peers m p of
        None \<Rightarrow> m
      | Some pe \<Rightarrow>
          (case get_connection (pe_session pe) (srv m) of
             None \<Rightarrow> m
           | Some r \<Rightarrow>
               m\<lparr>srv := modify_client r (\<lambda>cd. set_dc cd d) (srv m),
                 channels := (channels m)(d \<mapsto> \<lparr>ch_client = r, ch_pc = p, ch_session = pe_session pe\<rparr>)\<rparr>))"

text \<open>
  Which of the weak references the callback holds still lead to their objects. A message for a world
  that has moved to another server closes the channel and the connection.
\<close>

record upgrades =
  up_client :: bool
  up_state :: bool
  up_dc :: bool
  up_pc :: bool

definition on_message :: "world \<Rightarrow> upgrades \<Rightarrow> dc \<Rightarrow> bytes \<Rightarrow> machine \<Rightarrow> machine \<times> unit outcome" where
  "on_message w upgraded d data m =
     (case channels m d of
        None \<Rightarrow> (m, Returns ())
      | Some ch \<Rightarrow>
          if \<not> up_client upgraded \<or> \<not> up_state upgraded then (m, Returns ()) else
          let s = srv m; u = cd_url (the (cds s (ch_client ch))) in
          if (case cluster_client s of None \<Rightarrow> False | Some c \<Rightarrow> \<not> is_my_work c u)
          then let s = (if up_dc upgraded then emit [DcClose d] s else s);
                   s = (if up_pc upgraded then emit [PcClose (ch_pc ch)] s else s)
               in (m\<lparr>srv := remove_connection (w_sid w) (ch_session ch) s\<rparr>, Returns ())
          else (case on_rtc_message w (ch_client ch) data s of
                  (s, Panic) \<Rightarrow> (m\<lparr>srv := s\<rparr>, Panic)
                | (s, Returns _) \<Rightarrow> (m\<lparr>srv := s\<rparr>, Returns ())))"

end
