(* ===== verification/Common_Tools.thy ===== *)
theory Common_Tools
  imports Verse_Prelude
begin

text \<open>
  The crate \<open>common\<close>: errors of HTTP requests, joining URLs, expiry and mocked time, the measure of
  bandwidth, end-to-end encryption and logging of results. The ciphers, the key exchange, the random
  source and the clock are parameters. Arithmetic wraps, as in the release profile.
\<close>

section \<open>Errors\<close>

text \<open>\<open>AppError\<close> of \<open>errors.rs\<close>, with the source file and line of each.\<close>

datatype app_error =
    Js string string u32
  | JsBind string u32
  | Rtc string u32
  | HttpBadRequest u16 string u32
  | HttpServer u16 string u32
  | HttpOther u16 string u32
  | Timeout string u32
  | Required string u32
  | WeakNil string u32
  | NotImpl string u32
  | Convert string u32

definition is_service_unavailable :: "app_error \<Rightarrow> bool" where
  "is_service_unavailable e = (case e of HttpServer code _ _ \<Rightarrow> code = 503 | _ \<Rightarrow> False)"

definition http_error :: "u16 \<Rightarrow> string \<Rightarrow> u32 \<Rightarrow> app_error" where
  "http_error status file line =
     (if 400 \<le> status \<and> status \<le> 499 then HttpBadRequest status file line
      else if 500 \<le> status then HttpServer status file line
      else HttpOther status file line)"

text \<open>The macros give an error the place where they are used; some take a message, put before the file.\<close>

definition with_message :: "string option \<Rightarrow> string \<Rightarrow> string" where
  "with_message v file = (case v of None \<Rightarrow> file | Some v \<Rightarrow> v @ '',   '' @ file)"

definition timeout_error :: "string option \<Rightarrow> string \<Rightarrow> u32 \<Rightarrow> app_error" where
  "timeout_error v file line = Timeout (with_message v file) line"

definition convert_error :: "string option \<Rightarrow> string \<Rightarrow> u32 \<Rightarrow> app_error" where
  "convert_error v file line = Convert (with_message v file) line"

definition rtc_error :: "string option \<Rightarrow> string \<Rightarrow> u32 \<Rightarrow> app_error" where
  "rtc_error v file line = Rtc (with_message v file) line"

definition js_error :: "string \<Rightarrow> string \<Rightarrow> u32 \<Rightarrow> app_error" where
  "js_error v file line = Js v file line"

definition required_error :: "string \<Rightarrow> u32 \<Rightarrow> app_error" where
  "required_error file line = Required file line"

definition weak_error :: "string \<Rightarrow> u32 \<Rightarrow> app_error" where
  "weak_error file line = WeakNil file line"

definition notimpl_error :: "string \<Rightarrow> u32 \<Rightarrow> app_error" where
  "notimpl_error file line = NotImpl file line"

definition jsbind_error :: "string \<Rightarrow> u32 \<Rightarrow> app_error" where
  "jsbind_error file line = JsBind file line"

text \<open>How an error is shown, \<open>#[error(...)]\<close>.\<close>

fun show_app_error :: "app_error \<Rightarrow> string" where
  "show_app_error (Js m f l) = ''js error: '' @ m @ '' at '' @ f @ '':'' @ show_nat (unat l)"
| "show_app_error (JsBind f l) = ''js bind error: '' @ f @ '':'' @ show_nat (unat l)"
| "show_app_error (Rtc f l) = ''rtc error: '' @ f @ '':'' @ show_nat (unat l)"
| "show_app_error (HttpBadRequest c f l) =
     ''http bad request error: '' @ show_nat (unat c) @ '' at '' @ f @ '':'' @ show_nat (unat l)"
| "show_app_error (HttpServer c f l) =
     ''http server error: '' @ show_nat (unat c) @ '' at '' @ f @ '':'' @ show_nat (unat l)"
| "show_app_error (HttpOther c f l) =
     ''http error: '' @ show_nat (unat c) @ '' at '' @ f @ '':'' @ show_nat (unat l)"
| "show_app_error (Timeout f l) = ''timeout: '' @ f @ '':'' @ show_nat (unat l)"
| "show_app_error (Required f l) = ''required: '' @ f @ '':'' @ show_nat (unat l)"
| "show_app_error (WeakNil f l) = ''weak nil: '' @ f @ '':'' @ show_nat (unat l)"
| "show_app_error (NotImpl f l) = ''not impl: '' @ f @ '':'' @ show_nat (unat l)"
| "show_app_error (Convert f l) = ''convert: '' @ f @ '':'' @ show_nat (unat l)"

text \<open>
  \<open>post_string\<close> of \<open>http.rs\<close>: the request fails, or gives a status and a body, which may fail to be
  read. The line is that of the macro in the source.
\<close>

datatype post_error = RequestFailed | BodyFailed | App app_error

definition post_string ::
  "(string \<Rightarrow> string \<Rightarrow> string \<Rightarrow> (u16 \<times> string option) option) \<Rightarrow> string \<Rightarrow> string \<Rightarrow> string \<Rightarrow> string \<Rightarrow> u32 \<Rightarrow>
     post_error + string" where
  "post_string send url body content_type file line =
     (case send url content_type body of
        None \<Rightarrow> Err RequestFailed
      | Some (status, text) \<Rightarrow>
          if \<not> (200 \<le> status \<and> status \<le> 299) then Err (App (http_error status file line))
          else (case text of None \<Rightarrow> Err BodyFailed | Some t \<Rightarrow> Ok t))"

text \<open>
  The one for browsers makes the same request through the JavaScript interface, each call of which may
  fail with a value that is shown in the error; the response may have no text, or something else.
\<close>

datatype js_text = TextFails string | TextRejected string | NotAString | JsText string

record browser =
  br_new_request :: "string \<Rightarrow> string \<Rightarrow> string + unit"
  br_set_content_type :: "string \<Rightarrow> string + unit"
  br_window :: bool
  br_fetch :: "string \<Rightarrow> string \<Rightarrow> string \<Rightarrow> string + (string + u16 \<times> js_text)"

definition js_post_string ::
  "browser \<Rightarrow> string \<Rightarrow> (nat \<Rightarrow> u32) \<Rightarrow> string \<Rightarrow> string \<Rightarrow> string \<Rightarrow> app_error + string" where
  "js_post_string br file line url body content_type =
     (case br_new_request br url body of Inl e \<Rightarrow> Err (js_error e file (line 0)) | Inr _ \<Rightarrow>
      case br_set_content_type br content_type of Inl e \<Rightarrow> Err (js_error e file (line 1)) | Inr _ \<Rightarrow>
      if \<not> br_window br then Err (required_error file (line 2)) else
      case br_fetch br url content_type body of
        Inl e \<Rightarrow> Err (js_error e file (line 3))
      | Inr (Inl e) \<Rightarrow> Err (js_error e file (line 4))
      | Inr (Inr (status, text)) \<Rightarrow>
          if \<not> (200 \<le> status \<and> status \<le> 299) then Err (http_error status file (line 5))
          else (case text of
                  TextFails e \<Rightarrow> Err (js_error e file (line 6))
                | TextRejected e \<Rightarrow> Err (js_error e file (line 7))
                | NotAString \<Rightarrow> Err (required_error file (line 8))
                | JsText t \<Rightarrow> Ok t))"

section \<open>Logging of results\<close>

datatype log_level = LError | LWarn | LInfo | LDebug | LTrace

text \<open>The order of \<open>log::Level\<close>: an error is least, so that a filter lets through what is not greater.\<close>

fun level_rank :: "log_level \<Rightarrow> nat" where
  "level_rank LError = 1"
| "level_rank LWarn = 2"
| "level_rank LInfo = 3"
| "level_rank LDebug = 4"
| "level_rank LTrace = 5"

lemma level_rank_inject: "level_rank a = level_rank b \<longleftrightarrow> a = b"
  by (cases a; cases b) simp_all

instantiation log_level :: linorder
begin

definition less_eq_log_level :: "log_level \<Rightarrow> log_level \<Rightarrow> bool" where
  "less_eq_log_level a b \<longleftrightarrow> level_rank a \<le> level_rank b"

definition less_log_level :: "log_level \<Rightarrow> log_level \<Rightarrow> bool" where
  "less_log_level a b \<longleftrightarrow> level_rank a < level_rank b"

instance
  by standard (auto simp: less_eq_log_level_def less_log_level_def level_rank_inject)

end

text \<open>A line is written if its level is not above the greatest one in use.\<close>

definition log_at :: "log_level \<Rightarrow> log_level \<Rightarrow> string \<Rightarrow> (log_level \<times> string) list" where
  "log_at max_level level msg = (if level \<le> max_level then [(level, msg)] else [])"

definition if_err :: "log_level \<Rightarrow> log_level \<Rightarrow> string \<Rightarrow> ('e \<Rightarrow> string) \<Rightarrow> 'e + 'a \<Rightarrow> (log_level \<times> string) list" where
  "if_err max_level level msg debug res =
     (case res of Inl e \<Rightarrow> log_at max_level level (''result failed: '' @ msg @ '' '' @ debug e) | Inr _ \<Rightarrow> [])"

text \<open>A failure that shows at one level shows at every greater one, and a success never does.\<close>

lemma if_err_shown:
  "if_err m level msg debug res \<noteq> [] \<longleftrightarrow> level \<le> m \<and> (\<exists>e. res = Inl e)"
  "if_err m level msg debug res \<noteq> [] \<Longrightarrow> m \<le> m' \<Longrightarrow> if_err m' level msg debug res = if_err m level msg debug res"
  by (auto simp: if_err_def log_at_def split: sum.splits if_splits intro: order_trans)

section \<open>URLs and time\<close>

definition url_join :: "string \<Rightarrow> string \<Rightarrow> string" where
  "url_join base_url url =
     (if ends_with_char base_url CHR ''/''
      then (case url of
              [] \<Rightarrow> base_url @ url
            | c # rest \<Rightarrow> if c = CHR ''/'' then base_url @ rest else base_url @ url)
      else if url \<noteq> [] \<and> hd url = CHR ''/'' then base_url @ url
      else base_url @ ''/'' @ url)"

definition is_expired :: "u64 \<Rightarrow> u64 \<Rightarrow> u64 \<Rightarrow> bool" where
  "is_expired now_msec last_modified expire_msec \<longleftrightarrow> last_modified + expire_msec \<le> now_msec"

text \<open>The clock gives the seconds since 1970 and the milliseconds of the current second.\<close>

definition get_now_msec :: "int \<Rightarrow> nat \<Rightarrow> u64" where
  "get_now_msec timestamp millis = word_of_int (timestamp * 1000 + int millis)"

definition get_now_sec :: "int \<Rightarrow> u64" where
  "get_now_sec timestamp = word_of_int timestamp"

text \<open>The mocked clock is a cell; zero stands for the real one.\<close>

definition set_mock_now :: "u64 \<Rightarrow> u64 \<Rightarrow> u64" where
  "set_mock_now msec cell = msec"

definition clear_mock_now :: "u64 \<Rightarrow> u64" where
  "clear_mock_now cell = 0"

definition mock_now_msec :: "u64 \<Rightarrow> u64 \<Rightarrow> u64" where
  "mock_now_msec real cell = (if cell = 0 then real else cell)"

definition mock_now_sec :: "u64 \<Rightarrow> u64 \<Rightarrow> u64" where
  "mock_now_sec real cell = mock_now_msec real cell div 1000"

section \<open>Bandwidth\<close>

definition DEFAULT_MIN_SPAN_MS :: u64 where "DEFAULT_MIN_SPAN_MS = 1000"

record band_width =
  bw_created :: u64
  bw_begin :: u64
  bw_bytes_total :: usize
  bw_bytes_per_second :: u64
  bw_min_span_ms :: u64

definition band_width_new_with :: "u64 \<Rightarrow> band_width" where
  "band_width_new_with min_span =
     \<lparr>bw_created = 0, bw_begin = 0, bw_bytes_total = 0, bw_bytes_per_second = 0, bw_min_span_ms = min_span\<rparr>"

definition band_width_new :: band_width where
  "band_width_new = band_width_new_with DEFAULT_MIN_SPAN_MS"

definition bits_per_second :: "band_width \<Rightarrow> u64" where
  "bits_per_second self = bw_bytes_per_second self * 8"

definition add_bytes :: "usize \<Rightarrow> u64 \<Rightarrow> band_width \<Rightarrow> band_width outcome" where
  "add_bytes byte_len now self =
     (let self = (if bw_begin self = 0 then self\<lparr>bw_begin := now\<rparr> else self);
          self = self\<lparr>bw_bytes_total := bw_bytes_total self + byte_len\<rparr>;
          ms = now - bw_begin self
      in if ms < bw_min_span_ms self then Returns self
         else if ms div 1000 = 0 then Panic
         else Returns (self\<lparr>bw_bytes_per_second := bw_bytes_total self div (ms div 1000),
                            bw_created := now, bw_begin := 0, bw_bytes_total := 0\<rparr>))"

fun add_all :: "(usize \<times> u64) list \<Rightarrow> band_width \<Rightarrow> band_width outcome" where
  "add_all [] self = Returns self"
| "add_all ((n, t) # xs) self = (case add_bytes n t self of Panic \<Rightarrow> Panic | Returns self \<Rightarrow> add_all xs self)"

section \<open>Encryption between two clients\<close>

definition NONCE_SIZE :: nat where "NONCE_SIZE = 12"

text \<open>X25519 and AES-256-GCM; both crates' operations may fail.\<close>

record crypto_api =
  dh_public :: "bytes \<Rightarrow> bytes"
  dh_shared :: "bytes \<Rightarrow> bytes \<Rightarrow> bytes"
  aead_key_ok :: "bytes \<Rightarrow> bool"
  aead_encrypt :: "bytes \<Rightarrow> bytes \<Rightarrow> bytes \<Rightarrow> bytes option"
  aead_decrypt :: "bytes \<Rightarrow> bytes \<Rightarrow> bytes \<Rightarrow> bytes option"

datatype crypto_error = RandomFailed | BadKey | AeadFailed

record e2e_key_set =
  my_public :: bytes
  peer_public :: bytes
  shared_secret :: bytes

text \<open>The random source gives as many bytes as asked for, or fails.\<close>

definition create_static_secret :: "(nat \<Rightarrow> bytes option) \<Rightarrow> crypto_error + bytes" where
  "create_static_secret getrandom = (case getrandom 32 of None \<Rightarrow> Err RandomFailed | Some sk \<Rightarrow> Ok sk)"

definition e2e_new_with_secret :: "crypto_api \<Rightarrow> bytes \<Rightarrow> bytes \<Rightarrow> e2e_key_set" where
  "e2e_new_with_secret c peer secret =
     \<lparr>my_public = dh_public c secret, peer_public = peer, shared_secret = dh_shared c secret peer\<rparr>"

definition e2e_new :: "crypto_api \<Rightarrow> (nat \<Rightarrow> bytes option) \<Rightarrow> bytes \<Rightarrow> crypto_error + e2e_key_set" where
  "e2e_new c getrandom peer =
     (case create_static_secret getrandom of
        Inl e \<Rightarrow> Err e
      | Inr secret \<Rightarrow>
          Ok \<lparr>my_public = dh_public c secret, peer_public = peer, shared_secret = dh_shared c secret peer\<rparr>)"

definition e2e_encrypt :: "crypto_api \<Rightarrow> (nat \<Rightarrow> bytes option) \<Rightarrow> e2e_key_set \<Rightarrow> bytes \<Rightarrow> crypto_error + bytes" where
  "e2e_encrypt c getrandom self data =
     (if \<not> aead_key_ok c (shared_secret self) then Err BadKey else
      case getrandom NONCE_SIZE of
        None \<Rightarrow> Err RandomFailed
      | Some nonce \<Rightarrow>
          (case aead_encrypt c (shared_secret self) nonce data of
             None \<Rightarrow> Err AeadFailed
           | Some encrypted \<Rightarrow> Ok (nonce @ encrypted)))"

text \<open>The slice panics on data that is shorter than a nonce.\<close>

definition e2e_decrypt :: "crypto_api \<Rightarrow> e2e_key_set \<Rightarrow> bytes \<Rightarrow> (crypto_error + bytes) outcome" where
  "e2e_decrypt c self data =
     (if \<not> aead_key_ok c (shared_secret self) then Returns (Err BadKey) else
      if length data < NONCE_SIZE then Panic else
      case aead_decrypt c (shared_secret self) (take NONCE_SIZE data) (drop NONCE_SIZE data) of
        None \<Rightarrow> Returns (Err AeadFailed)
      | Some plain \<Rightarrow> Returns (Ok plain))"

section \<open>Properties\<close>

text \<open>
  What a caller of \<open>post_string\<close> can tell: it gets a body exactly for an answer of the
  class 200; an answer of the class 400 is a bad request, one above is a server error, any other is
  neither, and the test for an unavailable service is true exactly for the answer 503.
\<close>

theorem post_string_answers:
  assumes sent: "send url content_type body = Some (status, Some text)"
  shows "(post_string send url body content_type file line = Ok text \<longleftrightarrow> 200 \<le> status \<and> status \<le> 299) \<and>
    (\<forall>e. post_string send url body content_type file line = Err (App e) \<longrightarrow>
       ((\<exists>l f. e = HttpBadRequest status f l) \<longleftrightarrow> 400 \<le> status \<and> status \<le> 499) \<and>
       ((\<exists>l f. e = HttpServer status f l) \<longleftrightarrow> 500 \<le> status) \<and>
       (is_service_unavailable e \<longleftrightarrow> status = 503))"
proof -
  have "500 \<le> status \<Longrightarrow> \<not> status \<le> 499" for status :: u16 by unat_arith
  then show ?thesis
    by (auto simp: post_string_def sent http_error_def is_service_unavailable_def split: if_splits)
qed

text \<open>Every error is shown with the place it comes from, last.\<close>

lemma error_location:
  "\<exists>kind f l. show_app_error e = kind @ f @ '':'' @ show_nat (unat l) \<and>
     e \<in> {JsBind f l, Rtc f l, Timeout f l, Required f l, WeakNil f l, NotImpl f l, Convert f l} \<union>
       {Js m f l |m. True} \<union> {HttpBadRequest c f l |c. True} \<union> {HttpServer c f l |c. True} \<union> {HttpOther c f l |c. True}"
proof (cases e)
  case (Js m f l)
  then have "show_app_error e = (''js error: '' @ m @ '' at '') @ f @ '':'' @ show_nat (unat l)" by simp
  with Js show ?thesis by blast
next
  case (HttpBadRequest c f l)
  then have "show_app_error e = (''http bad request error: '' @ show_nat (unat c) @ '' at '') @ f @ '':'' @ show_nat (unat l)"
    by simp
  with HttpBadRequest show ?thesis by blast
next
  case (HttpServer c f l)
  then have "show_app_error e = (''http server error: '' @ show_nat (unat c) @ '' at '') @ f @ '':'' @ show_nat (unat l)"
    by simp
  with HttpServer show ?thesis by blast
next
  case (HttpOther c f l)
  then have "show_app_error e = (''http error: '' @ show_nat (unat c) @ '' at '') @ f @ '':'' @ show_nat (unat l)" by simp
  with HttpOther show ?thesis by blast
qed (simp only: show_app_error.simps, blast)+

text \<open>
  In a browser and outside, a caller sees the same: when nothing goes wrong on the way, both give the
  text of the answer or the same kind of error.
\<close>

lemma post_string_browser:
  assumes "br_new_request br url body = Ok ()" "br_set_content_type br ct = Ok ()" "br_window br"
    and "br_fetch br url ct body = Ok (Ok (status, JsText text))" "send url ct body = Some (status, Some text)"
  shows "post_string send url body ct file (line 5) =
    (case js_post_string br file line url body ct of Inl e \<Rightarrow> Err (App e) | Inr t \<Rightarrow> Ok t)"
  using assms by (simp add: post_string_def js_post_string_def)

text \<open>
  Joining puts exactly one slash between the two parts, whether the first one ends with a
  slash, the second one begins with one, both or neither.
\<close>

theorem url_join_one_slash:
  "url_join base url =
     (if ends_with_char base CHR ''/'' then butlast base else base) @ ''/'' @
     (if url \<noteq> [] \<and> hd url = CHR ''/'' then tl url else url)"
proof -
  have "ends_with_char base CHR ''/'' \<Longrightarrow> butlast base @ CHR ''/'' # s = base @ s" for s
    by (cases base rule: rev_cases) (simp_all add: ends_with_char_def)
  then show ?thesis by (cases url) (simp_all add: url_join_def)
qed

text \<open>Both readings of the clock agree, except within a leap second.\<close>

lemma clocks_agree:
  assumes "0 \<le> timestamp" "timestamp < 2 ^ 53" "millis < 1000"
  shows "get_now_msec timestamp millis div 1000 = get_now_sec timestamp"
proof -
  have small: "timestamp * 1000 + int millis < 2 ^ 64" "timestamp < 2 ^ 64" using assms by simp_all
  have word: "uint (word_of_int n :: u64) = n" if "0 \<le> n" "n < 2 ^ 64" for n
    using that by (simp only: uint_word_of_int) simp
  have "uint (get_now_msec timestamp millis) = timestamp * 1000 + int millis"
    unfolding get_now_msec_def using small(1) assms(1) by (intro word) simp_all
  moreover have "uint (get_now_sec timestamp) = timestamp"
    unfolding get_now_sec_def using small(2) assms(1) by (intro word) simp_all
  ultimately have "uint (get_now_msec timestamp millis div 1000) = uint (get_now_sec timestamp)"
    using assms(3) by (simp add: uint_div)
  then show ?thesis by (simp only: word_uint_eq_iff)
qed

lemma add_bytes_in_window:
  assumes "bw_begin self = since" "since \<noteq> 0" "t - since < bw_min_span_ms self"
  shows "add_bytes n t self = Returns (self\<lparr>bw_bytes_total := bw_bytes_total self + n\<rparr>)"
  using assms by (simp add: add_bytes_def)

lemma add_all_in_window:
  assumes "bw_begin self = since" "since \<noteq> 0" "\<forall>(n, t)\<in>set xs. t - since < bw_min_span_ms self"
  shows "add_all xs self = Returns (self\<lparr>bw_bytes_total := bw_bytes_total self + sum_list (map fst xs)\<rparr>)"
  using assms
proof (induction xs arbitrary: self)
  case (Cons x xs)
  obtain n t where x: "x = (n, t)" by (cases x)
  have "add_bytes n t self = Returns (self\<lparr>bw_bytes_total := bw_bytes_total self + n\<rparr>)"
    using Cons.prems x by (intro add_bytes_in_window) auto
  with Cons x show ?case by (simp add: add.assoc)
qed simp

lemma add_all_append:
  "add_all (xs @ ys) self = (case add_all xs self of Panic \<Rightarrow> Panic | Returns self \<Rightarrow> add_all ys self)"
  by (induction xs self rule: add_all.induct) (auto split: outcome.split)

text \<open>
  Property C40. The measured rate is the average over the whole window: all bytes since the window began,
  divided by the whole seconds that passed, and the next window starts empty. A window that is allowed
  to close within its first second makes the division fail.
\<close>

theorem band_width_rate:
  assumes fresh: "bw_begin self = 0" "bw_bytes_total self = 0" and t0: "t0 \<noteq> 0" "0 < bw_min_span_ms self"
    and inside: "\<forall>(n, t)\<in>set xs. t - t0 < bw_min_span_ms self"
    and close: "bw_min_span_ms self \<le> t - t0"
  shows "add_all ((n0, t0) # xs @ [(n, t)]) self =
    (if t - t0 < 1000 then Panic
     else Returns (self\<lparr>bw_bytes_per_second := (n0 + sum_list (map fst xs) + n) div ((t - t0) div 1000),
                        bw_created := t\<rparr>))"
proof -
  let ?open = "self\<lparr>bw_begin := t0, bw_bytes_total := n0\<rparr>"
  have "add_bytes n0 t0 self = Returns ?open" using fresh t0 by (simp add: add_bytes_def)
  moreover have "add_all xs ?open = Returns (?open\<lparr>bw_bytes_total := n0 + sum_list (map fst xs)\<rparr>)"
    using t0(1) inside by (subst add_all_in_window [where since = t0]) auto
  moreover have "(t - t0) div 1000 = 0 \<longleftrightarrow> t - t0 < 1000"
    by (simp only: unat_eq_zero [symmetric] unat_div) (simp add: word_less_nat_alt div_eq_0_iff)
  ultimately show ?thesis
    using close t0(1) fresh by (simp add: add_all_append add_bytes_def not_le [symmetric])
qed

text \<open>What is documented of the two crates.\<close>

definition crypto_ok :: "crypto_api \<Rightarrow> bool" where
  "crypto_ok c \<longleftrightarrow> (\<forall>a b. dh_shared c a (dh_public c b) = dh_shared c b (dh_public c a)) \<and>
     (\<forall>k n d e. aead_encrypt c k n d = Some e \<longrightarrow> aead_decrypt c k n e = Some d)"

text \<open>
  Property C35. What one client encrypts the other one reads: with key sets made from each other's public
  keys, decryption gives back the data, in both directions. Received data makes decryption panic exactly
  when it is shorter than a nonce.
\<close>

theorem e2e_roundtrip:
  assumes c: "crypto_ok c" and random: "\<And>n b. getrandom n = Some b \<Longrightarrow> length b = n"
    and mine: "e2e_new c getrandom (dh_public c secret) = Ok mine"
    and theirs: "theirs = e2e_new_with_secret c (my_public mine) secret"
  shows "(e2e_encrypt c getrandom mine data = Ok sent \<longrightarrow> e2e_decrypt c theirs sent = Returns (Ok data)) \<and>
    (e2e_encrypt c getrandom theirs data = Ok sent \<longrightarrow> e2e_decrypt c mine sent = Returns (Ok data)) \<and>
    (e2e_decrypt c mine received = Panic \<longleftrightarrow> aead_key_ok c (shared_secret mine) \<and> length received < 12)"
proof -
  from mine have "shared_secret mine = shared_secret theirs"
    using c by (auto simp: e2e_new_def e2e_new_with_secret_def create_static_secret_def crypto_ok_def theirs
      split: option.splits)
  moreover have dec: "e2e_decrypt c k' sent = Returns (Ok data)"
    if "e2e_encrypt c getrandom k data = Ok sent" "shared_secret k' = shared_secret k" for k k'
    using that c random by (auto simp: e2e_encrypt_def e2e_decrypt_def crypto_ok_def split: if_splits option.splits)
  moreover have "e2e_decrypt c mine received = Panic \<longleftrightarrow>
      aead_key_ok c (shared_secret mine) \<and> length received < 12"
    by (auto simp: e2e_decrypt_def NONCE_SIZE_def split: if_splits option.splits)
  ultimately show ?thesis by metis
qed

section \<open>Witnesses\<close>

theorem post_string_answers_witness:
  "post_string (\<lambda>_ _ _. Some (204, Some ''ok'')) ''u'' ''b'' ''t'' ''f'' 1 = Ok ''ok''"
  using post_string_answers [of "\<lambda>_ _ _. Some (204, Some ''ok'')" "''u''" "''t''" "''b''" 204 "''ok''" "''f''" 1]
  by (simp add: word_le_nat_alt)

theorem band_width_rate_witness:
  "map_outcome bw_bytes_per_second (add_all [(100, 5000), (200, 5500), (300, 7500)] band_width_new) = Returns 300 \<and>
   add_all [(100, 5000), (300, 5600)] (band_width_new_with 500) = Panic"
  using band_width_rate [of band_width_new 5000 "[(200, 5500)]" 7500 100 300]
    band_width_rate [of "band_width_new_with 500" 5000 "[]" 5600 100 300]
  by (simp add: band_width_new_def band_width_new_with_def DEFAULT_MIN_SPAN_MS_def word_le_nat_alt word_less_nat_alt)

text \<open>A commutative exchange on 32 bytes, and a cipher that adds the first bytes of key and nonce.\<close>

definition example_crypto :: crypto_api where
  "example_crypto = \<lparr>dh_public = (\<lambda>s. s), dh_shared = (\<lambda>a b. map2 (+) a b), aead_key_ok = (\<lambda>k. length k = 32),
     aead_encrypt = (\<lambda>k n d. Some (map (\<lambda>b. b + hd k + hd n) d)),
     aead_decrypt = (\<lambda>k n e. Some (map (\<lambda>b. b - hd k - hd n) e))\<rparr>"

lemma example_crypto_ok: "crypto_ok example_crypto"
proof -
  have "map2 (+) a b = map2 (+) b a" for a b :: bytes
    by (subst zip_commute) (auto simp: add.commute)
  then show ?thesis by (simp add: crypto_ok_def example_crypto_def comp_def)
qed

theorem e2e_roundtrip_witness:
  "\<exists>mine sent. e2e_new example_crypto (\<lambda>n. Some (replicate n 7)) (replicate 32 3) = Ok mine \<and>
     e2e_encrypt example_crypto (\<lambda>n. Some (replicate n 7)) mine [1, 2] = Ok sent \<and>
     e2e_decrypt example_crypto (e2e_new_with_secret example_crypto (my_public mine) (replicate 32 3)) sent =
       Returns (Ok [1, 2]) \<and>
     e2e_decrypt example_crypto mine [1, 2, 3] = Panic"
proof -
  have pub: "dh_public example_crypto (replicate 32 3) = replicate 32 3" by (simp add: example_crypto_def)
  obtain mine where mine: "e2e_new example_crypto (\<lambda>n. Some (replicate n 7)) (replicate 32 3) = Ok mine"
    by (simp add: e2e_new_def create_static_secret_def)
  then have key: "aead_key_ok example_crypto (shared_secret mine)"
    by (auto simp: e2e_new_def create_static_secret_def example_crypto_def)
  obtain sent where sent: "e2e_encrypt example_crypto (\<lambda>n. Some (replicate n 7)) mine [1, 2] = Ok sent"
    using key by (simp add: e2e_encrypt_def) (simp add: example_crypto_def)
  from e2e_roundtrip [OF example_crypto_ok, of "\<lambda>n. Some (replicate n 7)" "replicate 32 3" mine _ "[1, 2]" sent "[1, 2, 3]"]
  show ?thesis using mine sent key by (auto simp: pub)
qed

end
