(* ===== verification/Http_Servers.thy ===== *)
theory Http_Servers
  imports Entrance_Router Common_Tools
begin

text \<open>
  The two HTTP servers around the entrance: \<open>hubserv/src/api_server.rs\<close> (where it listens, the request
  that updates the cluster, the log of requests) and \<open>hubserv/src/status_server.rs\<close> (the metrics).
  Both hand their tables of routes and their settings to the HTTP crates, whose work they are. The
  adapter for TLS connections of \<open>tls_acceptor.rs\<close> is here too, although no module declares it.
\<close>

section \<open>The API server\<close>

datatype api_listener = NotStarted | Https "string list" nat | Http nat

definition api_listener_of :: "args \<Rightarrow> api_listener" where
  "api_listener_of a =
     (if use_https a
      then (case http_host a of
              None \<Rightarrow> NotStarted
            | Some h \<Rightarrow>
                Https (case cluster_node_host a of Some nh \<Rightarrow> [h, nh] | None \<Rightarrow> [h]) 443)
      else Http (http_port a))"

definition update_cluster_path :: "args \<Rightarrow> string" where
  "update_cluster_path a = ''/update-cluster-'' @ (case update_cluster_key a of Some k \<Rightarrow> k | None \<Rightarrow> [])"

datatype http_method = Get | Post | Options
datatype handler = EnterHandler | CandidateHandler | UpdateClusterHandler | IndexHandler | PrometheusHandler

definition create_router :: "(string \<times> http_method \<times> handler) list" where
  "create_router = [(''/enter'', Post, EnterHandler), (''/candidate'', Post, CandidateHandler)]"

definition api_routes :: "args \<Rightarrow> (string \<times> http_method \<times> handler) list" where
  "api_routes a = create_router @ [(update_cluster_path a, Get, UpdateClusterHandler)]"

text \<open>The layers of the two groups of routes, the innermost first.\<close>

datatype layer =
    LogRequests | HandleErrors | TimeoutSeconds nat | Decompression | Compression
  | AnyOrigin "http_method list" "string list" nat

definition entrance_layers :: "layer list" where
  "entrance_layers =
     [LogRequests, HandleErrors, TimeoutSeconds 10, Decompression, Compression,
      AnyOrigin [Post, Options] [''content-type''] 86400]"

definition update_layers :: "layer list" where
  "update_layers = [LogRequests]"

record acme_config =
  acme_domains :: "string list"
  acme_contact :: "string list"
  acme_cache :: "string option"
  acme_production :: bool
  acme_alpn :: "string list"

text \<open>What certificates the server asks for, and the log that the requests go to.\<close>

definition acme_config_of :: "args \<Rightarrow> acme_config option" where
  "acme_config_of a =
     (case api_listener_of a of
        Https hosts _ \<Rightarrow>
          Some \<lparr>acme_domains = hosts, acme_contact = map (\<lambda>e. ''mailto:'' @ e) (lets_encrypt_email a),
                acme_cache = cache a, acme_production = True, acme_alpn = [''h2'', ''http/1.1'']\<rparr>
      | _ \<Rightarrow> None)"

text \<open>
  The spawned task that drives the certificates: it logs every event, and the end of the events is a
  panic of the task. An absent event is the end; after the last of the list the task still waits.
\<close>

fun acme_task :: "log_level \<Rightarrow> (string + string) option list \<Rightarrow> (log_level \<times> string) list \<times> unit outcome option" where
  "acme_task m [] = ([], None)"
| "acme_task m (None # _) = ([], Some Panic)"
| "acme_task m (Some ev # evs) =
     (let line = (case ev of Inr ok \<Rightarrow> log_at m LInfo (''event: '' @ ok) | Inl err \<Rightarrow> log_at m LError (''error: '' @ err));
          (l, r) = acme_task m evs
      in (line @ l, r))"

text \<open>
  Serving a port ends when binding it fails, or not at all (\<open>None\<close>); the handlers are those of the
  routes.
\<close>

type_synonym serve = "nat \<Rightarrow> (string + unit) option"

definition unwrap_served :: "(string + unit) option \<Rightarrow> unit outcome option" where
  "unwrap_served res = map_option (\<lambda>r. case r of Inl _ \<Rightarrow> Panic | Inr _ \<Rightarrow> Returns ()) res"

definition serve_api :: "serve \<Rightarrow> args \<Rightarrow> unit outcome option" where
  "serve_api serve a =
     (case api_listener_of a of
        NotStarted \<Rightarrow> Some (Returns ())
      | Https _ port \<Rightarrow> unwrap_served (serve port)
      | Http port \<Rightarrow> unwrap_served (serve port))"

text \<open>
  \<open>TlsAcceptor::accept\<close>: a connection that is a check of the certificate authority is logged; what the
  TLS library makes of a connection, and its protocol, are parameters.
\<close>

definition tls_accept ::
  "('i \<Rightarrow> 'e + 't) \<Rightarrow> ('t \<Rightarrow> bytes option) \<Rightarrow> bytes \<Rightarrow> log_level \<Rightarrow> 'i \<Rightarrow> 's \<Rightarrow>
     (log_level \<times> string) list \<times> ('e + 't \<times> 's)" where
  "tls_accept accept alpn acme_name m stream service =
     (case accept stream of
        Inl e \<Rightarrow> ([], Err e)
      | Inr tls \<Rightarrow>
          (if alpn tls = Some acme_name then log_at m LInfo ''received TLS-ALPN-01 validation request'' else [],
           Ok (tls, service)))"

record request_logger =
  rl_path :: string
  rl_bound :: nat
  rl_days :: nat

definition request_logger_of :: "args \<Rightarrow> request_logger option" where
  "request_logger_of a = map_option (\<lambda>p. \<lparr>rl_path = p, rl_bound = 100000, rl_days = 30\<rparr>) (http_log_path a)"

text \<open>\<open>HeaderValue::from_str\<close>: visible ASCII, tab, and bytes above ASCII.\<close>

definition header_value :: "string \<Rightarrow> string option" where
  "header_value v =
     (if list_all (\<lambda>c. let n = of_char c :: nat in n = 9 \<or> (32 \<le> n \<and> n \<noteq> 127)) v then Some v else None)"

text \<open>\<open>expires\<close> is the time one minute from now, formatted.\<close>

definition create_update_cluster_response_headers :: "string \<Rightarrow> (string \<times> string) list option" where
  "create_update_cluster_response_headers expires =
     (case header_value ''application/json'' of
        None \<Rightarrow> None
      | Some ct \<Rightarrow>
          (case header_value ''no-transform'' of
             None \<Rightarrow> None
           | Some cc \<Rightarrow>
               (case header_value expires of
                  None \<Rightarrow> None
                | Some e \<Rightarrow> Some [(''Content-Type'', ct), (''Cache-Control'', cc), (''Expires'', e)])))"

text \<open>The outside of a cluster update.\<close>

record services =
  sv_shake :: xof
  sv_hexenc :: hex_encoder
  sv_describe :: ec2_describe
  sv_to_json :: "node_list_data \<Rightarrow> string option"
  sv_put :: s3_put
  sv_cf :: cf_service

definition run_update :: "services \<Rightarrow> manager \<Rightarrow> string option \<times> dns_call list \<times> (manager_error + unit)" where
  "run_update sv = manager_update (sv_shake sv) (sv_hexenc sv) (sv_describe sv) (sv_to_json sv) (sv_put sv) (sv_cf sv)"

definition update_body :: "bool \<Rightarrow> string" where
  "update_body b = ''{'' @ [CHR 0x0A] @ ''        '' @ [CHR 0x22] @ ''update'' @ [CHR 0x22] @
     (if b then '': true'' else '': false'') @ [CHR 0x0A] @ ''    }''"

definition update_cluster ::
  "services \<Rightarrow> string \<Rightarrow> server_state \<Rightarrow> dns_call list \<times> (http_response + (string \<times> string) list \<times> string)" where
  "update_cluster sv expires s =
     (case create_update_cluster_response_headers expires of
        None \<Rightarrow> ([], Err INTERNAL_SERVER_ERROR)
      | Some headers \<Rightarrow>
          (case cluster_manager s of
             Some cm \<Rightarrow>
               (case run_update sv cm of
                  (_, calls, Inl _) \<Rightarrow> (calls, Err INTERNAL_SERVER_ERROR)
                | (_, calls, Inr _) \<Rightarrow> (calls, Ok (headers, update_body True)))
           | None \<Rightarrow> ([], Ok (headers, update_body False))))"

text \<open>A header for the request log: a dash if it is missing, nothing if it is not readable.\<close>

definition log_header :: "(string \<Rightarrow> string option) \<Rightarrow> string \<Rightarrow> string" where
  "log_header headers name =
     (case headers name of
        None \<Rightarrow> ''-''
      | Some v \<Rightarrow> (case header_to_str v of Some c \<Rightarrow> c | None \<Rightarrow> []))"

definition log_middleware ::
  "bool \<Rightarrow> string \<Rightarrow> string \<Rightarrow> (string \<Rightarrow> string option) \<Rightarrow> ('r \<Rightarrow> string) \<Rightarrow> 'r \<Rightarrow> 'r \<times> string option" where
  "log_middleware logger method uri headers status res =
     (let ua = log_header headers ''User-Agent'';
          referer = log_header headers ''referer'';
          xff = log_header headers ''X-Forwarded-For''
      in (res,
          if logger
          then Some (status res @ '' '' @ method @ '' '' @ uri @ '' '' @ ua @ '' '' @ referer @ '' '' @ xff)
          else None))"

section \<open>The status server\<close>

definition VERSION :: string where "VERSION = ''2023.07.14''"

text \<open>The counter is cast to \<open>i64\<close>.\<close>

definition get_metrics :: "server_state \<Rightarrow> (string \<times> int) list" where
  "get_metrics s = [(''client_count'', sint (client_count s))]"

definition show_int :: "int \<Rightarrow> string" where
  "show_int i = (if i < 0 then CHR ''-'' # show_nat (nat (- i)) else show_nat (nat i))"

fun join_lines :: "string list \<Rightarrow> string" where
  "join_lines [] = []"
| "join_lines [l] = l"
| "join_lines (l # ls) = l @ CHR 0x0A # join_lines ls"

definition prometheus :: "string option \<Rightarrow> server_state \<Rightarrow> string" where
  "prometheus prefix_opt s =
     (let ar = (''instance{version='' @ [CHR 0x22] @ VERSION @ [CHR 0x22] @ ''}'', 1) # get_metrics s;
          pfx = (case prefix_opt of Some v \<Rightarrow> v | None \<Rightarrow> [])
      in join_lines (map (\<lambda>v. pfx @ fst v @ '' '' @ show_int (snd v)) ar))"

definition status_routes :: "(string \<times> http_method \<times> handler) list" where
  "status_routes = [(''/'', Get, IndexHandler), (''/metrics'', Get, PrometheusHandler)]"

record server_context =
  ctx_prometheus_prefix :: "string option"

definition status_context :: "args \<Rightarrow> server_context" where
  "status_context a = \<lparr>ctx_prometheus_prefix = prometheus_prefix a\<rparr>"

definition serve_status :: "serve \<Rightarrow> args \<Rightarrow> unit outcome option" where
  "serve_status serve a = unwrap_served (serve (status_port a))"

text \<open>Both servers run on one task: a panic of either ends both, and both return before it ends.\<close>

definition join_servers :: "unit outcome option \<Rightarrow> unit outcome option \<Rightarrow> unit outcome option" where
  "join_servers r r' =
     (if r = Some Panic \<or> r' = Some Panic then Some Panic
      else if r = None \<or> r' = None then None else Some (Returns ()))"

definition serve_all :: "serve \<Rightarrow> args \<Rightarrow> unit outcome option" where
  "serve_all serve a = join_servers (serve_api serve a) (serve_status serve a)"

datatype json_value = JString string | JInt int

definition status_index :: "server_state \<Rightarrow> string \<Rightarrow> json_value option" where
  "status_index s =
     foldl (\<lambda>res v. res(fst v \<mapsto> JInt (snd v))) [''version'' \<mapsto> JString VERSION] (get_metrics s)"

section \<open>Properties\<close>

text \<open>
  The routes never overlap, whatever the key, so merging the two groups does not fail; the update of
  the cluster is under one path, which names the key.
\<close>

lemma routes_distinct: "distinct (map fst (api_routes a))" "distinct (map fst status_routes)"
  by (simp_all add: api_routes_def create_router_def update_cluster_path_def status_routes_def)

lemma update_only_by_key:
  "(p, m, UpdateClusterHandler) \<in> set (api_routes a) \<longleftrightarrow> p = update_cluster_path a \<and> m = Get"
  by (auto simp: api_routes_def create_router_def)

text \<open>A server that listens on TLS asks for certificates of exactly the names it is reached by.\<close>

lemma certificates_of_hosts:
  "(\<exists>c. acme_config_of a = Some c \<and> acme_domains c = hs) \<longleftrightarrow>
     use_https a \<and> (\<exists>h. http_host a = Some h \<and> hs = h # (case cluster_node_host a of Some nh \<Rightarrow> [nh] | None \<Rightarrow> []))"
  by (auto simp: acme_config_of_def api_listener_of_def split: option.split)

text \<open>
  The program serves until a port is taken or a listener ends: if every port that it serves is served
  for ever it never ends, and one that fails ends both servers. A server that should use TLS and has
  no host name serves its status page alone.
\<close>

lemma join_returned [simp]: "join_servers (Some (Returns ())) r = r"
  by (cases r; cases "the r") (auto simp: join_servers_def)

lemma join_panic [simp]: "join_servers (Some Panic) r = Some Panic" "join_servers r (Some Panic) = Some Panic"
  by (simp_all add: join_servers_def)

lemma serves_forever:
  "(\<And>port. serve port = None) \<Longrightarrow> serve_all serve a = None"
  "serve (status_port a) = Some (Inl e) \<Longrightarrow> serve_all serve a = Some Panic"
  "\<not> use_https a \<Longrightarrow> serve (http_port a) = Some (Inl e) \<Longrightarrow> serve_all serve a = Some Panic"
  "use_https a \<Longrightarrow> http_host a = None \<Longrightarrow> serve_all serve a = serve_status serve a"
  by (simp_all add: serve_all_def serve_api_def serve_status_def unwrap_served_def api_listener_of_def)
    (simp add: join_servers_def unwrap_served_def split: api_listener.split)

text \<open>The task for the certificates never returns, and logs every event before the end of the events.\<close>

lemma acme_task_log:
  "fst (acme_task m evs) =
     concat (map (case_sum (\<lambda>e. log_at m LError (''error: '' @ e)) (\<lambda>ok. log_at m LInfo (''event: '' @ ok)))
       (map the (takeWhile (\<lambda>ev. ev \<noteq> None) evs)))"
  "snd (acme_task m evs) = (if None \<in> set evs then Some Panic else None)"
  by (induction m evs rule: acme_task.induct) (auto simp: Let_def case_prod_unfold split: sum.split)

text \<open>
  The status pages tell the truth about the entrance: in a consistent state with fewer than
  \<open>2 ^ 63\<close> sessions, the metric, the text for Prometheus and the index all give the number of
  registered sessions.
\<close>

theorem status_counts_sessions:
  assumes ok: "state_ok s" and small: "card (dom (sessions_of s)) < 2 ^ 63"
  shows "get_metrics s = [(''client_count'', int (card (dom (sessions_of s))))] \<and>
    status_index s ''client_count'' = Some (JInt (int (card (dom (sessions_of s))))) \<and>
    prometheus p s =
      (case p of Some v \<Rightarrow> v | None \<Rightarrow> []) @ ''instance{version='' @ [CHR 0x22] @ VERSION @ [CHR 0x22] @ ''} 1'' @
      CHR 0x0A # (case p of Some v \<Rightarrow> v | None \<Rightarrow> []) @ ''client_count '' @ show_nat (card (dom (sessions_of s)))"
proof -
  let ?n = "card (dom (connection_map s))"
  have n: "unat (client_count s) = ?n" by (rule state_okD(2) [OF ok])
  have lt: "?n < 2 ^ 63" using small by simp
  have "client_count s = word_of_int (int ?n)" unfolding n [symmetric] by simp
  then have "sint (client_count s) = signed_take_bit 63 (int ?n)" by (simp only: sint_sbintrunc') simp
  also have "\<dots> = int ?n" using lt by (intro signed_take_bit_int_eq_self) simp_all
  finally have sint: "sint (client_count s) = int ?n" .
  have "show_nat 1 = ''1''" by (simp add: show_nat.simps digit_char_def) code_simp
  then show ?thesis
    by (simp add: get_metrics_def sint status_index_def prometheus_def show_int_def Let_def)
qed

theorem status_counts_sessions_witness:
  "get_metrics example_state = [(''client_count'', 2)]"
proof -
  have "card (dom (sessions_of example_state)) = 2" by (simp add: example_sessions del: dom_sessions_of)
  with status_counts_sessions [OF example_state_ok] show ?thesis by simp
qed

end
