(* ===== verification/Kept_Invariant.thy ===== *)
theory Kept_Invariant
  imports Main
begin

text \<open>
  The contract between a step relation and an invariant that every step keeps; it then holds in all
  that is reached from where it holds. \<open>Entrance_Machine\<close> and \<open>Entrance_Log\<close> interpret it on the steps
  of the server, \<open>Server_Interleaving\<close> and \<open>World_Threads\<close> on the schedules of threads, \<open>Signal_Future\<close> on
  the steps of a future and its task, \<open>Throttle_Runner\<close> on the runs of a job runner.
\<close>

locale kept_invariant =
  fixes step :: "'s \<Rightarrow> 's \<Rightarrow> bool" and inv :: "'s \<Rightarrow> bool"
  assumes kept: "step s s' \<Longrightarrow> inv s \<Longrightarrow> inv s'"
begin

lemma kept_reachable: "step\<^sup>*\<^sup>* s s' \<Longrightarrow> inv s \<Longrightarrow> inv s'"
  by (induction rule: rtranclp_induct) (blast intro: kept)+

text \<open>A second invariant may rest on the first one.\<close>

lemma kept_with:
  assumes "\<And>s s'. step s s' \<Longrightarrow> inv s \<Longrightarrow> P s \<Longrightarrow> P s'" "step\<^sup>*\<^sup>* s s'" "inv s" "P s"
  shows "P s'"
proof -
  have "inv s' \<and> P s'" using assms(2)
    by (induction rule: rtranclp_induct) (use assms(1,3,4) kept in blast)+
  then show ?thesis by blast
qed

end

end
