(* ===== verification/Entrance_Machine.thy ===== *)
theory Entrance_Machine
  imports Entrance_Router Kept_Invariant
begin

text \<open>
  The server as a transition system over the machine of Entrance_Router: what any interleaving of
  requests, callbacks and messages can do, step by step, and the invariants of all its reachable
  states. The crates may answer differently in every step; only the session crate is the same
  throughout.
\<close>

section \<open>Steps\<close>

text \<open>
  The checks of an entry are made before its connection is awaited, so in an earlier state \<open>s\<close> than the
  one its connection is opened in.
\<close>

inductive server_step :: "sid_api \<Rightarrow> machine \<Rightarrow> machine \<Rightarrow> bool" for api :: sid_api where
  opened: "w_sid w = api \<Longrightarrow> enter_check w h request_host req s = Returns (Ok (sid, pl)) \<Longrightarrow> peers m p = None \<Longrightarrow>
    server_step api m (open_peer p sid pl headers req m)"
| not_set_up: "peers m p = Some pe \<Longrightarrow> enter_setup papi p offer m = (m', Inl e) \<Longrightarrow> server_step api m m'"
| entered: "w_sid w = api \<Longrightarrow> peers m p = Some pe \<Longrightarrow> pe_session pe = sid \<Longrightarrow> pe_url pe = pl_url pl \<Longrightarrow>
    server_step api m (fst (enter_register w sid pl p m))"
| candidate_sent: "w_sid w = api \<Longrightarrow> server_step api m (m\<lparr>srv := fst (candidate w h request_host req (srv m))\<rparr>)"
| ice_changed: "w_sid w = api \<Longrightarrow> server_step api m (on_ice_state w p st m)"
| peer_changed: "w_sid w = api \<Longrightarrow> server_step api m (on_peer_state w p st' m)"
| channel_opened: "server_step api m (on_data_channel p d m)"
| message_received: "w_sid w = api \<Longrightarrow> server_step api m (fst (on_message w upgraded d data m))"
| nodes_loaded: "server_step api m (m\<lparr>srv := fst (load_node_list answer (srv m))\<rparr>)"

definition server_reachable :: "sid_api \<Rightarrow> machine \<Rightarrow> machine \<Rightarrow> bool" where
  "server_reachable api = (server_step api)\<^sup>*\<^sup>*"

lemma server_reachable_trans:
  "server_reachable api a b \<Longrightarrow> server_reachable api b c \<Longrightarrow> server_reachable api a c"
  unfolding server_reachable_def by (rule rtranclp_trans)

lemma server_reachable_intros:
  "server_reachable api m0 m0"
  "server_reachable api m0 m \<Longrightarrow> server_step api m m' \<Longrightarrow> server_reachable api m0 m'"
  by (simp_all add: server_reachable_def)

definition machine_new :: "server_state \<Rightarrow> machine" where
  "machine_new s = \<lparr>srv = s, peers = (\<lambda>_. None), channels = (\<lambda>_. None)\<rparr>"

section \<open>The invariant\<close>

text \<open>Every registered session came in by a peer connection of its own, for the world it is in.\<close>

definition entered_by_peer :: "machine \<Rightarrow> bool" where
  "entered_by_peer m \<longleftrightarrow> (\<forall>sid r. connection_map (srv m) sid = Some r \<longrightarrow>
     (\<exists>p u pe. identities (srv m) r = Some (sid, p, u) \<and> peers m p = Some pe \<and> pe_session pe = sid \<and> pe_url pe = u))"

text \<open>Every peer connection was made for a request that its session has signed.\<close>

definition peers_verified :: "sid_api \<Rightarrow> machine \<Rightarrow> bool" where
  "peers_verified api m \<longleftrightarrow> (\<forall>p pe. peers m p = Some pe \<longrightarrow>
     sid_parse api (sr_session_id (pe_request pe)) = Some (pe_session pe) \<and>
     sid_verify api (pe_session pe) [as_bytes (sr_payload (pe_request pe))] (sr_sign (pe_request pe)))"

definition machine_ok :: "sid_api \<Rightarrow> usize option \<Rightarrow> usize option \<Rightarrow> machine \<Rightarrow> bool" where
  "machine_ok api mc mu m \<longleftrightarrow> state_ok (srv m) \<and> within_limits (srv m) \<and>
     max_connections (srv m) = mc \<and> max_connections_by_url (srv m) = mu \<and>
     entered_by_peer m \<and> peers_verified api m"

lemma machine_okD:
  assumes "machine_ok api mc mu m"
  shows "state_ok (srv m)" "within_limits (srv m)" "max_connections (srv m) = mc"
    "max_connections_by_url (srv m) = mu" "entered_by_peer m" "peers_verified api m"
  using assms by (simp_all add: machine_ok_def)

lemma within_limits_same: "same_sessions s s' \<Longrightarrow> within_limits s' = within_limits s"
  by (simp add: same_sessions_def within_limits_def)

lemma machine_ok_same:
  assumes "machine_ok api mc mu m" "same_sessions (srv m) (srv m')" "peers_verified api m'"
    and "\<And>p pe. peers m p = Some pe \<Longrightarrow>
      \<exists>pe'. peers m' p = Some pe' \<and> pe_session pe' = pe_session pe \<and> pe_url pe' = pe_url pe"
  shows "machine_ok api mc mu m'"
proof -
  have "entered_by_peer m'"
    using machine_okD(5) [OF assms(1)] assms(2,4) unfolding entered_by_peer_def same_sessions_def by simp metis
  then show ?thesis
    using assms(1-3) within_limits_same [OF assms(2)] by (simp add: machine_ok_def same_sessions_def)
qed

lemma machine_ok_srv:
  assumes "machine_ok api mc mu m" "same_sessions (srv m) (srv m')" "peers m' = peers m"
  shows "machine_ok api mc mu m'"
  using assms machine_okD(6) [OF assms(1)] by (intro machine_ok_same [OF assms(1,2)]) (simp_all add: peers_verified_def)

lemma identities_cds: "cds s' = cds s \<Longrightarrow> identities s' = identities s"
  by (simp add: identities_def)

lemma machine_ok_removed:
  assumes m: "machine_ok api mc mu m"
  shows "machine_ok api mc mu (m\<lparr>srv := remove_connection api' sid (srv m)\<rparr>)"
proof -
  note ok = machine_okD(1) [OF m]
  have "identities (remove_connection api' sid (srv m)) = identities (srv m)"
    using ok by (intro identities_cds) simp
  then have "entered_by_peer (m\<lparr>srv := remove_connection api' sid (srv m)\<rparr>)"
    using machine_okD(5) [OF m] ok by (simp add: entered_by_peer_def)
  then show ?thesis
    using machine_okD [OF m] remove_connection_ok [OF ok] remove_within_limits [OF ok] ok
    by (simp add: machine_ok_def peers_verified_def)
qed

lemma machine_ok_registered:
  assumes m: "machine_ok api mc mu m" and p: "peers m p = Some pe" "pe_session pe = sid" "pe_url pe = pl_url pl"
  shows "machine_ok api mc mu (fst (enter_register w sid pl p m))"
proof -
  let ?cd = "client_data_new sid p (pl_url pl)"
  define s1 where "s1 = remove_connection (w_sid w) sid (srv m)"
  define s2 where "s2 = fst (alloc_client ?cd s1)"
  define s3 where "s3 = fst (add_connection (next_ref s1) s2)"
  have m1: "machine_ok api mc mu (m\<lparr>srv := s1\<rparr>)" unfolding s1_def by (rule machine_ok_removed [OF m])
  note ok1 = machine_okD(1) [OF m1, simplified]
  have gone: "connection_map s1 sid = None" using machine_okD(1) [OF m] by (simp add: s1_def)
  have ok2: "state_ok s2" and ready: "client_ready s2 (next_ref s1)"
    using alloc_client_ok [OF ok1] alloc_client_ready [of s1 ?cd] gone by (simp_all add: s2_def)
  have lim2: "within_limits s2"
    using machine_okD(2) [OF m1] alloc_client_ok [OF ok1] by (simp add: s2_def within_limits_def)
  have new: "cds s2 (next_ref s1) = Some ?cd" by (simp add: s2_def)
  have old: "identities s2 r = identities s1 r" if "connection_map s1 sid' = Some r" for sid' r
    using state_okD(7) [OF ok1] state_okD(3) [OF ok1 that] by (force simp: identities_def s2_def)
  have s3: "s3 = s2 \<or> s3 = registered (next_ref s1) s2"
    by (simp add: s3_def add_connection_cases [OF ok2 ready])
  then have cds3: "cds s3 = cds s2" and maxs: "max_connections s3 = mc" "max_connections_by_url s3 = mu"
    using machine_okD(3,4) [OF m1] by (auto simp: s2_def)
  have map3: "connection_map s3 sid' = Some r \<Longrightarrow> (sid' = sid \<and> r = next_ref s1) \<or> connection_map s1 sid' = Some r" for sid' r
    using s3 new by (auto simp: s2_def split: if_splits)
  have "entered_by_peer (m\<lparr>srv := s3\<rparr>)"
    unfolding entered_by_peer_def
  proof (intro allI impI)
    fix sid' r
    assume "connection_map (srv (m\<lparr>srv := s3\<rparr>)) sid' = Some r"
    with map3 consider (new) "sid' = sid" "r = next_ref s1" | (old) "connection_map s1 sid' = Some r" by auto
    then show "\<exists>p u pe. identities (srv (m\<lparr>srv := s3\<rparr>)) r = Some (sid', p, u) \<and>
        peers (m\<lparr>srv := s3\<rparr>) p = Some pe \<and> pe_session pe = sid' \<and> pe_url pe = u"
    proof cases
      case new
      then show ?thesis using p \<open>cds s2 (next_ref s1) = Some ?cd\<close> by (simp add: identities_def cds3)
    next
      case old
      from machine_okD(5) [OF m1] this have "\<exists>p u pe. identities s1 r = Some (sid', p, u) \<and> peers m p = Some pe \<and>
          pe_session pe = sid' \<and> pe_url pe = u"
        by (simp add: entered_by_peer_def)
      with \<open>\<And>sid' r. connection_map s1 sid' = Some r \<Longrightarrow> identities s2 r = identities s1 r\<close> [OF old]
      show ?thesis by (simp add: identities_def cds3)
    qed
  qed
  moreover have "state_ok s3" "within_limits s3"
    using add_connection_spec [OF ok2 ready] add_within_limits [OF ok2 ready lim2] by (simp_all add: s3_def)
  ultimately have m3: "machine_ok api mc mu (m\<lparr>srv := s3\<rparr>)"
    using maxs machine_okD(6) [OF m] by (simp add: machine_ok_def peers_verified_def)
  moreover have "fst (enter_register w sid pl p m) = m\<lparr>srv := s3\<rparr> \<or>
      fst (enter_register w sid pl p m) = m\<lparr>srv := emit [PcClose p] s3\<rparr>"
    by (auto simp: enter_register_def s1_def [symmetric] s2_def s3_def Let_def split: prod.split
      dest: arg_cong [of _ _ fst] arg_cong [of _ _ snd])
  ultimately show ?thesis
    using machine_ok_srv [OF m3] emit_same machine_okD(1) [OF m3] by auto
qed

section \<open>Every step keeps the invariant\<close>

lemma enter_setup_srv:
  "\<exists>es. srv (fst (enter_setup api p offer m)) = emit es (srv m) \<and>
     peers (fst (enter_setup api p offer m)) = peers m"
  by (auto simp: enter_setup_def split: sum.split intro: exI [of _ "[]"])

lemma candidate_emits: "\<exists>es. fst (candidate w h rh req s) = emit es s"
  unfolding candidate_def
  by (auto split: outcome.split sum.split prod.split option.split intro: exI [of _ "[]"])

lemma append_access_log_emits: "\<exists>es. append_access_log cc u hs s = emit es s"
  by (auto simp: append_access_log_def Let_def split: option.split intro: exI [of _ "[]"])

lemma machine_ok_emits:
  "machine_ok api mc mu m \<Longrightarrow> \<exists>es. srv m' = emit es (srv m) \<Longrightarrow> peers m' = peers m \<Longrightarrow> machine_ok api mc mu m'"
  using machine_ok_srv emit_same machine_okD(1) by metis

lemma machine_ok_peer_changed:
  assumes m: "machine_ok api mc mu m"
  shows "machine_ok api mc mu (on_peer_state w p st m)"
proof (cases "peers m p")
  case None
  with m show ?thesis by (simp add: on_peer_state_def)
next
  case (Some pe)
  define m1 where "m1 = (if st = PcConnected \<and> \<not> pe_log_sent pe
     then let cc = (case get_url_data (pe_url pe) (srv m) of Some ud \<Rightarrow> get_client_count ud | None \<Rightarrow> 1)
          in m\<lparr>peers := (peers m)(p \<mapsto> pe\<lparr>pe_log_sent := True\<rparr>),
               srv := append_access_log cc (pe_raw_url pe) (pe_headers pe) (srv m)\<rparr>
     else m)"
  have "machine_ok api mc mu m1"
  proof (cases "st = PcConnected \<and> \<not> pe_log_sent pe")
    case True
    have "\<exists>es. srv m1 = emit es (srv m)"
      using True append_access_log_emits by (simp add: m1_def Let_def)
    then obtain es where es: "srv m1 = emit es (srv m)" ..
    have ps: "peers m1 = (peers m)(p \<mapsto> pe\<lparr>pe_log_sent := True\<rparr>)" using True by (simp add: m1_def Let_def)
    show ?thesis
    proof (rule machine_ok_same [OF m])
      show "same_sessions (srv m) (srv m1)" unfolding es by (rule emit_same [OF machine_okD(1) [OF m]])
      show "peers_verified api m1" using machine_okD(6) [OF m] Some by (auto simp: peers_verified_def ps)
      show "\<exists>pe'. peers m1 q = Some pe' \<and> pe_session pe' = pe_session qe \<and> pe_url pe' = pe_url qe"
        if "peers m q = Some qe" for q qe
        using that Some by (auto simp: ps)
    qed
  next
    case False
    then have "m1 = m" unfolding m1_def by (rule if_not_P)
    with m show ?thesis by simp
  qed
  moreover have "on_peer_state w p st m =
      (if st = PcFailed \<or> st = PcDisconnected \<or> st = PcClosed
       then m1\<lparr>srv := remove_connection (w_sid w) (pe_session pe) (srv m1)\<rparr> else m1)"
    by (simp add: on_peer_state_def Some m1_def Let_def)
  ultimately show ?thesis using machine_ok_removed by simp
qed

lemma machine_ok_message:
  assumes m: "machine_ok api mc mu m"
  shows "machine_ok api mc mu (fst (on_message w upgraded d data m))"
proof (cases "channels m d")
  case None
  with m show ?thesis by (simp add: on_message_def)
next
  case (Some ch)
  note ok = machine_okD(1) [OF m]
  have emitted: "machine_ok api mc mu (m\<lparr>srv := emit es (srv m)\<rparr>)" for es
    by (rule machine_ok_srv [OF m]) (simp_all add: emit_same [OF ok])
  have moved: "machine_ok api mc mu (m\<lparr>srv := remove_connection (w_sid w) (ch_session ch) s\<rparr>)"
    if "machine_ok api mc mu (m\<lparr>srv := s\<rparr>)" for s
    using machine_ok_removed [OF that, of "w_sid w" "ch_session ch"] by simp
  have "same_sessions (srv m) (fst (on_rtc_message w (ch_client ch) data (srv m)))"
    using on_rtc_message_safe [OF ok] by (simp add: safe_reply_def)
  then have handled: "machine_ok api mc mu (m\<lparr>srv := fst (on_rtc_message w (ch_client ch) data (srv m))\<rparr>)"
    by (intro machine_ok_srv [OF m]) simp_all
  obtain s1 out where "on_rtc_message w (ch_client ch) data (srv m) = (s1, out)" by fastforce
  moreover from this handled have "machine_ok api mc mu (m\<lparr>srv := s1\<rparr>)" by simp
  ultimately show ?thesis
    using m moved emitted by (cases out) (simp_all add: on_message_def Some Let_def emit_emit)
qed

lemma cluster_client_update [simp]:
  "state_ok (s\<lparr>cluster_client := c\<rparr>) = state_ok s"
  "sessions_of (s\<lparr>cluster_client := c\<rparr>) = sessions_of s"
  "identities (s\<lparr>cluster_client := c\<rparr>) = identities s"
  by (simp_all add: state_ok_def count_ok_def refs_ok_def worlds_ok_def listed_ok_def sessions_of_def identities_def)

lemma machine_ok_cluster:
  "machine_ok api mc mu m \<Longrightarrow> machine_ok api mc mu (m\<lparr>srv := (srv m)\<lparr>cluster_client := c\<rparr>\<rparr>)"
  unfolding machine_ok_def entered_by_peer_def peers_verified_def within_limits_def by clarsimp

lemma load_node_list_cases:
  "fst (load_node_list answer s) = s \<or> (\<exists>c. fst (load_node_list answer s) = s\<lparr>cluster_client := c\<rparr>)"
  by (auto simp: load_node_list_def split: option.split)

lemma machine_ok_nodes:
  assumes m: "machine_ok api mc mu m"
  shows "machine_ok api mc mu (m\<lparr>srv := fst (load_node_list answer (srv m))\<rparr>)"
  using load_node_list_cases [of answer "srv m"] machine_ok_cluster [OF m] m by auto

lemma machine_ok_opened:
  assumes m: "machine_ok api mc mu m" and api: "w_sid w = api"
    and check: "enter_check w h request_host req s = Returns (Ok (sid, pl))" and new: "peers m p = None"
  shows "machine_ok api mc mu (open_peer p sid pl headers req m)"
proof (rule machine_ok_same [OF m])
  let ?m = "open_peer p sid pl headers req m"
  show "same_sessions (srv m) (srv ?m)" using same_sessions_refl [OF machine_okD(1) [OF m]] by (simp add: open_peer_def)
  from check obtain pl' where "verify (w_sid w) (h_enter_json h) (enter_normalize (h_url_parser h) (h_warn_enabled h)) req =
      Returns (Ok (sid, pl'))"
    by (auto simp: enter_check_def split: outcome.splits sum.splits prod.splits if_splits)
  then have "sid_parse api (sr_session_id req) = Some sid \<and> sid_verify api sid [as_bytes (sr_payload req)] (sr_sign req)"
    unfolding api [symmetric] by (auto simp: verify_def split: option.splits if_splits outcome.splits)
  then show "peers_verified api ?m"
    using machine_okD(6) [OF m] by (auto simp: peers_verified_def open_peer_def)
  show "\<exists>pe'. peers ?m q = Some pe' \<and> pe_session pe' = pe_session qe \<and> pe_url pe' = pe_url qe"
    if "peers m q = Some qe" for q qe
    using that new by (auto simp: open_peer_def)
qed

lemma server_step_keeps:
  assumes "server_step api m m'" "machine_ok api mc mu m"
  shows "machine_ok api mc mu m'"
  using assms
proof (induction rule: server_step.induct)
  case (opened w h request_host req s sid pl m p headers)
  then show ?case using machine_ok_opened by blast
next
  case (not_set_up m p pe papi offer m' e)
  then show ?case
    using enter_setup_srv [of papi p offer m] machine_ok_emits by (metis fst_conv)
next
  case (entered w m p pe sid pl)
  then show ?case using machine_ok_registered by blast
next
  case (candidate_sent w m h request_host req)
  then show ?case
    using candidate_emits by (intro machine_ok_emits [OF candidate_sent(2)]) simp_all
next
  case (ice_changed w m p st)
  then show ?case using machine_ok_removed by (simp add: on_ice_state_def split: option.split)
next
  case (peer_changed w m p st')
  then show ?case using machine_ok_peer_changed by blast
next
  case (channel_opened m p d)
  have "same_sessions (srv m) (modify_client r (\<lambda>cd. set_dc cd d) (srv m))" for r
    by (rule modify_client_same [OF machine_okD(1) [OF channel_opened]]) simp_all
  then show ?case
    using channel_opened by (auto simp: on_data_channel_def split: option.split intro: machine_ok_srv)
next
  case (message_received w m upgraded d data)
  then show ?case using machine_ok_message by blast
next
  case (nodes_loaded m answer)
  then show ?case using machine_ok_nodes by blast
qed

text \<open>A peer connection stays, and stays its session's.\<close>

definition same_peer :: "peer \<Rightarrow> peer \<Rightarrow> bool" where
  "same_peer pe pe' \<longleftrightarrow> pe_session pe' = pe_session pe \<and> pe_url pe' = pe_url pe"

definition peer_kept :: "pc \<Rightarrow> peer \<Rightarrow> machine \<Rightarrow> bool" where
  "peer_kept p pe m \<longleftrightarrow> (\<exists>pe'. peers m p = Some pe' \<and> same_peer pe pe')"

lemma peers_of_register [simp]: "peers (fst (enter_register w sid pl p m)) = peers m"
  by (simp add: enter_register_def Let_def case_prod_unfold)

lemma peers_of_ice [simp]: "peers (on_ice_state w p st m) = peers m"
  by (simp add: on_ice_state_def split: option.split)

lemma peers_of_channel [simp]: "peers (on_data_channel p d m) = peers m"
  by (simp add: on_data_channel_def split: option.split)

lemma peers_of_message [simp]: "peers (fst (on_message w upgraded d data m)) = peers m"
  by (simp add: on_message_def Let_def split: option.split prod.split outcome.split)

lemma peer_changed_kept: "peers m p = Some pe \<Longrightarrow> peer_kept p pe (on_peer_state w q st m)"
  by (auto simp: on_peer_state_def peer_kept_def same_peer_def Let_def split: option.split)

lemma server_step_peer:
  assumes "server_step api m m'" "peers m p = Some pe"
  shows "peer_kept p pe m'"
  using assms
proof (induction rule: server_step.induct)
  case (not_set_up m q qe papi offer m' e)
  then show ?case
    using enter_setup_srv [of papi q offer m] by (simp add: peer_kept_def same_peer_def)
qed (auto simp: peer_kept_def same_peer_def open_peer_def peer_changed_kept
      dest: peer_changed_kept [unfolded peer_kept_def same_peer_def])

interpretation peer_of: kept_invariant "server_step api" "peer_kept p pe" for api p pe
  using server_step_peer unfolding peer_kept_def same_peer_def by unfold_locales metis

interpretation entrance: kept_invariant "server_step api" "machine_ok api mc mu" for api mc mu
  by unfold_locales (rule server_step_keeps)

lemma machine_ok_new: "machine_ok api mc mu (machine_new (state_new mc mu mr ice l cc cm))"
  by (simp add: machine_ok_def machine_new_def within_limits_def population_def entered_by_peer_def peers_verified_def)
    (simp add: state_new_def)

lemma reachable_ok:
  "server_reachable api (machine_new (state_new mc mu mr ice l cc cm)) m \<Longrightarrow> machine_ok api mc mu m"
  unfolding server_reachable_def by (rule entrance.kept_reachable [OF _ machine_ok_new])

end
