(* ===== verification/Entrance_Safety.thy ===== *)
theory Entrance_Safety
  imports Entrance_Machine
begin

text \<open>
  What the entrance guarantees: the consistency of every reachable state, who can be registered, what
  an entry does from its request to its answer, what a candidate does, and what a late event of an old
  connection does to a newer one.
\<close>

section \<open>Registering\<close>

lemma available_may_enter:
  "state_ok s \<Longrightarrow> is_new_connection_available u s =
     may_enter (max_connections s) (max_connections_by_url s) (sessions_of s) u"
  by (simp add: may_enter_state is_new_connection_available_def get_url_data_def get_client_count_def
    split: option.split)

lemma add_connection_cluster [simp]:
  "state_ok s \<Longrightarrow> client_ready s r \<Longrightarrow> cluster_client (fst (add_connection r s)) = cluster_client s"
  by (simp add: add_connection_cases)

text \<open>A session gives its own place free before it enters again.\<close>

lemma may_enter_again:
  assumes fin: "finite (dom m)" and enter: "may_enter mc mu m u"
  shows "may_enter mc mu (m(sid := None)) u"
proof -
  have "card (dom (m(sid := None))) \<le> card (dom m)"
    using fin by (simp add: card_mono)
  with enter population_del [OF fin, of sid u] show ?thesis
    unfolding may_enter_def by linarith
qed

text \<open>There is always room for a session in the world it has just left.\<close>

lemma own_place_is_free:
  assumes fin: "finite (dom m)" and lim: "card (dom m) \<le> unat (limit_or_max mc)"
    and pop: "population m u \<le> max 1 (unat (limit_or_max mu))" and sid: "m sid = Some u"
  shows "may_enter mc mu (m(sid := None)) u"
proof -
  have "card (dom (m(sid := None))) < card (dom m)"
    using fin sid by (intro psubset_card_mono) auto
  moreover have "population (m(sid := None)) u < population m u"
    unfolding population_def
  proof (rule psubset_card_mono)
    show "finite {s. m s = Some u}" by (rule rev_finite_subset [OF fin]) auto
    show "{s. (m(sid := None)) s = Some u} \<subset> {s. m s = Some u}" using sid by auto
  qed
  ultimately show ?thesis using lim pop by (auto simp: may_enter_def max_def split: if_splits)
qed

lemma enter_register_spec:
  fixes sid :: session_id and pl :: enter_request_payload and m :: machine
  assumes ok: "state_ok (srv m)"
  defines "base \<equiv> (sessions_of (srv m))(sid := None)"
  defines "yes \<equiv> may_enter (max_connections (srv m)) (max_connections_by_url (srv m)) base (pl_url pl)"
  shows "sessions_of (srv (fst (enter_register w sid pl p m))) = (if yes then base(sid \<mapsto> pl_url pl) else base)"
    and "snd (enter_register w sid pl p m) = yes"
    and "peers (fst (enter_register w sid pl p m)) = peers m"
    and "channels (fst (enter_register w sid pl p m)) = channels m"
    and "cluster_client (srv (fst (enter_register w sid pl p m))) = cluster_client (srv m)"
proof -
  let ?cd = "client_data_new sid p (pl_url pl)"
  define s1 where "s1 = remove_connection (w_sid w) sid (srv m)"
  define s2 where "s2 = fst (alloc_client ?cd s1)"
  have ok1: "state_ok s1" and base: "sessions_of s1 = base"
    using remove_connection_ok [OF ok] sessions_of_removed [OF ok] by (simp_all add: s1_def base_def)
  have gone: "connection_map s1 sid = None" using ok by (simp add: s1_def)
  have ok2: "state_ok s2" and ready: "client_ready s2 (next_ref s1)" and same: "sessions_of s2 = base"
    using alloc_client_ok [OF ok1] alloc_client_ready [of s1 ?cd] gone base by (simp_all add: s2_def)
  have cd: "the (cds s2 (next_ref s1)) = ?cd" by (simp add: s2_def)
  have maxs: "max_connections s2 = max_connections (srv m)"
    "max_connections_by_url s2 = max_connections_by_url (srv m)" "cluster_client s2 = cluster_client (srv m)"
    using ok by (simp_all add: s2_def s1_def)
  have added: "sessions_of (fst (add_connection (next_ref s1) s2)) = (if yes then base(sid \<mapsto> pl_url pl) else base)"
    "snd (add_connection (next_ref s1) s2) = yes"
    "cluster_client (fst (add_connection (next_ref s1) s2)) = cluster_client (srv m)"
    using add_connection_spec [OF ok2 ready] ok2 ready by (simp_all add: spec_add_def cd maxs same yes_def)
  have alloc: "alloc_client ?cd s1 = (s2, next_ref s1)" by (simp add: s2_def prod_eq_iff)
  have run: "enter_register w sid pl p m =
      (if yes then (m\<lparr>srv := fst (add_connection (next_ref s1) s2)\<rparr>, True)
       else (m\<lparr>srv := emit [PcClose p] (fst (add_connection (next_ref s1) s2))\<rparr>, False))"
    using added(2) by (simp add: enter_register_def s1_def [symmetric] alloc Let_def case_prod_unfold)
  have emit: "sessions_of (emit es s) = sessions_of s" for es s by (simp add: sessions_of_def)
  show "sessions_of (srv (fst (enter_register w sid pl p m))) = (if yes then base(sid \<mapsto> pl_url pl) else base)"
    "snd (enter_register w sid pl p m) = yes" "peers (fst (enter_register w sid pl p m)) = peers m"
    "channels (fst (enter_register w sid pl p m)) = channels m"
    "cluster_client (srv (fst (enter_register w sid pl p m))) = cluster_client (srv m)"
    using added by (simp_all add: run emit)
qed

section \<open>An example run\<close>

text \<open>A client enters a world, and enters it again over a new connection.\<close>

definition example_http :: http_api where
  "example_http = \<lparr>h_url_parser = example_url_parser, h_warn_enabled = True, h_enter_json = example_enter_json,
     h_candidate_json = (\<lambda>s. if s = [] then None else Some \<lparr>pl_url = s, pl_sdp = ''candidate'', pl_raw_url = []\<rparr>)\<rparr>"

definition example_peer_api :: peer_api where
  "example_peer_api = \<lparr>p_set_remote_ok = (\<lambda>_ _. True), p_create_answer = (\<lambda>_. Some \<lparr>sdp_type = ''answer'', sdp = ''v=0''\<rparr>),
     p_set_local_ok = (\<lambda>_ _. True), p_local_description = (\<lambda>p. Some \<lparr>sdp_type = ''answer'', sdp = ''v=0''\<rparr>),
     p_in_time = (\<lambda>_. True)\<rparr>"

definition example_request :: signed_request where
  "example_request = \<lparr>sr_session_id = ''A'', sr_sign = ([65], [0]), sr_payload = ''https://a.b/w''\<rparr>"

definition example_payload :: enter_request_payload where
  "example_payload = \<lparr>pl_url = ''https://a.b/w'', pl_sdp = \<lparr>sdp_type = ''offer'', sdp = ''v=0''\<rparr>,
     pl_raw_url = ''https://a.b/w''\<rparr>"

definition example_start :: machine where
  "example_start = machine_new (state_new (Some 3) (Some 2) 10 [] None None None)"

definition example_opened :: machine where
  "example_opened = open_peer 1 [65] example_payload (\<lambda>_. None) example_request example_start"

definition example_entered :: machine where
  "example_entered = fst (enter_register example_world [65] example_payload 1 example_opened)"

definition example_reopened :: machine where
  "example_reopened = open_peer 2 [65] example_payload (\<lambda>_. None) example_request example_entered"

definition example_reentered :: machine where
  "example_reentered = fst (enter_register example_world [65] example_payload 2 example_reopened)"

lemma example_sid: "as_bytes ''A'' = [65]"
  by (simp add: as_bytes_def)

lemma example_url: "normalize_url example_url_parser ''https://a.b/w'' = ''https://a.b/w''"
proof -
  have "trim ''https://a.b/w'' = ''https://a.b/w''"
    by (rule trim_plain, simp add: white_space_def suffix_to_prefix, fastforce)
  then show ?thesis
    by (simp add: normalize_url_def example_url_parser_def Let_def ends_with_char_def)
qed

lemma example_enter_check:
  assumes "cluster_client s = None" "is_new_connection_available ''https://a.b/w'' s"
  shows "enter_check example_world example_http rh example_request s = Returns (Ok ([65], example_payload))"
  using assms
  by (simp add: enter_check_def example_world_def example_http_def example_request_def verify_def
    example_sid_api_def example_sid example_enter_json_def enter_normalize_def MAX_URL_LEN_def Let_def
    example_url example_payload_def)

lemma available_example:
  assumes "state_ok s" "max_connections s = Some 3" "max_connections_by_url s = Some 2"
    and "sessions_of s = Map.empty \<or> sessions_of s = [[65] \<mapsto> ''https://a.b/w'']"
  shows "is_new_connection_available ''https://a.b/w'' s"
proof -
  have "population [[65] \<mapsto> ''https://a.b/w''] ''https://a.b/w'' = 1"
    by (simp add: population_def)
  then show ?thesis
    using assms(2-4) by (auto simp: available_may_enter [OF assms(1)] may_enter_def population_def
      simp del: dom_sessions_of)
qed

lemma example_reachable:
  "server_reachable example_sid_api example_start example_entered"
  "server_reachable example_sid_api example_start example_reentered"
  and example_sessions_entered: "sessions_of (srv example_entered) = [[65] \<mapsto> ''https://a.b/w'']"
  and example_sessions_reentered: "sessions_of (srv example_reentered) = [[65] \<mapsto> ''https://a.b/w'']"
  and example_peer: "\<exists>pe. peers example_reentered 1 = Some pe \<and> pe_session pe = [65]"
proof -
  have api: "w_sid example_world = example_sid_api" by (simp add: example_world_def)
  have url: "pl_url example_payload = ''https://a.b/w''" by (simp add: example_payload_def)
  note reach = server_reachable_intros
  have r0: "server_reachable example_sid_api example_start example_start" by (rule reach)
  note ok = reachable_ok [of example_sid_api "Some 3" "Some 2" 10 "[]" None None None, folded example_start_def]
  have s0: "sessions_of (srv example_start) = Map.empty" "cluster_client (srv example_start) = None"
    "peers example_start = Map.empty"
    by (simp_all add: example_start_def machine_new_def) (simp add: state_new_def)
  have available: "is_new_connection_available ''https://a.b/w'' (srv m)"
    if "server_reachable example_sid_api example_start m"
      "sessions_of (srv m) = Map.empty \<or> sessions_of (srv m) = [[65] \<mapsto> ''https://a.b/w'']" for m
    using machine_okD [OF ok [OF that(1)]] that(2) by (intro available_example) simp_all
  have check: "enter_check example_world example_http [] example_request (srv m) = Returns (Ok ([65], example_payload))"
    if "server_reachable example_sid_api example_start m" "cluster_client (srv m) = None"
      "sessions_of (srv m) = Map.empty \<or> sessions_of (srv m) = [[65] \<mapsto> ''https://a.b/w'']" for m
    using example_enter_check [OF that(2) available [OF that(1,3)]] .
  have enter: "sessions_of (srv (fst (enter_register example_world [65] example_payload p m))) = [[65] \<mapsto> ''https://a.b/w'']"
    if "server_reachable example_sid_api example_start m"
      "sessions_of (srv m) = Map.empty \<or> sessions_of (srv m) = [[65] \<mapsto> ''https://a.b/w'']" for m p
  proof -
    note D = machine_okD [OF ok [OF that(1)]]
    from that(2) have "(sessions_of (srv m))([65] := None) = Map.empty" by auto
    then show ?thesis
      using enter_register_spec(1) [OF D(1), of example_world "[65]" example_payload p]
      by (simp add: D(3,4) may_enter_def population_def url)
  qed
  have r1: "server_reachable example_sid_api example_start example_opened"
    unfolding example_opened_def
    by (rule reach(2) [OF r0], rule opened [OF api check [OF r0]]) (simp_all add: s0)
  obtain pe1 where p1: "peers example_opened = [1 \<mapsto> pe1]" "pe_session pe1 = [65]"
    "pe_url pe1 = ''https://a.b/w''" "srv example_opened = srv example_start"
    by (simp add: example_opened_def open_peer_def s0 url)
  have r2: "server_reachable example_sid_api example_start example_entered"
    unfolding example_entered_def
    by (rule reach(2) [OF r1], rule entered [OF api, of _ 1 pe1]) (simp_all add: p1 url)
  note s2 = enter [OF r1, of 1, folded example_entered_def, unfolded p1(4) s0(1), simplified]
  note spec2 = enter_register_spec(3-5) [OF machine_okD(1) [OF ok [OF r1]], of example_world "[65]" example_payload 1,
      folded example_entered_def]
  have r3: "server_reachable example_sid_api example_start example_reopened"
    unfolding example_reopened_def
    by (rule reach(2) [OF r2], rule opened [OF api check [OF r2]]) (simp_all add: s2 spec2 p1 s0)
  obtain pe2 where p3: "peers example_reopened = [1 \<mapsto> pe1, 2 \<mapsto> pe2]" "pe_session pe2 = [65]"
    "pe_url pe2 = ''https://a.b/w''" "srv example_reopened = srv example_entered"
    by (simp add: example_reopened_def open_peer_def spec2 p1(1) url)
  have r4: "server_reachable example_sid_api example_start example_reentered"
    unfolding example_reentered_def
    by (rule reach(2) [OF r3], rule entered [OF api, of _ 2 pe2]) (simp_all add: p3 url)
  note s4 = enter [OF r3, of 2, folded example_reentered_def, unfolded p3(4) s2, simplified]
  note spec4 = enter_register_spec(3) [OF machine_okD(1) [OF ok [OF r3]], of example_world "[65]" example_payload 2,
      folded example_reentered_def]
  show "server_reachable example_sid_api example_start example_entered"
    "server_reachable example_sid_api example_start example_reentered" by (rule r2, rule r4)
  show "sessions_of (srv example_entered) = [[65] \<mapsto> ''https://a.b/w'']"
    "sessions_of (srv example_reentered) = [[65] \<mapsto> ''https://a.b/w'']" by (rule s2, rule s4)
  show "\<exists>pe. peers example_reentered 1 = Some pe \<and> pe_session pe = [65]"
    using p1(2) by (simp add: spec4 p3(1))
qed

section \<open>Properties\<close>

text \<open>
  Property C1. In every state the server can reach from its start, when each handler runs through between its
  awaits but requests, callbacks and messages interleave at them in any order: the counter is the number of
  registered sessions and within the limit, no world has more sessions than its limit allows beyond its first
  one, the list of every world is exactly the sessions registered for it, and the configured limits are
  unchanged. Handlers whose parts run at the same time on several threads are the matter of Server_Schedules:
  there the counters stay right as long as no two threads work on one session.
\<close>

theorem server_always_consistent:
  assumes "server_reachable api (machine_new (state_new mc mu mr ice l cc cm)) m"
  shows "unat (client_count (srv m)) = card (dom (sessions_of (srv m))) \<and>
    card (dom (sessions_of (srv m))) \<le> unat (limit_or_max mc) \<and>
    (\<forall>u. population (sessions_of (srv m)) u \<le> max 1 (unat (limit_or_max mu))) \<and>
    (\<forall>u. case url_data_map (srv m) u of
       None \<Rightarrow> population (sessions_of (srv m)) u = 0
     | Some ud \<Rightarrow> url_sessions (cds (srv m)) ud = {sid. sessions_of (srv m) sid = Some u} \<and>
         unat (get_client_count ud) = population (sessions_of (srv m)) u) \<and>
    max_connections (srv m) = mc \<and> max_connections_by_url (srv m) = mu"
proof -
  note ok = reachable_ok [OF assms] and D = machine_okD [OF reachable_ok [OF assms]]
  have "unat (client_count (srv m)) \<le> unat (limit_or_max mc)"
    using D(2,3) by (simp add: within_limits_def word_le_nat_alt)
  then show ?thesis
    using D(2-4) state_okD(2) [OF D(1)] population_world [OF D(1)] world_sessions [OF D(1)]
    by (auto simp: within_limits_def get_client_count_def split: option.split)
qed

text \<open>
  Property C3. Nobody is registered without having signed for it: in every reachable state, each
  registered session has a peer connection that was opened for a request with a valid signature of
  that very session, and the client is in the world of that request.
\<close>

theorem registered_sessions_signed:
  assumes "server_reachable api (machine_new (state_new mc mu mr ice l cc cm)) m"
    and "sessions_of (srv m) sid = Some u"
  shows "\<exists>p pe. peers m p = Some pe \<and> pe_session pe = sid \<and> pe_url pe = u \<and>
    sid_parse api (sr_session_id (pe_request pe)) = Some sid \<and>
    sid_verify api sid [as_bytes (sr_payload (pe_request pe))] (sr_sign (pe_request pe))"
proof -
  note D = machine_okD [OF reachable_ok [OF assms(1)]]
  from assms(2) obtain r where r: "connection_map (srv m) sid = Some r" "cd_url (the (cds (srv m) r)) = u"
    by (auto simp: sessions_of_def)
  with D(5) obtain p u' pe where "identities (srv m) r = Some (sid, p, u')" "peers m p = Some pe"
    "pe_session pe = sid" "pe_url pe = u'"
    unfolding entered_by_peer_def by blast
  moreover from this r have "u' = u" by (auto simp: identities_def)
  ultimately show ?thesis using D(6) unfolding peers_verified_def by blast
qed

theorem server_always_consistent_witness:
  "unat (client_count (srv example_entered)) = 1"
  using server_always_consistent [OF example_reachable(1) [unfolded example_start_def]]
  by (simp add: example_sessions_entered del: dom_sessions_of)

theorem registered_sessions_signed_witness:
  "\<exists>p pe. peers example_reentered p = Some pe \<and> pe_session pe = [65] \<and>
     sid_verify example_sid_api [65] [as_bytes (sr_payload (pe_request pe))] (sr_sign (pe_request pe))"
  using registered_sessions_signed [OF example_reachable(2) [unfolded example_start_def], of "[65]"]
  by (simp add: example_sessions_reentered) blast

section \<open>Entering as a whole\<close>

lemma enter_check_Ok:
  assumes "enter_check w h rh req s = Returns (Ok (sid, pl))"
  shows "verify (w_sid w) (h_enter_json h) (enter_normalize (h_url_parser h) (h_warn_enabled h)) req =
      Returns (Ok (sid, pl))"
    and "pl_url pl \<noteq> []" "sdp (pl_sdp pl) \<noteq> []" "is_new_connection_available (pl_url pl) s"
    and "\<And>c. cluster_client s = Some c \<Longrightarrow> is_my_work c (pl_url pl)"
  using assms
  by (auto simp: enter_check_def redirect_if_needed_def get_worker_def is_my_work_def
    split: outcome.splits sum.splits prod.splits if_splits option.splits worker.splits)

lemma setup_pc_Ok: "setup_pc api p offer = Ok answer \<Longrightarrow> p_local_description api p = Some answer"
  by (auto simp: setup_pc_def split: if_splits option.splits)

lemma enter_setup_cases:
  "enter_setup api p offer m =
     (if p_in_time api p \<and> (\<exists>answer. setup_pc api p offer = Ok answer)
      then (m, setup_pc api p offer)
      else (m\<lparr>srv := emit [PcClose p] (srv m)\<rparr>,
            if p_in_time api p then setup_pc api p offer else Err INTERNAL_SERVER_ERROR))"
  by (auto simp: enter_setup_def split: sum.split)

lemma setup_pc_status: "setup_pc api p offer = Err e \<Longrightarrow> e = BAD_REQUEST \<or> e = INTERNAL_SERVER_ERROR"
  by (auto simp: setup_pc_def split: if_splits option.splits)

lemma enter_register_closes:
  "enter_register w sid pl p m = (m', False) \<Longrightarrow> last (effects (srv m')) = PcClose p"
  by (auto simp: enter_register_def Let_def emit_def split: prod.splits if_splits)

text \<open>Where an entry that has passed its checks and got its connection is when the setup has ended.\<close>

definition enter_awaited ::
  "(nat \<Rightarrow> machine \<Rightarrow> machine) \<Rightarrow> pc \<Rightarrow> session_id \<Rightarrow> enter_request_payload \<Rightarrow> (string \<Rightarrow> string option) \<Rightarrow> signed_request \<Rightarrow>
     machine \<Rightarrow> machine" where
  "enter_awaited meanwhile p sid pl headers req m = meanwhile 1 (open_peer p sid pl headers req (meanwhile 0 m))"

lemma enter_cases:
  assumes "enter w h papi new_pc meanwhile rh headers req m = (m', out)"
  obtains (panics) "m' = m" "out = Panic"
  | (checked) e where "m' = m" "out = Returns (Err e)"
  | (no_pc) "new_pc = None" "m' = meanwhile 0 m" "out = Returns (Err INTERNAL_SERVER_ERROR)"
  | (not_set_up) sid pl p e where "enter_check w h rh req (srv m) = Returns (Ok (sid, pl))" "new_pc = Some p"
      "enter_setup papi p (pl_sdp pl) (enter_awaited meanwhile p sid pl headers req m) = (m', Err e)"
      "out = Returns (Err e)" "e = BAD_REQUEST \<or> e = INTERNAL_SERVER_ERROR"
  | (set_up) sid pl p answer where "enter_check w h rh req (srv m) = Returns (Ok (sid, pl))" "new_pc = Some p"
      "p_local_description papi p = Some answer"
      "m' = fst (enter_register w sid pl p (enter_awaited meanwhile p sid pl headers req m))"
      "out = Returns (if snd (enter_register w sid pl p (enter_awaited meanwhile p sid pl headers req m))
        then Ok answer else Err SERVICE_UNAVAILABLE)"
proof -
  show thesis
  proof (cases "\<exists>sid pl p. enter_check w h rh req (srv m) = Returns (Ok (sid, pl)) \<and> new_pc = Some p")
    case False
    with assms panics checked no_pc show thesis
      by (auto simp: enter_def Let_def split: outcome.splits sum.splits option.splits prod.splits)
  next
    case True
    then obtain sid pl p where c: "enter_check w h rh req (srv m) = Returns (Ok (sid, pl))" "new_pc = Some p" by blast
    let ?mb = "enter_awaited meanwhile p sid pl headers req m"
    show thesis
    proof (cases "p_in_time papi p \<and> (\<exists>answer. setup_pc papi p (pl_sdp pl) = Ok answer)")
      case True
      then obtain answer where did: "p_in_time papi p" "setup_pc papi p (pl_sdp pl) = Ok answer" by blast
      with assms c set_up [OF c setup_pc_Ok [OF did(2)]] show thesis
        by (cases "enter_register w sid pl p ?mb") (auto simp: enter_def Let_def enter_setup_cases enter_awaited_def split: if_splits bool.splits)
    next
      case False
      then obtain e where e: "enter_setup papi p (pl_sdp pl) ?mb = (?mb\<lparr>srv := emit [PcClose p] (srv ?mb)\<rparr>, Err e)"
        "e = BAD_REQUEST \<or> e = INTERNAL_SERVER_ERROR"
        using setup_pc_status [of papi p "pl_sdp pl"] by (cases "setup_pc papi p (pl_sdp pl)"; cases "p_in_time papi p") (auto simp: enter_setup_cases)
      with assms c not_set_up [OF c] show thesis by (auto simp: enter_def Let_def enter_awaited_def)
    qed
  qed
qed

text \<open>The handler is a run of the server's steps, with those of the others between its own.\<close>

lemma enter_awaited_reachable:
  assumes w: "w_sid w = api" and others: "\<And>k n. server_reachable api n (meanwhile k n)"
    and check: "enter_check w h rh req (srv m) = Returns (Ok (sid, pl))" and fresh: "peers (meanwhile 0 m) p = None"
  shows "server_reachable api m (enter_awaited meanwhile p sid pl headers req m)"
    and "\<exists>pe. peers (enter_awaited meanwhile p sid pl headers req m) p = Some pe \<and> pe_session pe = sid \<and> pe_url pe = pl_url pl"
proof -
  let ?open = "open_peer p sid pl headers req (meanwhile 0 m)"
  have "server_step api (meanwhile 0 m) ?open" by (rule server_step.opened [OF w check fresh])
  with others [of m 0] have "server_reachable api m ?open" by (rule server_reachable_intros(2))
  then show "server_reachable api m (enter_awaited meanwhile p sid pl headers req m)"
    unfolding enter_awaited_def by (rule server_reachable_trans) (rule others)
  obtain pe where pe: "peers ?open p = Some pe" "pe_session pe = sid" "pe_url pe = pl_url pl"
    by (simp add: open_peer_def)
  then have "peer_kept p pe ?open" by (simp add: peer_kept_def same_peer_def)
  then have "peer_kept p pe (enter_awaited meanwhile p sid pl headers req m)"
    unfolding enter_awaited_def by (rule peer_of.kept_reachable [OF others [unfolded server_reachable_def]])
  then show "\<exists>pe. peers (enter_awaited meanwhile p sid pl headers req m) p = Some pe \<and> pe_session pe = sid \<and>
      pe_url pe = pl_url pl"
    using pe(2,3) by (auto simp: peer_kept_def same_peer_def)
qed

lemma enter_reachable:
  assumes w: "w_sid w = api" and others: "\<And>k n. server_reachable api n (meanwhile k n)"
    and fresh: "\<And>p. new_pc = Some p \<Longrightarrow> peers (meanwhile 0 m) p = None"
    and run: "enter w h papi new_pc meanwhile rh headers req m = (m', out)"
  shows "server_reachable api m m'"
  using run
proof (cases rule: enter_cases)
  case (not_set_up sid pl p e)
  note at = enter_awaited_reachable [where meanwhile = meanwhile, OF w others not_set_up(1) fresh [OF not_set_up(2)]]
  from at(2) server_step.not_set_up [OF _ not_set_up(3)] at(1) show ?thesis
    by (blast intro: server_reachable_intros(2))
next
  case (set_up sid pl p answer)
  note at = enter_awaited_reachable [where meanwhile = meanwhile, OF w others set_up(1) fresh [OF set_up(2)]]
  from at(2) server_step.entered [OF w] at(1) set_up(4) show ?thesis
    by (blast intro: server_reachable_intros(2))
qed (use others server_reachable_intros(1) in \<open>auto simp: server_reachable_def\<close>)


text \<open>
  Property C4. What an entry comes to, whatever the others do while it waits. Answered with a description, it
  was signed by its session, names a world this server worked on when it was checked, and the session is now in that
  world and only there, whatever it had before. An entry that its checks refuse, or that panics in them, has changed
  nothing; one that gets no connection or cannot set it up has changed nobody's place, and its connection is
  closed. One case is left: if others have taken the room while the connection was set up, the entry is refused
  after the session's old connection has been taken out, so a session that was in another world is in none. That
  needs others: an entry that is answered with an error while they leave the sessions as they are leaves them too, and
  then a refusal that is not about the connection itself has done nothing but wait. In all cases the handler is a
  run of the server's steps.
\<close>

theorem enter_outcomes:
  assumes reach: "server_reachable api (machine_new (state_new mc mu mr ice l cc cm)) m" and w: "w_sid w = api"
    and others: "\<And>k n. server_reachable api n (meanwhile k n)"
    and fresh: "\<And>p. new_pc = Some p \<Longrightarrow> peers (meanwhile 0 m) p = None"
    and run: "enter w h papi new_pc meanwhile rh headers req m = (m', out)"
  shows "server_reachable api m m' \<and>
    ((\<exists>sid pl p mb. verify (w_sid w) (h_enter_json h) (enter_normalize (h_url_parser h) (h_warn_enabled h)) req =
          Returns (Ok (sid, pl)) \<and> pl_url pl \<noteq> [] \<and>
        (\<forall>c. cluster_client (srv m) = Some c \<longrightarrow> is_my_work c (pl_url pl)) \<and> new_pc = Some p \<and>
        mb = enter_awaited meanwhile p sid pl headers req m \<and>
        (case out of
           Returns (Inr answer) \<Rightarrow> p_local_description papi p = Some answer \<and>
             sessions_of (srv m') = (sessions_of (srv mb))(sid \<mapsto> pl_url pl)
         | Returns (Inl e) \<Rightarrow> last (effects (srv m')) = PcClose p \<and>
             (e \<in> {BAD_REQUEST, INTERNAL_SERVER_ERROR} \<and> sessions_of (srv m') = sessions_of (srv mb) \<or>
              e = SERVICE_UNAVAILABLE \<and> \<not> may_enter mc mu ((sessions_of (srv mb))(sid := None)) (pl_url pl) \<and>
              sessions_of (srv mb) sid \<noteq> Some (pl_url pl) \<and>
              sessions_of (srv m') = (sessions_of (srv mb))(sid := None))
         | Panic \<Rightarrow> False)) \<or>
     (\<forall>answer. out \<noteq> Returns (Ok answer)) \<and> m' = m \<or>
     out = Returns (Err INTERNAL_SERVER_ERROR) \<and> new_pc = None \<and> m' = meanwhile 0 m) \<and>
    (\<forall>e. out = Returns (Err e) \<and> (\<forall>k n. sessions_of (srv (meanwhile k n)) = sessions_of (srv n)) \<longrightarrow>
       sessions_of (srv m') = sessions_of (srv m) \<and>
       (e \<notin> {BAD_REQUEST, INTERNAL_SERVER_ERROR} \<longrightarrow> m' = m))"
proof (intro conjI)
  note reached = enter_reachable [where meanwhile = meanwhile, OF w others fresh run]
  then show "server_reachable api m m'" .
  note D = machine_okD [OF reachable_ok [OF reach]]
  have at: "machine_ok api mc mu (enter_awaited meanwhile p sid pl headers req m)"
    if "enter_check w h rh req (srv m) = Returns (Ok (sid, pl))" "new_pc = Some p" for sid pl p
    by (rule reachable_ok [OF server_reachable_trans [OF reach
          enter_awaited_reachable(1) [where meanwhile = meanwhile, OF w others that(1) fresh [OF that(2)]]]])
  have emit: "sessions_of (emit es s) = sessions_of s" "last (effects (emit (es @ [e]) s)) = e" for es e s
    by (simp_all add: sessions_of_def emit_def)
  have closed: "sessions_of (srv m') = sessions_of (srv mb) \<and> last (effects (srv m')) = PcClose p"
    if "enter_setup papi p offer mb = (m', Err e)" for p offer mb e
    using that emit(1) emit(2) [of "[]"] by (auto simp: enter_setup_cases split: if_splits)
  show "\<forall>e. out = Returns (Err e) \<and> (\<forall>k n. sessions_of (srv (meanwhile k n)) = sessions_of (srv n)) \<longrightarrow>
       sessions_of (srv m') = sessions_of (srv m) \<and>
       (e \<notin> {BAD_REQUEST, INTERNAL_SERVER_ERROR} \<longrightarrow> m' = m)"
  proof (intro allI impI)
    fix e
    assume e: "out = Returns (Err e) \<and> (\<forall>k n. sessions_of (srv (meanwhile k n)) = sessions_of (srv n))"
    have same: "sessions_of (srv (enter_awaited meanwhile p sid pl headers req m)) = sessions_of (srv m)" for p sid pl
      using e by (simp add: enter_awaited_def open_peer_def)
    from run show "sessions_of (srv m') = sessions_of (srv m) \<and> (e \<notin> {BAD_REQUEST, INTERNAL_SERVER_ERROR} \<longrightarrow> m' = m)"
    proof (cases rule: enter_cases)
      case (set_up sid pl p answer)
      have "may_enter mc mu (sessions_of (srv m)) (pl_url pl)"
        using enter_check_Ok(4) [OF set_up(1)] available_may_enter [OF D(1)] D(3,4) by simp
      with may_enter_again have "may_enter mc mu ((sessions_of (srv m))(sid := None)) (pl_url pl)"
        using state_okD(1) [OF D(1)] by simp
      then have "snd (enter_register w sid pl p (enter_awaited meanwhile p sid pl headers req m))"
        using enter_register_spec(2) [OF machine_okD(1) [OF at [OF set_up(1,2)]], of w sid pl p]
          machine_okD(3,4) [OF at [OF set_up(1,2)]] by (simp add: same)
      with set_up(5) e show ?thesis by simp
    qed (use e same closed in auto)
  qed
  let ?signed = "\<lambda>sid pl. verify (w_sid w) (h_enter_json h) (enter_normalize (h_url_parser h) (h_warn_enabled h)) req =
      Returns (Ok (sid, pl)) \<and> pl_url pl \<noteq> [] \<and> (\<forall>c. cluster_client (srv m) = Some c \<longrightarrow> is_my_work c (pl_url pl))"
  have signed: "?signed sid pl" if "enter_check w h rh req (srv m) = Returns (Ok (sid, pl))" for sid pl
    using enter_check_Ok [OF that] by blast
  from run show "(\<exists>sid pl p mb. verify (w_sid w) (h_enter_json h) (enter_normalize (h_url_parser h) (h_warn_enabled h)) req =
          Returns (Ok (sid, pl)) \<and> pl_url pl \<noteq> [] \<and>
        (\<forall>c. cluster_client (srv m) = Some c \<longrightarrow> is_my_work c (pl_url pl)) \<and> new_pc = Some p \<and>
        mb = enter_awaited meanwhile p sid pl headers req m \<and>
        (case out of
           Returns (Inr answer) \<Rightarrow> p_local_description papi p = Some answer \<and>
             sessions_of (srv m') = (sessions_of (srv mb))(sid \<mapsto> pl_url pl)
         | Returns (Inl e) \<Rightarrow> last (effects (srv m')) = PcClose p \<and>
             (e \<in> {BAD_REQUEST, INTERNAL_SERVER_ERROR} \<and> sessions_of (srv m') = sessions_of (srv mb) \<or>
              e = SERVICE_UNAVAILABLE \<and> \<not> may_enter mc mu ((sessions_of (srv mb))(sid := None)) (pl_url pl) \<and>
              sessions_of (srv mb) sid \<noteq> Some (pl_url pl) \<and>
              sessions_of (srv m') = (sessions_of (srv mb))(sid := None))
         | Panic \<Rightarrow> False)) \<or>
     (\<forall>answer. out \<noteq> Returns (Ok answer)) \<and> m' = m \<or>
     out = Returns (Err INTERNAL_SERVER_ERROR) \<and> new_pc = None \<and> m' = meanwhile 0 m"
  proof (cases rule: enter_cases)
    case (not_set_up sid pl p e)
    with signed [OF not_set_up(1)] closed [OF not_set_up(3)] show ?thesis by (intro disjI1 exI conjI refl) auto
  next
    case (set_up sid pl p answer)
    let ?mb = "enter_awaited meanwhile p sid pl headers req m"
    note mb = machine_okD [OF at [OF set_up(1,2)]]
    have closes: "last (effects (srv m')) = PcClose p" if "\<not> snd (enter_register w sid pl p ?mb)"
      using that enter_register_closes [of w sid pl p ?mb m'] set_up(4) by (simp add: prod_eq_iff)
    have "finite (dom (sessions_of (srv ?mb)))" "card (dom (sessions_of (srv ?mb))) \<le> unat (limit_or_max mc)"
      using state_okD(1,2) [OF mb(1)] mb(2,3) by (simp_all add: within_limits_def word_le_nat_alt)
    then have "sessions_of (srv ?mb) sid \<noteq> Some (pl_url pl) \<or>
        may_enter mc mu ((sessions_of (srv ?mb))(sid := None)) (pl_url pl)"
      using own_place_is_free [of "sessions_of (srv ?mb)" mc "pl_url pl" mu sid] mb(2,4) by (auto simp: within_limits_def)
    then show ?thesis
      using signed [OF set_up(1)] set_up(2,3,5) closes mb(3,4) enter_register_spec(1,2) [OF mb(1), of w sid pl p]
      unfolding set_up(4) by (intro disjI1 exI conjI refl) auto
  qed auto
qed

text \<open>An entry that passes its checks and whose connection is set up is answered.\<close>

lemma enter_answered:
  assumes ok: "state_ok (srv m)" and check: "enter_check w h rh req (srv m) = Returns (Ok (sid, pl))"
    and did: "p_in_time api p" "setup_pc api p (pl_sdp pl) = Ok answer"
  shows "\<exists>m'. enter w h api (Some p) (\<lambda>_ n. n) rh headers req m = (m', Returns (Ok answer))"
proof -
  let ?m = "open_peer p sid pl headers req m"
  have srv: "srv ?m = srv m" by (simp add: open_peer_def)
  have "may_enter (max_connections (srv m)) (max_connections_by_url (srv m)) (sessions_of (srv m)) (pl_url pl)"
    using enter_check_Ok(4) [OF check] available_may_enter [OF ok] by simp
  moreover have "finite (dom (sessions_of (srv m)))" using state_okD(1) [OF ok] by simp
  ultimately show ?thesis
    using enter_register_spec(2) [of ?m, unfolded srv, OF ok, of w sid pl p] may_enter_again
    by (cases "enter_register w sid pl p ?m") (simp add: enter_def check Let_def enter_setup_cases did)
qed

theorem enter_outcomes_witness:
  "\<exists>m' answer. enter example_world example_http example_peer_api (Some 1) (\<lambda>_ n. n) [] (\<lambda>_. None) example_request
       example_start = (m', Returns (Ok answer)) \<and>
     sessions_of (srv m') = [[65] \<mapsto> ''https://a.b/w''] \<and> server_reachable example_sid_api example_start m'"
proof -
  have ok: "state_ok (srv example_start)" by (simp add: example_start_def machine_new_def)
  have s0: "sessions_of (srv example_start) = Map.empty" "cluster_client (srv example_start) = None"
    "peers example_start = Map.empty"
    by (simp_all add: example_start_def machine_new_def) (simp add: state_new_def)
  have "is_new_connection_available ''https://a.b/w'' (srv example_start)"
    using ok s0(1) by (intro available_example) (simp_all add: example_start_def machine_new_def, simp_all add: state_new_def)
  note check = example_enter_check [OF s0(2) this, of "[]"]
  have "p_in_time example_peer_api 1"
    "setup_pc example_peer_api 1 (pl_sdp example_payload) = Ok \<lparr>sdp_type = ''answer'', sdp = ''v=0''\<rparr>"
    by (simp_all add: example_peer_api_def setup_pc_def)
  from enter_answered [OF ok check this, of "\<lambda>_. None"] obtain m' where
    run: "enter example_world example_http example_peer_api (Some 1) (\<lambda>_ n. n) [] (\<lambda>_. None) example_request example_start =
      (m', Returns (Ok \<lparr>sdp_type = ''answer'', sdp = ''v=0''\<rparr>))" by blast
  have "verify example_sid_api example_enter_json (enter_normalize example_url_parser True) example_request =
      Returns (Ok ([65], example_payload))"
    using enter_check_Ok(1) [OF check] by (simp add: example_world_def example_http_def)
  moreover have "w_sid example_world = example_sid_api" by (simp add: example_world_def)
  ultimately show ?thesis
    using enter_outcomes [OF server_reachable_intros(1) [of example_sid_api example_start, unfolded example_start_def],
        where w = example_world and meanwhile = "\<lambda>_ n. n", folded example_start_def, OF _ server_reachable_intros(1) _ run] run s0
    by (auto simp: example_http_def example_payload_def enter_awaited_def open_peer_def)
qed

section \<open>Candidates\<close>

lemma verified_parts:
  assumes "verify api from_json norm req = Returns (Ok (sid, p))"
  obtains p0 where "sid_parse api (sr_session_id req) = Some sid"
    "sid_verify api sid [as_bytes (sr_payload req)] (sr_sign req)" "from_json (sr_payload req) = Some p0" "norm p0 = Returns p"
  using assms by (auto simp: verify_def split: option.splits if_splits outcome.splits)

lemma candidate_cases:
  fixes w :: world and h :: http_api and req :: signed_request
  defines "v \<equiv> verify (w_sid w) (h_candidate_json h) (candidate_normalize (h_url_parser h) (h_warn_enabled h)) req"
  assumes run: "candidate w h rh req s = (s', out)" and did: "s' \<noteq> s \<or> out = Returns (Ok u)"
  obtains sid pl r where "v = Returns (Ok (sid, pl))" "connection_map s sid = Some r"
    "s' = emit [AddIceCandidate (cd_pc (the (cds s r))) (pl_sdp pl)] s"
proof (cases v)
  case Panic
  with run did show thesis by (simp add: candidate_def v_def)
next
  case (Returns a)
  show thesis
  proof (cases a)
    case (Inl e)
    with Returns run did show thesis by (simp add: candidate_def v_def)
  next
    case (Inr b)
    obtain sid pl where b: "b = (sid, pl)" by (cases b)
    note v = Returns [unfolded Inr b]
    show thesis
    proof (cases "connection_map s sid")
      case None
      with run did v show thesis
        by (auto simp: candidate_def v_def get_connection_def split: if_splits option.splits sum.splits)
    next
      case (Some r)
      moreover from this run did v have "s' = emit [AddIceCandidate (cd_pc (the (cds s r))) (pl_sdp pl)] s"
        by (auto simp: candidate_def v_def get_connection_def add_ice_candidate_def split: if_splits option.splits sum.splits)
      ultimately show thesis using that v by blast
    qed
  qed
qed

text \<open>
  Property C10. A candidate reaches nobody else's connection: whatever the server does for a candidate
  request, the one thing it hands to the network is the candidate of that request, as the signature covers
  it, to the connection that the session signing it has itself entered by; and the sessions stay as they are. It is
  handed over before the request is answered with success.
\<close>

theorem candidate_own_connection:
  assumes reach: "server_reachable api (machine_new (state_new mc mu mr ice l cc cm)) m" and w: "w_sid w = api"
    and run: "candidate w h rh req (srv m) = (s', out)"
  shows "same_sessions (srv m) s' \<and>
    (s' = srv m \<and> (\<forall>u. out \<noteq> Returns (Ok u)) \<or>
     (\<exists>sid pl0 pl p pe. sid_parse api (sr_session_id req) = Some sid \<and>
        sid_verify api sid [as_bytes (sr_payload req)] (sr_sign req) \<and>
        h_candidate_json h (sr_payload req) = Some pl0 \<and>
        candidate_normalize (h_url_parser h) (h_warn_enabled h) pl0 = Returns pl \<and>
        sessions_of (srv m) sid = Some (pe_url pe) \<and> peers m p = Some pe \<and> pe_session pe = sid \<and>
        s' = emit [AddIceCandidate p (pl_sdp pl)] (srv m)))"
proof -
  note D = machine_okD [OF reachable_ok [OF reach]]
  have own: "\<exists>pe. peers m (cd_pc (the (cds (srv m) r))) = Some pe \<and> pe_session pe = sid \<and>
      sessions_of (srv m) sid = Some (pe_url pe)"
    if "connection_map (srv m) sid = Some r" for sid r
    using D(5) that unfolding entered_by_peer_def by (fastforce simp: identities_def sessions_of_def)
  show ?thesis
  proof (cases "s' = srv m \<and> (\<forall>u. out \<noteq> Returns (Ok u))")
    case True
    then show ?thesis using same_sessions_refl [OF D(1)] by simp
  next
    case False
    then obtain u where "s' \<noteq> srv m \<or> out = Returns (Ok u)" by auto
    with run obtain sid pl r where v: "verify (w_sid w) (h_candidate_json h)
        (candidate_normalize (h_url_parser h) (h_warn_enabled h)) req = Returns (Ok (sid, pl))"
      and r: "connection_map (srv m) sid = Some r"
      and s': "s' = emit [AddIceCandidate (cd_pc (the (cds (srv m) r))) (pl_sdp pl)] (srv m)"
      by (rule candidate_cases)
    obtain pe where pe: "peers m (cd_pc (the (cds (srv m) r))) = Some pe" "pe_session pe = sid"
      "sessions_of (srv m) sid = Some (pe_url pe)" using own [OF r] by blast
    from v obtain pl0 where "sid_parse (w_sid w) (sr_session_id req) = Some sid"
      "sid_verify (w_sid w) sid [as_bytes (sr_payload req)] (sr_sign req)"
      "h_candidate_json h (sr_payload req) = Some pl0"
      "candidate_normalize (h_url_parser h) (h_warn_enabled h) pl0 = Returns pl"
      by (rule verified_parts)
    with pe s' emit_same [OF D(1)] show ?thesis unfolding w by blast
  qed
qed

lemma example_entered_cluster: "cluster_client (srv example_entered) = None"
proof -
  have "srv example_opened = srv example_start" by (simp add: example_opened_def open_peer_def)
  moreover have "state_ok (srv example_start)" "cluster_client (srv example_start) = None"
    by (simp_all add: example_start_def machine_new_def) (simp add: state_new_def)
  ultimately show ?thesis using enter_register_spec(5) [of example_opened] by (simp add: example_entered_def)
qed

theorem candidate_own_connection_witness:
  "\<exists>p pe. fst (candidate example_world example_http [] example_request (srv example_entered)) =
       emit [AddIceCandidate p ''candidate''] (srv example_entered) \<and>
     peers example_entered p = Some pe \<and> pe_session pe = [65]"
proof -
  let ?s = "srv example_entered"
  obtain s' out where run: "candidate example_world example_http [] example_request ?s = (s', out)" by fastforce
  have "sessions_of ?s [65] \<noteq> None" by (simp add: example_sessions_entered)
  then obtain r where r: "connection_map ?s [65] = Some r" by (auto simp: sessions_of_def)
  have v: "verify example_sid_api (h_candidate_json example_http) (candidate_normalize example_url_parser True) example_request =
      Returns (Ok ([65], \<lparr>pl_url = ''https://a.b/w'', pl_sdp = ''candidate'', pl_raw_url = ''https://a.b/w''\<rparr>))"
    by (simp add: example_http_def example_request_def verify_def example_sid_api_def example_sid
      candidate_normalize_def MAX_URL_LEN_def Let_def example_url)
  have "s' = emit [AddIceCandidate (cd_pc (the (cds ?s r))) ''candidate''] ?s"
    using run v r by (simp add: candidate_def example_world_def example_entered_cluster get_connection_def
      add_ice_candidate_def [abs_def] example_http_def split: if_splits)
  then have "s' \<noteq> ?s" by (auto simp: emit_def dest: arg_cong [of _ _ effects])
  with candidate_own_connection [OF example_reachable(1) [unfolded example_start_def] _ run] obtain sid pl0 pl p pe
    where sid: "sid_parse example_sid_api (sr_session_id example_request) = Some sid"
      and pl: "h_candidate_json example_http (sr_payload example_request) = Some pl0"
        "candidate_normalize (h_url_parser example_http) (h_warn_enabled example_http) pl0 = Returns pl"
      and p: "peers example_entered p = Some pe" "pe_session pe = sid" "s' = emit [AddIceCandidate p (pl_sdp pl)] ?s"
    by (auto simp: example_world_def)
  have "sid = [65]" using sid by (simp add: example_sid_api_def example_request_def example_sid)
  moreover have "pl_sdp pl = ''candidate''"
    using pl by (auto simp: example_http_def example_request_def candidate_normalize_def MAX_URL_LEN_def Let_def)
  ultimately show ?thesis using p run by auto
qed

section \<open>Connections that end\<close>

text \<open>
  Property C12. When a peer connection fails, disconnects or closes, its session is taken out. The event
  names the session only, so a late event of an earlier connection takes out the client that the
  session has entered with since, although its own connection is in use.
\<close>

theorem ended_connection_leaves:
  assumes reach: "server_reachable api (machine_new (state_new mc mu mr ice l cc cm)) m" and p: "peers m p = Some pe"
    and st: "st \<in> {PcFailed, PcDisconnected, PcClosed}" "ist \<in> {IceDisconnected, IceFailed, IceClosed}"
  shows "sessions_of (srv (on_peer_state w p st m)) = (sessions_of (srv m))(pe_session pe := None) \<and>
    sessions_of (srv (on_ice_state w p ist m)) = (sessions_of (srv m))(pe_session pe := None)"
proof -
  note ok = machine_okD(1) [OF reachable_ok [OF reach]]
  have "srv (on_peer_state w p st m) = remove_connection (w_sid w) (pe_session pe) (srv m)"
    using p st(1) by (auto simp: on_peer_state_def)
  moreover have "srv (on_ice_state w p ist m) = remove_connection (w_sid w) (pe_session pe) (srv m)"
    using p st(2) by (auto simp: on_ice_state_def)
  ultimately show ?thesis by (simp add: sessions_of_removed [OF ok])
qed

theorem ended_connection_leaves_witness:
  "sessions_of (srv example_reentered) = [[65] \<mapsto> ''https://a.b/w''] \<and>
   sessions_of (srv (on_peer_state example_world 1 PcClosed example_reentered)) = Map.empty"
proof -
  obtain pe where pe: "peers example_reentered 1 = Some pe" "pe_session pe = [65]" using example_peer by blast
  have "sessions_of (srv (on_peer_state example_world 1 PcClosed example_reentered)) =
      (sessions_of (srv example_reentered))(pe_session pe := None)"
    using ended_connection_leaves [OF example_reachable(2) [unfolded example_start_def] pe(1), of PcClosed IceClosed] by simp
  then show ?thesis by (simp add: example_sessions_reentered pe(2))
qed

text \<open>
  Property C26. Once a world has moved to another server, the next message of any of its clients closes
  the channel and the connection and takes the client's session out, without looking at the message.
\<close>

theorem moved_world_leaves:
  assumes consistent: "state_ok (srv m)" and ch: "channels m d = Some ch" and c: "cluster_client (srv m) = Some c"
    and moved: "\<not> is_my_work c (cd_url (the (cds (srv m) (ch_client ch))))"
    and up: "up = \<lparr>up_client = True, up_state = True, up_dc = True, up_pc = True\<rparr>"
  shows "snd (on_message w up d data m) = Returns () \<and>
    sessions_of (srv (fst (on_message w up d data m))) = (sessions_of (srv m))(ch_session ch := None) \<and>
    (\<exists>es. effects (srv (fst (on_message w up d data m))) = effects (srv m) @ [DcClose d, PcClose (ch_pc ch)] @ es)"
proof -
  let ?s = "emit [DcClose d, PcClose (ch_pc ch)] (srv m)"
  have ok: "state_ok ?s"
    using emit_same [OF consistent] by (simp add: same_sessions_def)
  have run: "on_message w up d data m = (m\<lparr>srv := remove_connection (w_sid w) (ch_session ch) ?s\<rparr>, Returns ())"
    by (simp add: on_message_def ch c moved up Let_def emit_emit)
  have "sessions_of ?s = sessions_of (srv m)" by (simp add: sessions_of_def)
  moreover have "effects (remove_connection (w_sid w) (ch_session ch) ?s) = effects ?s @
      (case connection_map ?s (ch_session ch) of None \<Rightarrow> [] | Some r \<Rightarrow> dispose (the (cds ?s r)))"
    by (rule remove_effects [OF ok])
  ultimately show ?thesis by (simp add: run sessions_of_removed [OF ok])
qed

definition example_moved :: machine where
  "example_moved = \<lparr>srv = example_state\<lparr>cluster_client := Some (client_new ''a'' ''c'')\<rparr>, peers = Map.empty,
     channels = [7 \<mapsto> \<lparr>ch_client = 0, ch_pc = 1, ch_session = [1]\<rparr>]\<rparr>"

theorem moved_world_leaves_witness:
  "sessions_of (srv (fst (on_message example_world \<lparr>up_client = True, up_state = True, up_dc = True, up_pc = True\<rparr> 7 [] example_moved))) = [[2] \<mapsto> ''w1'']"
proof -
  have "state_ok (srv example_moved)" using example_state_ok by (simp add: example_moved_def)
  moreover have "channels example_moved 7 = Some \<lparr>ch_client = 0, ch_pc = 1, ch_session = [1]\<rparr>"
    "cluster_client (srv example_moved) = Some (client_new ''a'' ''c'')"
    by (simp_all add: example_moved_def)
  moreover have "\<not> is_my_work (client_new ''a'' ''c'') u" for u
    by (simp add: client_defs)
  ultimately have "sessions_of (srv (fst (on_message example_world \<lparr>up_client = True, up_state = True, up_dc = True, up_pc = True\<rparr> 7 [] example_moved))) =
      (sessions_of (srv example_moved))([1] := None)"
    using moved_world_leaves [OF _ _ _ _ refl, of example_moved 7] by simp
  also have "sessions_of (srv example_moved) = [[1] \<mapsto> ''w1'', [2] \<mapsto> ''w1'']"
    by (simp add: example_moved_def example_sessions)
  finally show ?thesis by (auto simp: fun_eq_iff)
qed

end
