(* ===== verification/Entrance_Log.thy ===== *)
theory Entrance_Log
  imports Entrance_Safety
begin

text \<open>
  The access log over whole runs of the server: what the program writes for a connection, and that no
  client can write lines of its own into it.
\<close>

section \<open>Log lines among the effects\<close>

definition log_line :: "effect \<Rightarrow> string option" where
  "log_line e = (case e of AccessLog l \<Rightarrow> Some l | _ \<Rightarrow> None)"

definition access_log :: "server_state \<Rightarrow> string list" where
  "access_log s = List.map_filter log_line (effects s)"

definition one_line :: "string \<Rightarrow> bool" where
  "one_line l \<longleftrightarrow> CHR 0x0A \<notin> set l \<and> CHR 0x0D \<notin> set l"

lemma one_line_append [simp]: "one_line (a @ b) \<longleftrightarrow> one_line a \<and> one_line b"
  by (auto simp: one_line_def)

lemma one_line_Cons [simp]: "one_line (c # b) \<longleftrightarrow> c \<noteq> CHR 0x0A \<and> c \<noteq> CHR 0x0D \<and> one_line b"
  by (auto simp: one_line_def)

lemma one_line_Nil [simp]: "one_line []"
  by (simp add: one_line_def)

lemma map_filter_append: "List.map_filter f (xs @ ys) = List.map_filter f xs @ List.map_filter f ys"
  by (simp add: List.map_filter_def)

lemma access_log_emit [simp]: "access_log (emit es s) = access_log s @ List.map_filter log_line es"
  by (simp add: access_log_def map_filter_append)

lemma log_line_simps [simp]:
  "log_line (DcSend d bs) = None" "log_line (DcClose d) = None" "log_line (PcClose p) = None"
  "log_line (AddIceCandidate p c) = None" "log_line (ClearDataChannelHandler p) = None"
  "log_line (ClearMessageHandler d) = None" "log_line (SpawnClose dd p) = None" "log_line (AccessLog l) = Some l"
  by (simp_all add: log_line_def)

lemma dispose_quiet [simp]: "List.map_filter log_line (dispose cd) = []"
  by (simp add: dispose_def split: option.split)

lemma access_log_same_effects: "effects s' = effects s \<Longrightarrow> access_log s' = access_log s"
  by (simp add: access_log_def)

lemma remove_quiet: "state_ok s \<Longrightarrow> access_log (remove_connection api sid s) = access_log s"
  by (simp add: access_log_def remove_effects map_filter_append split: option.split)

lemma add_connection_effects [simp]: "effects (fst (add_connection r s)) = effects s"
  by (auto simp: add_connection_def Let_def split: option.split prod.split)

lemma enter_register_quiet:
  assumes "state_ok (srv m)"
  shows "access_log (srv (fst (enter_register w sid pl p m))) = access_log (srv m)"
proof -
  define s1 where "s1 = remove_connection (w_sid w) sid (srv m)"
  define s2 where "s2 = fst (alloc_client (client_data_new sid p (pl_url pl)) s1)"
  have alloc: "alloc_client (client_data_new sid p (pl_url pl)) s1 = (s2, next_ref s1)" by (simp add: s2_def prod_eq_iff)
  have "access_log (fst (add_connection (next_ref s1) s2)) = access_log s2"
    by (rule access_log_same_effects) simp
  also have "\<dots> = access_log s1" by (rule access_log_same_effects) (simp add: s2_def)
  also have "\<dots> = access_log (srv m)" unfolding s1_def by (rule remove_quiet [OF assms])
  finally show ?thesis
    by (simp add: enter_register_def s1_def [symmetric] alloc Let_def case_prod_unfold)
qed

section \<open>Messages write nothing\<close>

definition quiet_reply :: "server_state \<Rightarrow> 'a reply \<Rightarrow> bool" where
  "quiet_reply s rep \<longleftrightarrow> access_log (fst rep) = access_log s"

lemma quiet_reply_simp [simp]: "quiet_reply s (s', out) \<longleftrightarrow> access_log s' = access_log s"
  by (simp add: quiet_reply_def)

lemma quiet_reply_map:
  "quiet_reply s rep \<Longrightarrow>
     (\<And>s' e. access_log s' = access_log s \<Longrightarrow> quiet_reply s (f s' e)) \<Longrightarrow>
     (\<And>s' x. access_log s' = access_log s \<Longrightarrow> quiet_reply s (g s' x)) \<Longrightarrow>
     quiet_reply s (case rep of (s', Panic) \<Rightarrow> (s', Panic) | (s', Returns (Inl e)) \<Rightarrow> f s' e | (s', Returns (Inr x)) \<Rightarrow> g s' x)"
  by (auto simp: quiet_reply_def split: prod.split outcome.split sum.split)

lemma state_send_quiet: "access_log (fst (state_send_rpc_response c rtc to i par s)) = access_log s"
  by (simp add: state_send_cases Let_def split: option.split)

lemma transfer_core_quiet: "quiet_reply s (transfer_core w req s)"
  by (auto simp: transfer_core_def Let_def quiet_reply_def case_prod_unfold state_send_quiet split: option.split sum.split)

lemma transfer_quiet: "quiet_reply s (transfer w req s)"
  unfolding transfer_def Let_def by (rule quiet_reply_map [OF transfer_core_quiet]) simp_all

lemma modify_client_effects [simp]: "effects (modify_client r f s) = effects s"
  by (simp add: modify_client_def)

lemma exchange_quiet: "quiet_reply s (exchange_routeing_info w r ri s)"
  unfolding quiet_reply_def
  by (rule access_log_same_effects)
    (simp add: exchange_routeing_info_def Let_def get_url_data_def split: option.split)

lemma on_swarm_message_quiet: "quiet_reply s (on_swarm_message w r packet s)"
  unfolding on_swarm_message_def
  by (auto simp: Let_def split: option.split packet_data.split
    intro: quiet_reply_map [OF transfer_quiet] quiet_reply_map [OF exchange_quiet])

lemma on_rtc_message_quiet: "quiet_reply s (on_rtc_message w r data s)"
proof -
  have answer: "quiet_reply s (case cd_send_rpc_response c rtc cd i bs of
      (es, Inl e) \<Rightarrow> (emit es s1, Returns (Err e)) | (es, Inr _) \<Rightarrow> (emit es s1, Returns (Ok ())))"
    if "access_log s1 = access_log s" for c rtc cd i bs s1
    using that by (simp add: cd_send_rpc_response_def Let_def split: option.split)
  have request: "quiet_reply s
      (case on_swarm_message w r sp s of
         (s, Panic) \<Rightarrow> (s, Panic)
       | (s, Returns (Inl e)) \<Rightarrow> (s, Returns (Err e))
       | (s, Returns (Inr None)) \<Rightarrow> (s, Returns (Ok ()))
       | (s, Returns (Inr (Some res))) \<Rightarrow>
           (case cd_send_rpc_response (w_codec w) (w_rtc w) (the (cds s r)) i (enc_swarm (w_codec w) res) of
              (es, Inl e) \<Rightarrow> (emit es s, Returns (Err e))
            | (es, Inr _) \<Rightarrow> (emit es s, Returns (Ok ()))))" for sp i
    by (rule quiet_reply_map [OF on_swarm_message_quiet]) (auto intro: answer split: option.split)
  show ?thesis
    unfolding on_rtc_message_def
    by (auto split: sum.split option.split packet_data.split intro: request)
qed

section \<open>What is written\<close>

lemma header_one_line: "header_to_str v = Some c \<Longrightarrow> one_line c"
  by (auto simp: header_to_str_def one_line_def list_all_iff split: if_splits)

lemma digit_one_line: "d < 10 \<Longrightarrow> digit_char d \<noteq> CHR 0x0A \<and> digit_char d \<noteq> CHR 0x0D"
proof -
  assume "d < 10"
  then have "(of_char (digit_char d) :: nat) = 48 + d" by (simp add: digit_char_def)
  moreover have "(of_char CHR 0x0A :: nat) = 10" "(of_char CHR 0x0D :: nat) = 13" by simp_all
  ultimately have "digit_char d = CHR 0x0A \<Longrightarrow> False" "digit_char d = CHR 0x0D \<Longrightarrow> False" by simp_all
  then show ?thesis by blast
qed

lemma show_nat_one_line: "one_line (show_nat n)"
proof (induction n rule: show_nat.induct)
  case (1 n)
  then show ?case
    using digit_one_line [of n] digit_one_line [of "n mod 10"]
    by (subst show_nat.simps) simp
qed

lemma append_access_log_cases:
  "append_access_log cc u hs s = s \<or>
   (\<exists>l. append_access_log cc u hs s = emit [AccessLog l] s \<and> (one_line u \<longrightarrow> one_line l) \<and> take 7 l = ''access '')"
  using header_one_line show_nat_one_line [of "unat cc"]
  by (auto simp: append_access_log_def Let_def split: option.split)

definition logged_peers :: "machine \<Rightarrow> pc set" where
  "logged_peers m = {p. \<exists>pe. peers m p = Some pe \<and> pe_log_sent pe}"

definition log_ok :: "machine \<Rightarrow> bool" where
  "log_ok m \<longleftrightarrow> (\<forall>l\<in>set (access_log (srv m)). one_line l \<and> take 7 l = ''access '') \<and>
     (\<forall>p pe. peers m p = Some pe \<longrightarrow> one_line (pe_raw_url pe)) \<and>
     finite (logged_peers m) \<and> length (access_log (srv m)) \<le> card (logged_peers m)"

lemma log_ok_quiet:
  "log_ok m \<Longrightarrow> access_log (srv m') = access_log (srv m) \<Longrightarrow> peers m' = peers m \<Longrightarrow> log_ok m'"
  by (simp add: log_ok_def logged_peers_def)

lemma enter_check_one_line:
  assumes "enter_check w h rh req s = Returns (Ok (sid, pl))"
  shows "one_line (pl_raw_url pl)"
proof -
  from enter_check_Ok(1,2) [OF assms] obtain pl0 where
    "enter_normalize (h_url_parser h) (h_warn_enabled h) pl0 = Returns pl" "pl_url pl \<noteq> []"
    by (auto dest: verify_norm)
  then show ?thesis
    by (auto simp: enter_normalize_def Let_def one_line_def split: if_splits outcome.splits)
qed

lemma log_ok_opened:
  assumes ok: "log_ok m" and pl: "one_line (pl_raw_url pl)" and new: "peers m p = None"
  shows "log_ok (open_peer p sid pl hs req m)"
proof -
  have "logged_peers (open_peer p sid pl hs req m) = logged_peers m"
    using new by (auto simp: logged_peers_def open_peer_def)
  then show ?thesis using ok pl by (auto simp: log_ok_def open_peer_def)
qed

lemma log_ok_peer_changed:
  assumes ok: "log_ok m" and st: "state_ok (srv m)"
  shows "log_ok (on_peer_state w p st' m)"
proof (cases "peers m p")
  case None
  with ok show ?thesis by (simp add: on_peer_state_def)
next
  case (Some pe)
  let ?cc = "case get_url_data (pe_url pe) (srv m) of Some ud \<Rightarrow> get_client_count ud | None \<Rightarrow> 1"
  define m1 where "m1 = m\<lparr>peers := (peers m)(p \<mapsto> pe\<lparr>pe_log_sent := True\<rparr>),
      srv := append_access_log ?cc (pe_raw_url pe) (pe_headers pe) (srv m)\<rparr>"
  have removed: "log_ok (k\<lparr>srv := remove_connection (w_sid w) (pe_session pe) (srv k)\<rparr>)"
    if "log_ok k" "state_ok (srv k)" for k
    by (rule log_ok_quiet [OF that(1)]) (simp_all add: remove_quiet [OF that(2)])
  have first: "log_ok m1" if "\<not> pe_log_sent pe"
  proof -
    have "logged_peers m1 = insert p (logged_peers m)" using Some by (auto simp: m1_def logged_peers_def)
    moreover have "p \<notin> logged_peers m" using Some that by (simp add: logged_peers_def)
    ultimately show ?thesis
      using ok Some append_access_log_cases [of ?cc "pe_raw_url pe" "pe_headers pe" "srv m"]
      by (auto simp: log_ok_def m1_def)
  qed
  have "state_ok (srv m1)"
    using append_access_log_emits [of ?cc "pe_raw_url pe" "pe_headers pe" "srv m"] emit_same [OF st]
    by (auto simp: m1_def same_sessions_def)
  moreover have "on_peer_state w p st' m =
      (if st' = PcConnected \<and> \<not> pe_log_sent pe then m1
       else if st' = PcFailed \<or> st' = PcDisconnected \<or> st' = PcClosed
       then m\<lparr>srv := remove_connection (w_sid w) (pe_session pe) (srv m)\<rparr> else m)"
    by (auto simp: on_peer_state_def Some m1_def Let_def)
  ultimately show ?thesis using first removed [OF ok st] ok by simp
qed

lemma log_ok_step:
  assumes "server_step api m m'" "log_ok m" "state_ok (srv m)"
  shows "log_ok m'"
  using assms
proof (induction rule: server_step.induct)
  case (opened w h request_host req s sid pl m p headers)
  then show ?case using log_ok_opened enter_check_one_line by blast
next
  case (not_set_up m p pe papi offer m' e)
  then show ?case
    by (auto simp: enter_setup_cases split: if_splits intro: log_ok_quiet [OF not_set_up.prems(1)])
next
  case (entered w m p pe sid pl)
  then show ?case
    by (intro log_ok_quiet [OF entered.prems(1)]) (simp_all add: enter_register_quiet enter_register_spec(3))
next
  case (candidate_sent w m h rh req)
  obtain s' out where run: "candidate w h rh req (srv m) = (s', out)" by fastforce
  then have "access_log s' = access_log (srv m)"
    by (cases "s' = srv m") (auto elim: candidate_cases)
  with run candidate_sent show ?case by (intro log_ok_quiet [OF candidate_sent.prems(1)]) simp_all
next
  case (ice_changed w m p st)
  then show ?case
    by (intro log_ok_quiet [OF ice_changed.prems(1)])
      (auto simp: on_ice_state_def remove_quiet split: option.split)
next
  case (peer_changed w m p st')
  then show ?case using log_ok_peer_changed by blast
next
  case (channel_opened m p d)
  then show ?case
    by (intro log_ok_quiet [OF channel_opened.prems(1)])
      (auto simp: on_data_channel_def access_log_def split: option.split)
next
  case (message_received w m upgraded d data)
  have st: "state_ok (emit es (srv m))" "state_ok (srv m)" for es
    using emit_same [OF message_received.prems(2)] message_received.prems(2) by (simp_all add: same_sessions_def)
  have "access_log s1 = access_log (srv m)" if "on_rtc_message w r data (srv m) = (s1, out)" for r s1 out
    using on_rtc_message_quiet [of "srv m" w r data] that by simp
  then have "access_log (srv (fst (on_message w upgraded d data m))) = access_log (srv m)"
    "peers (fst (on_message w upgraded d data m)) = peers m"
    by (auto simp: on_message_def Let_def remove_quiet [OF st(1)] remove_quiet [OF st(2)] emit_emit split: option.split prod.split outcome.split)
  then show ?case by (rule log_ok_quiet [OF message_received.prems(1)])
next
  case (nodes_loaded m answer)
  then show ?case
    using load_node_list_cases [of answer "srv m"]
    by (intro log_ok_quiet [OF nodes_loaded.prems(1)]) (auto simp: access_log_def)
qed

text \<open>
  Property C11. Nobody can write lines of their own into the access log, whatever URLs and headers they
  send: in every run of the server each entry is one line of the program's own form, and there is at
  most one for each peer connection, of those that were connected once.
\<close>

theorem access_log_not_forged:
  assumes "server_reachable api (machine_new (state_new mc mu mr ice l cc cm)) m"
  shows "(\<forall>l\<in>set (access_log (srv m)). one_line l \<and> take 7 l = ''access '') \<and>
    length (access_log (srv m)) \<le> card (logged_peers m)"
proof -
  have "log_ok (machine_new (state_new mc mu mr ice l cc cm))"
    by (simp add: log_ok_def access_log_def machine_new_def logged_peers_def) (simp add: state_new_def)
  moreover have "log_ok n'" if "server_step api n n'" "machine_ok api mc mu n" "log_ok n" for n n'
    by (rule log_ok_step [OF that(1,3) machine_okD(1) [OF that(2)]])
  ultimately have "log_ok m"
    using entrance.kept_with [where P = log_ok, OF _ assms [unfolded server_reachable_def] machine_ok_new] by blast
  then show ?thesis by (simp add: log_ok_def)
qed

text \<open>A connection that is logged when it connects, and not once more when it does so again.\<close>

definition example_logging :: machine where
  "example_logging = machine_new (state_new (Some 3) (Some 2) 10 [] (Some ''access.log'') None None)"

definition example_logged :: machine where
  "example_logged = on_peer_state example_world 1 PcConnected (on_peer_state example_world 1 PcConnected
     (open_peer 1 [65] example_payload [''cf-ipcountry'' \<mapsto> ''JP''] example_request example_logging))"

theorem access_log_not_forged_witness:
  "access_log (srv example_logged) = [''access JP 1 https://a.b/w''] \<and> one_line (''access JP 1 https://a.b/w'') \<and>
   1 \<le> card (logged_peers example_logged)"
proof -
  have api: "w_sid example_world = example_sid_api" by (simp add: example_world_def)
  have ok: "state_ok (srv example_logging)" by (simp add: example_logging_def machine_new_def)
  have s0: "sessions_of (srv example_logging) = Map.empty" "cluster_client (srv example_logging) = None"
    "peers example_logging 1 = None" "max_connections (srv example_logging) = Some 3"
    "max_connections_by_url (srv example_logging) = Some 2"
    by (simp_all add: example_logging_def machine_new_def) (simp_all add: state_new_def)
  have "is_new_connection_available ''https://a.b/w'' (srv example_logging)"
    by (rule available_example [OF ok s0(4,5)]) (simp add: s0)
  note check = example_enter_check [OF s0(2) this, of "[]"]
  have digit: "digit_char (Suc 0) = CHR ''1''" by code_simp
  have "server_reachable example_sid_api example_logging example_logged"
    unfolding example_logged_def
    by (rule server_reachable_intros(2), rule server_reachable_intros(2), rule server_reachable_intros(2),
        rule server_reachable_intros(1), rule server_step.opened [OF api check s0(3)])
      (rule server_step.peer_changed [OF api])+
  moreover have log: "access_log (srv example_logged) = [''access JP 1 https://a.b/w'']"
    by (simp add: example_logged_def example_logging_def machine_new_def state_new_def open_peer_def on_peer_state_def
      example_payload_def get_url_data_def append_access_log_def header_to_str_def emit_def access_log_def
      List.map_filter_simps show_nat.simps digit)
  ultimately show ?thesis
    using access_log_not_forged [of example_sid_api "Some 3" "Some 2" 10 "[]" "Some ''access.log''" None None example_logged]
    by (simp add: example_logging_def)
qed

end
