(* ===== verification/Server_Main.thy ===== *)
theory Server_Main
  imports Http_Servers Entrance_Log
begin

text \<open>
  The start of the server, \<open>hubserv/src/main.rs\<close>: from the loaded configuration to the shared state
  that both HTTP servers run on. Every \<open>unwrap\<close> of the source is a panic here; binding the UDP port
  and what the cluster's URL answers are parameters.
\<close>

section \<open>Starting\<close>

definition start_cluster_manager :: "services \<Rightarrow> args \<Rightarrow> dns_call list \<times> manager option outcome" where
  "start_cluster_manager sv a =
     (case cluster_node_host a of
        Some _ \<Rightarrow>
          (case (http_host a, cloudflare_email a, cloudflare_api_key a, aws_ec2_region a, cluster_node_role a,
                 cluster_node_stage a, cluster_json_s3_bucket a, cluster_json_s3_key a) of
             (Some h, Some cf_email, Some cf_api_key, Some aws_region, Some role, Some stage, Some b, Some k) \<Rightarrow>
               let cm = manager_new h stage role aws_region \<lparr>bucket = b, key = k\<rparr>
                          \<lparr>email = cf_email, api_key = cf_api_key\<rparr>
               in (case run_update sv cm of
                     (_, calls, Inl _) \<Rightarrow> (calls, Panic)
                   | (_, calls, Inr _) \<Rightarrow> (calls, Returns (Some cm)))
           | _ \<Rightarrow> ([], Panic))
      | None \<Rightarrow>
          (case (http_host a, arg_public_ip a, cloudflare_email a, cloudflare_api_key a) of
             (Some h, Some ip, Some cf_email, Some cf_api_key) \<Rightarrow>
               (case set_arecord (sv_cf sv) h ip cf_email cf_api_key True of
                  (calls, Inl _) \<Rightarrow> (calls, Panic)
                | (calls, Inr _) \<Rightarrow> (calls, Returns None))
           | _ \<Rightarrow> ([], Returns None)))"

text \<open>The settings of the WebRTC library, with their initial values where the program leaves them.\<close>

datatype ip_candidate_type = HostCandidate | ServerReflexive
datatype mdns_mode = MdnsQueryOnly | MdnsQueryAndGather | MdnsDisabled
datatype network_type = Udp4 | Udp6
datatype dtls_role = DtlsAuto | DtlsClient | DtlsServer

record setting_engine =
  se_udp_port :: "nat option"
  se_nat_1to1_ips :: "(string list \<times> ip_candidate_type) option"
  se_mdns_mode :: mdns_mode
  se_network_types :: "network_type list"
  se_lite :: bool
  se_disable_fingerprint_verification :: bool
  se_answering_dtls_role :: dtls_role

definition create_webrtc_api :: "setting_engine \<Rightarrow> string option \<Rightarrow> nat option \<Rightarrow> setting_engine" where
  "create_webrtc_api initial ip sock =
     (let se = initial;
          se = (case sock of Some s \<Rightarrow> se\<lparr>se_udp_port := Some s\<rparr> | None \<Rightarrow> se);
          se = (case ip of Some i \<Rightarrow> se\<lparr>se_nat_1to1_ips := Some ([i], HostCandidate)\<rparr> | None \<Rightarrow> se);
          se = se\<lparr>se_mdns_mode := MdnsDisabled\<rparr>;
          se = se\<lparr>se_network_types := [Udp4]\<rparr>;
          se = se\<lparr>se_lite := True\<rparr>;
          se = se\<lparr>se_disable_fingerprint_verification := True\<rparr>
      in se\<lparr>se_answering_dtls_role := DtlsServer\<rparr>)"

text \<open>\<open>udp_bound\<close> says whether the port is free; \<open>answers\<close> are those of the node list's URL.\<close>

definition start_server ::
  "services \<Rightarrow> (nat \<Rightarrow> bool) \<Rightarrow> (nat \<Rightarrow> node_list_data option) \<Rightarrow> args option \<Rightarrow>
     (server_state \<times> background option \<times> api_listener) outcome" where
  "start_server sv udp_bound answers loaded =
     (case loaded of
        None \<Rightarrow> Panic
      | Some a \<Rightarrow>
          (case snd (start_cluster_manager sv a) of
             Panic \<Rightarrow> Panic
           | Returns cm \<Rightarrow>
               if \<not> udp_bound (udp_port a) then Panic else
               (case create_client a of
                  Panic \<Rightarrow> Panic
                | Returns cc \<Rightarrow>
                    let s = state_new (map_option of_nat (arg_max_connections a))
                              (map_option of_nat (arg_max_connections_by_url a))
                              (of_nat (arg_max_routing_results a)) (arg_ice_servers a) (access_log_path a) cc cm;
                        (s, _, bg) = start_client answers a s
                    in Returns (s, bg, api_listener_of a))))"

section \<open>Properties\<close>

lemma first_loads_cases:
  "\<exists>c. fst (first_loads answers ns s slept) = s \<or> fst (first_loads answers ns s slept) = s\<lparr>cluster_client := c\<rparr>"
proof (induction ns arbitrary: s slept)
  case (Cons n ns)
  obtain s1 ok where run: "load_node_list (answers n) s = (s1, ok)" by fastforce
  then have s1: "s1 = s \<or> (\<exists>c. s1 = s\<lparr>cluster_client := c\<rparr>)"
    using load_node_list_cases [of "answers n" s] by simp
  show ?case
  proof (cases ok)
    case True
    with run s1 show ?thesis by auto
  next
    case False
    with run have "fst (first_loads answers (n # ns) s slept) = fst (first_loads answers ns s1 (slept @ [(n + 1) * 3]))"
      by simp
    with Cons.IH [of s1 "slept @ [(n + 1) * 3]"] s1 show ?thesis by auto
  qed
qed simp

lemma start_client_cases:
  "\<exists>c. fst (start_client answers a s) = s \<or> fst (start_client answers a s) = s\<lparr>cluster_client := c\<rparr>"
  using first_loads_cases [of answers "[0..<5]" s "[]"]
  by (auto simp: start_client_def Let_def split: option.split prod.split)

text \<open>
  Property C19. A server that starts is a consistent one: it has no sessions, the configured limits, and
  a state from which every run keeps the invariants of the entrance. It manages a cluster exactly if it
  has a cluster name; then its manager has asked for the instances with the configured role and stage,
  in the right tags, and its first update has succeeded.
\<close>

theorem started_server:
  assumes run: "start_server sv udp answers (Some a) = Returns (s, bg, l)"
  shows "machine_ok api (map_option of_nat (arg_max_connections a)) (map_option of_nat (arg_max_connections_by_url a))
      (machine_new s) \<and>
    sessions_of s = Map.empty \<and>
    (cluster_manager s = None \<longleftrightarrow> cluster_node_host a = None) \<and>
    (\<forall>cm. cluster_manager s = Some cm \<longrightarrow>
       (\<exists>role stage region. cluster_node_role a = Some role \<and> cluster_node_stage a = Some stage \<and>
          aws_ec2_region a = Some region \<and>
          get_nodes (sv_describe sv) cm =
            collect_pages (sv_describe sv [(''instance-state-name'', ''running''), (''tag:Role'', role),
              (''tag:Stage'', stage)] region) []) \<and>
       snd (snd (run_update sv cm)) = Ok ())"
proof -
  from run obtain cm cc where cm: "snd (start_cluster_manager sv a) = Returns cm"
    and s: "s = fst (start_client answers a (state_new (map_option of_nat (arg_max_connections a))
                              (map_option of_nat (arg_max_connections_by_url a))
                              (of_nat (arg_max_routing_results a)) (arg_ice_servers a) (access_log_path a) cc cm))"
    by (auto simp: start_server_def Let_def case_prod_unfold split: outcome.splits if_splits)
  let ?s = "state_new (map_option of_nat (arg_max_connections a)) (map_option of_nat (arg_max_connections_by_url a))
    (of_nat (arg_max_routing_results a)) (arg_ice_servers a) (access_log_path a) cc cm"
  have new: "machine_ok api (map_option of_nat (arg_max_connections a)) (map_option of_nat (arg_max_connections_by_url a))
      (machine_new ?s)" for api
    by (rule machine_ok_new)
  have s_cases: "\<exists>c. s = ?s \<or> s = ?s\<lparr>cluster_client := c\<rparr>"
    unfolding s by (rule start_client_cases)
  then obtain c where c: "s = ?s \<or> s = ?s\<lparr>cluster_client := c\<rparr>" ..
  have "machine_new (?s\<lparr>cluster_client := c\<rparr>) = (machine_new ?s)\<lparr>srv := (srv (machine_new ?s))\<lparr>cluster_client := c\<rparr>\<rparr>"
    by (simp add: machine_new_def)
  then have "machine_ok api (map_option of_nat (arg_max_connections a)) (map_option of_nat (arg_max_connections_by_url a))
      (machine_new s)"
    using c new machine_ok_cluster [OF new] by metis
  moreover have "sessions_of s = Map.empty" using c by auto
  moreover have m: "cluster_manager s = cm" using c by (auto simp: state_new_def)
  moreover have "cm = None \<longleftrightarrow> cluster_node_host a = None"
    using cm by (auto simp: start_cluster_manager_def Let_def split: option.splits prod.splits sum.splits)
  moreover have "\<exists>role stage region. cluster_node_role a = Some role \<and> cluster_node_stage a = Some stage \<and>
          aws_ec2_region a = Some region \<and>
          get_nodes (sv_describe sv) cm' =
            collect_pages (sv_describe sv [(''instance-state-name'', ''running''), (''tag:Role'', role),
              (''tag:Stage'', stage)] region) []"
    and "snd (snd (run_update sv cm')) = Ok ()" if "cm = Some cm'" for cm'
    using cm that
    by (auto simp: start_cluster_manager_def Let_def get_nodes_def load_nodes_from_ec2_def manager_new_def
      split: option.splits prod.splits sum.splits)
  ultimately show ?thesis by blast
qed

text \<open>
  A server with a public address and a host name panics when the role, the stage, the region, the
  bucket or the key of the node list or the Cloudflare account is not configured, and no DNS record is
  set before. The command of \<open>README.md\<close> is such a start: \<open>set_other_args\<close> always finds a node host for it.
\<close>

lemma public_server_is_cluster_server:
  assumes a: "a = set_other_args shake hexenc a0" "http_host a0 = Some h" "arg_public_ip a0 = Some ip"
    and missing: "cluster_node_role a0 = None \<or> cluster_node_stage a0 = None \<or> aws_ec2_region a0 = None \<or>
      cluster_json_s3_bucket a0 = None \<or> cluster_json_s3_key a0 = None \<or> cloudflare_email a0 = None \<or>
      cloudflare_api_key a0 = None"
  shows "start_server sv udp answers (Some a) = Panic \<and> fst (start_cluster_manager sv a) = []"
proof -
  have "start_cluster_manager sv a = ([], Panic)"
    using missing by (auto simp: start_cluster_manager_def a(1) set_other_args_def a(2,3) split: option.split)
  then show ?thesis by (simp add: start_server_def)
qed

definition example_services :: services where
  "example_services = \<lparr>sv_shake = fold_xof, sv_hexenc = hex_encode, sv_describe = (\<lambda>_ _. []),
     sv_to_json = (\<lambda>_. Some ''{}''), sv_put = (\<lambda>_ _ _. True), sv_cf = example_service\<lparr>cf_list_records := (\<lambda>_. Some [])\<rparr>\<rparr>"

definition example_cluster_args :: args where
  "example_cluster_args = example_args\<lparr>cloudflare_email := Some ''e'', cloudflare_api_key := Some ''k'',
     cluster_node_role := Some ''EntranceServer'', cluster_node_stage := Some ''prd'',
     cluster_json_s3_bucket := Some ''b'', cluster_json_s3_key := Some ''nodes.json''\<rparr>"

theorem started_server_witness:
  "\<exists>s bg l. start_server example_services (\<lambda>_. True) (\<lambda>_. None)
       (Some (set_other_args fold_xof hex_encode example_cluster_args)) = Returns (s, bg, l) \<and>
     cluster_manager s \<noteq> None \<and> sessions_of s = Map.empty"
proof -
  let ?a = "set_other_args fold_xof hex_encode example_cluster_args"
  have a: "cluster_node_host ?a = Some (get_node_host fold_xof hex_encode ''1.2.3.4'' ''verse.example.org'')"
    "cluster_node_list_url ?a = None" "http_host ?a = Some ''verse.example.org''"
    by (simp_all add: set_other_args_def example_cluster_args_def example_args_def)
  have update: "snd (snd (run_update example_services cm)) = Ok ()" for cm
    by (simp add: run_update_def manager_update_def get_nodes_def load_nodes_from_ec2_def example_services_def
      update_cluster_json_def create_cluster_json_def update_dns_def get_zone_id_def get_arecords_def
      example_service_def split_records_def diff_records_def diff_ops_def Let_def List.map_filter_simps split: prod.split)
  let ?cm = "manager_new ''verse.example.org'' ''prd'' ''EntranceServer'' ''ap-northeast-1''
    \<lparr>bucket = ''b'', key = ''nodes.json''\<rparr> \<lparr>email = ''e'', api_key = ''k''\<rparr>"
  obtain js calls where "run_update example_services ?cm = (js, calls, Ok ())"
    using update [of ?cm] by (metis prod.collapse)
  moreover have "cloudflare_email ?a = Some ''e''" "cloudflare_api_key ?a = Some ''k''"
    "aws_ec2_region ?a = Some ''ap-northeast-1''" "cluster_node_role ?a = Some ''EntranceServer''"
    "cluster_node_stage ?a = Some ''prd''" "cluster_json_s3_bucket ?a = Some ''b''" "cluster_json_s3_key ?a = Some ''nodes.json''"
    by (simp_all add: set_other_args_def example_cluster_args_def example_args_def)
  ultimately have "snd (start_cluster_manager example_services ?a) = Returns (Some ?cm)"
    by (simp add: start_cluster_manager_def a)
  moreover have "create_client ?a =
      Returns (Some (client_new (get_node_host fold_xof hex_encode ''1.2.3.4'' ''verse.example.org'') ''verse.example.org''))"
    by (rule create_client_total [OF node_id_ok_concrete])
      (simp_all add: example_cluster_args_def example_args_def)
  ultimately obtain s bg l where run: "start_server example_services (\<lambda>_. True) (\<lambda>_. None) (Some ?a) = Returns (s, bg, l)"
    by (auto simp: start_server_def Let_def case_prod_unfold split: outcome.split)
  with started_server [OF run] a(1) show ?thesis by auto
qed

lemma public_server_needs_cluster:
  "start_server example_services (\<lambda>_. True) (\<lambda>_. None) (Some (set_other_args fold_xof hex_encode example_args)) = Panic"
  using public_server_is_cluster_server [OF refl, of example_args] by (simp add: example_args_def)

end
