(* ===== verification/Server_Threads.thy ===== *)
theory Server_Threads
  imports Server_State
begin

text \<open>
  \<open>State::add_connection\<close> and \<open>State::remove_connection\<close> of \<open>hubserv/src/state.rs\<close>, with the operations
  of \<open>hubserv/src/state/url_data.rs\<close> they call, cut at their atomic steps, which any schedule of any
  number of threads may interleave. Atomic are a load, an addition or a compare-and-exchange of a
  counter (memory order aside), one access to a sharded map, and what runs under the mutex of a
  world's list or the lock of its routing information. A world is an object of its own: the map of
  worlds refers to it, and so does a thread that works on it, also when the map has dropped it. A
  thread that has the entry of a world in the map keeps the others from that entry until it is done.
  Run alone, a thread does what the sequential operation of Server_State does.
\<close>

section \<open>The shared state\<close>

text \<open>A world object has the URL it was made for and a number as its address.\<close>

datatype world_ref = World_Ref (made_for: string) (address: nat)

text \<open>The worlds of the sequential state are not used; \<open>world_map\<close> and the objects stand for them.\<close>

record shared =
  sv :: server_state
  world_map :: "string \<Rightarrow> world_ref option"
  world_store :: "world_ref \<Rightarrow> url_data option"
  next_world :: nat
  entry_held :: "string \<Rightarrow> cd_ref option"

definition shared_of :: "server_state \<Rightarrow> shared" where
  "shared_of s =
     \<lparr>sv = s\<lparr>url_data_map := Map.empty\<rparr>,
      world_map = (\<lambda>u. map_option (\<lambda>_. World_Ref u 0) (url_data_map s u)),
      world_store = (\<lambda>w. if address w = 0 then url_data_map s (made_for w) else None),
      next_world = 1, entry_held = Map.empty\<rparr>"

text \<open>What the shared state is as a sequential one.\<close>

definition view :: "shared \<Rightarrow> server_state" where
  "view c = (sv c)\<lparr>url_data_map := (\<lambda>u. Option.bind (world_map c u) (world_store c))\<rparr>"

lemma view_shared_of [simp]: "view (shared_of s) = s"
  by (auto simp: view_def shared_of_def intro!: server_state.equality ext split: Option.bind_split)

abbreviation url_of :: "shared \<Rightarrow> cd_ref \<Rightarrow> string" where
  "url_of c r \<equiv> cd_url (the (cds (sv c) r))"

section \<open>Threads\<close>

datatype thread =
    AddLoad cd_ref
  | AddExchange cd_ref u64
  | AddInsert cd_ref
  | AddEntry cd_ref
  | AddWorldLoad cd_ref world_ref
  | AddWorldExchange cd_ref world_ref u64
  | AddWorldPush cd_ref world_ref
  | AddUndoCount cd_ref
  | AddUndoInsert cd_ref
  | RemoveLookup session_id
  | RemoveCount session_id cd_ref
  | RemoveDispose session_id cd_ref
  | RemoveFetch session_id cd_ref
  | RemoveWorldCount session_id cd_ref world_ref
  | RemoveWorldList session_id cd_ref world_ref
  | RemoveWorldInfo session_id cd_ref world_ref
  | RemoveEmpty session_id cd_ref
  | Finished bool

definition on_server :: "(server_state \<Rightarrow> server_state) \<Rightarrow> shared \<Rightarrow> shared" where
  "on_server f c = c\<lparr>sv := f (sv c)\<rparr>"

definition on_world :: "world_ref \<Rightarrow> (url_data \<Rightarrow> url_data) \<Rightarrow> shared \<Rightarrow> shared" where
  "on_world w f c = c\<lparr>world_store := (world_store c)(w := map_option f (world_store c w))\<rparr>"

definition hold_entry :: "string \<Rightarrow> cd_ref \<Rightarrow> shared \<Rightarrow> shared" where
  "hold_entry u r c = c\<lparr>entry_held := (entry_held c)(u \<mapsto> r)\<rparr>"

definition release_entry :: "string \<Rightarrow> shared \<Rightarrow> shared" where
  "release_entry u c = c\<lparr>entry_held := (entry_held c)(u := None)\<rparr>"

text \<open>\<open>v.insert(UrlData::new(cd))\<close>: a new object under the URL.\<close>

definition insert_world :: "string \<Rightarrow> cd_ref \<Rightarrow> shared \<Rightarrow> shared" where
  "insert_world u r c =
     c\<lparr>world_map := (world_map c)(u \<mapsto> World_Ref u (next_world c)),
       world_store := (world_store c)(World_Ref u (next_world c) \<mapsto> url_data_new r),
       next_world := next_world c + 1\<rparr>"

text \<open>
  The steps of \<open>State::add_connection\<close>, those of \<open>UrlData::add_connection\<close> under the entry of the world
  among them, then the steps of \<open>State::remove_connection\<close> with those of \<open>UrlData::remove_connection\<close>,
  which works on the object without the entry.
\<close>

fun advance :: "sid_api \<Rightarrow> thread \<Rightarrow> shared \<Rightarrow> shared \<times> thread" where
  "advance api (AddLoad r) c =
     (let cc = client_count (sv c)
      in if limit_or_max (max_connections (sv c)) \<le> cc then (c, Finished False) else (c, AddExchange r cc))"
| "advance api (AddExchange r cc) c =
     (if client_count (sv c) = cc
      then (on_server (\<lambda>s. s\<lparr>client_count := cc + 1\<rparr>) c, AddInsert r) else (c, AddLoad r))"
| "advance api (AddInsert r) c =
     (on_server (\<lambda>s. s\<lparr>connection_map := (connection_map s)(sid_of (cds s) r \<mapsto> r)\<rparr>) c, AddEntry r)"
| "advance api (AddEntry r) c =
     (if entry_held c (url_of c r) \<noteq> None then (c, AddEntry r)
      else case world_map c (url_of c r) of
             Some w \<Rightarrow> (hold_entry (url_of c r) r c, AddWorldLoad r w)
           | None \<Rightarrow> (insert_world (url_of c r) r c, Finished True))"
| "advance api (AddWorldLoad r w) c =
     (let cc = ud_client_count (the (world_store c w))
      in if limit_or_max (max_connections_by_url (sv c)) \<le> cc
         then (release_entry (url_of c r) c, AddUndoCount r) else (c, AddWorldExchange r w cc))"
| "advance api (AddWorldExchange r w cc) c =
     (if ud_client_count (the (world_store c w)) = cc
      then (on_world w (\<lambda>ud. ud\<lparr>ud_client_count := cc + 1\<rparr>) c, AddWorldPush r w) else (c, AddWorldLoad r w))"
| "advance api (AddWorldPush r w) c =
     (release_entry (url_of c r) (on_world w (\<lambda>ud. ud\<lparr>ud_clients := ud_clients ud @ [r]\<rparr>) c), Finished True)"
| "advance api (AddUndoCount r) c =
     (on_server (\<lambda>s. s\<lparr>client_count := client_count s - 1\<rparr>) c, AddUndoInsert r)"
| "advance api (AddUndoInsert r) c =
     (on_server (\<lambda>s. s\<lparr>connection_map := (connection_map s)(sid_of (cds s) r := None)\<rparr>) c, Finished False)"
| "advance api (RemoveLookup sid) c =
     (case connection_map (sv c) sid of
        None \<Rightarrow> (c, Finished True)
      | Some r \<Rightarrow> (on_server (\<lambda>s. s\<lparr>connection_map := (connection_map s)(sid := None)\<rparr>) c, RemoveCount sid r))"
| "advance api (RemoveCount sid r) c =
     (on_server (\<lambda>s. s\<lparr>client_count := client_count s - 1\<rparr>) c, RemoveDispose sid r)"
| "advance api (RemoveDispose sid r) c =
     (on_server (\<lambda>s. emit (dispose (the (cds s r))) s) c, RemoveFetch sid r)"
| "advance api (RemoveFetch sid r) c =
     (if entry_held c (url_of c r) \<noteq> None then (c, RemoveFetch sid r)
      else case world_map c (url_of c r) of
             Some w \<Rightarrow> (c, RemoveWorldCount sid r w)
           | None \<Rightarrow> (c, RemoveEmpty sid r))"
| "advance api (RemoveWorldCount sid r w) c =
     (on_world w (\<lambda>ud. ud\<lparr>ud_client_count := ud_client_count ud - 1\<rparr>) c, RemoveWorldList sid r w)"
| "advance api (RemoveWorldList sid r w) c =
     (on_world w (\<lambda>ud. ud\<lparr>ud_clients := filter (\<lambda>v. sid_of (cds (sv c)) v \<noteq> sid) (ud_clients ud)\<rparr>) c,
      RemoveWorldInfo sid r w)"
| "advance api (RemoveWorldInfo sid r w) c =
     (on_world w (\<lambda>ud. ud\<lparr>ud_routing_info := retain_relations
        (\<lambda>v. case ri_session_id v of None \<Rightarrow> True | Some i \<Rightarrow> \<not> sid_eq_slice api sid i) (ud_routing_info ud)\<rparr>) c,
      RemoveEmpty sid r)"
| "advance api (RemoveEmpty sid r) c =
     (if entry_held c (url_of c r) \<noteq> None then (c, RemoveEmpty sid r)
      else case world_map c (url_of c r) of
             Some w \<Rightarrow>
               (if is_empty (the (world_store c w)) then c\<lparr>world_map := (world_map c)(url_of c r := None)\<rparr> else c,
                Finished True)
           | None \<Rightarrow> (c, Finished True))"
| "advance api (Finished b) c = (c, Finished b)"

text \<open>A schedule names the thread that runs next; a name outside the list runs nothing.\<close>

type_synonym threads = "shared \<times> thread list"

definition run_thread :: "sid_api \<Rightarrow> nat \<Rightarrow> threads \<Rightarrow> threads" where
  "run_thread api i c =
     (if i < length (snd c)
      then (let (s, t) = advance api (snd c ! i) (fst c) in (s, (snd c)[i := t]))
      else c)"

definition run_schedule :: "sid_api \<Rightarrow> nat list \<Rightarrow> threads \<Rightarrow> threads" where
  "run_schedule api sched c = foldl (\<lambda>c i. run_thread api i c) c sched"

lemma run_schedule_simps [simp]:
  "run_schedule api [] c = c"
  "run_schedule api (i # sched) c = run_schedule api sched (run_thread api i c)"
  by (simp_all add: run_schedule_def)

lemmas shared_defs = on_server_def on_world_def hold_entry_def release_entry_def insert_world_def

section \<open>Alone, a thread is the sequential operation\<close>

fun alone :: "sid_api \<Rightarrow> nat \<Rightarrow> shared \<times> thread \<Rightarrow> shared \<times> thread" where
  "alone api 0 c = c"
| "alone api (Suc n) (s, t) = alone api n (advance api t s)"

lemma alone_finished [simp]: "alone api n (s, Finished b) = (s, Finished b)"
  by (induction n) simp_all

text \<open>
  The atomic steps are those of the sequential operations: a thread that nothing interleaves with ends
  within nine steps in the state, and with the answer, of adding its connection, or in the state of
  removing its session.
\<close>

lemma alone_is_sequential:
  "(\<exists>c. alone api 9 (shared_of s, AddLoad r) = (c, Finished (snd (add_connection r s))) \<and>
      view c = fst (add_connection r s)) \<and>
   (\<exists>c. alone api 9 (shared_of s, RemoveLookup sid) = (c, Finished True) \<and>
      view c = remove_connection api sid s)"
proof
  let ?u = "cd_url (the (cds s r))"
  note defs = shared_of_def view_def shared_defs add_connection_def url_add_connection_def Let_def
  show "\<exists>c. alone api 9 (shared_of s, AddLoad r) = (c, Finished (snd (add_connection r s))) \<and>
      view c = fst (add_connection r s)"
  proof (cases "limit_or_max (max_connections s) \<le> client_count s")
    case True
    moreover from this have "limit_or_max (max_connections (sv (shared_of s))) \<le> client_count (sv (shared_of s))"
      by (simp add: shared_of_def)
    ultimately show ?thesis by (simp add: numeral_eq_Suc add_connection_def Let_def)
  next
    case False
    then show ?thesis
      by (cases "url_data_map s ?u")
        (auto simp: numeral_eq_Suc defs intro!: server_state.equality ext split: Option.bind_split option.split)
  qed
  show "\<exists>c. alone api 9 (shared_of s, RemoveLookup sid) = (c, Finished True) \<and> view c = remove_connection api sid s"
  proof (cases "connection_map s sid")
    case None
    then have "connection_map (sv (shared_of s)) sid = None" by (simp add: shared_of_def)
    with None show ?thesis by (simp add: numeral_eq_Suc remove_connection_def)
  next
    case (Some r)
    then show ?thesis
      by (cases "url_data_map s (cd_url (the (cds s r)))")
        (auto simp: numeral_eq_Suc defs remove_connection_def emit_def get_url_data_def drop_world_if_empty_def is_empty_def
          get_client_count_def url_remove_connection_def intro!: server_state.equality ext
          split: Option.bind_split option.split)
  qed
qed

end
