(* ===== verification/Server_Interleaving.thy ===== *)
theory Server_Interleaving
  imports Server_Threads Kept_Invariant
begin

text \<open>
  What every schedule of the atomic steps of Server_Threads keeps, as long as no two threads work for
  one session. Each session is accounted for by what its thread is about to do: whether the map of
  connections holds it, in the list of which world it is, and in which of the counters it counts. When
  all threads have ended the state is consistent in the sense of the sequential model.
\<close>

section \<open>Threads and sessions\<close>

definition session_of :: "cd_store \<Rightarrow> thread \<Rightarrow> session_id option" where
  "session_of store t =
     (case t of
        AddLoad r \<Rightarrow> Some (sid_of store r) | AddExchange r _ \<Rightarrow> Some (sid_of store r) | AddInsert r \<Rightarrow> Some (sid_of store r)
      | AddEntry r \<Rightarrow> Some (sid_of store r) | AddWorldLoad r _ \<Rightarrow> Some (sid_of store r)
      | AddWorldExchange r _ _ \<Rightarrow> Some (sid_of store r) | AddWorldPush r _ \<Rightarrow> Some (sid_of store r)
      | AddUndoCount r \<Rightarrow> Some (sid_of store r) | AddUndoInsert r \<Rightarrow> Some (sid_of store r)
      | RemoveLookup sid \<Rightarrow> Some sid | RemoveCount sid _ \<Rightarrow> Some sid | RemoveDispose sid _ \<Rightarrow> Some sid
      | RemoveFetch sid _ \<Rightarrow> Some sid | RemoveWorldCount sid _ _ \<Rightarrow> Some sid | RemoveWorldList sid _ _ \<Rightarrow> Some sid
      | RemoveWorldInfo sid _ _ \<Rightarrow> Some sid | RemoveEmpty sid _ \<Rightarrow> Some sid | Finished _ \<Rightarrow> None)"

lemma session_of_simps [simp]:
  "session_of store (AddLoad r) = Some (sid_of store r)" "session_of store (AddExchange r cc) = Some (sid_of store r)"
  "session_of store (AddInsert r) = Some (sid_of store r)" "session_of store (AddEntry r) = Some (sid_of store r)"
  "session_of store (AddWorldLoad r w) = Some (sid_of store r)"
  "session_of store (AddWorldExchange r w cc) = Some (sid_of store r)"
  "session_of store (AddWorldPush r w) = Some (sid_of store r)" "session_of store (AddUndoCount r) = Some (sid_of store r)"
  "session_of store (AddUndoInsert r) = Some (sid_of store r)" "session_of store (RemoveLookup sid) = Some sid"
  "session_of store (RemoveCount sid r) = Some sid" "session_of store (RemoveDispose sid r) = Some sid"
  "session_of store (RemoveFetch sid r) = Some sid" "session_of store (RemoveWorldCount sid r w) = Some sid"
  "session_of store (RemoveWorldList sid r w) = Some sid" "session_of store (RemoveWorldInfo sid r w) = Some sid"
  "session_of store (RemoveEmpty sid r) = Some sid" "session_of store (Finished b) = None"
  by (simp_all add: session_of_def)

definition one_thread_each :: "cd_store \<Rightarrow> thread list \<Rightarrow> bool" where
  "one_thread_each store ts \<longleftrightarrow> (\<forall>i<length ts. \<forall>j<length ts.
     i \<noteq> j \<longrightarrow> session_of store (ts ! i) \<noteq> None \<longrightarrow> session_of store (ts ! i) \<noteq> session_of store (ts ! j))"

lemma one_thread_eachD:
  assumes "one_thread_each store ts" "i < length ts" "j < length ts" "i \<noteq> j"
    and "session_of store (ts ! i) = Some sid"
  shows "session_of store (ts ! j) \<noteq> Some sid"
proof -
  from assms(1) have "i \<noteq> j \<longrightarrow> session_of store (ts ! i) \<noteq> None \<longrightarrow>
      session_of store (ts ! i) \<noteq> session_of store (ts ! j)"
    unfolding one_thread_each_def using assms(2,3) by blast
  with assms(4,5) show ?thesis by (metis option.distinct(1))
qed

text \<open>The thread that works for a session.\<close>

type_synonym phases = "session_id \<Rightarrow> thread option"

definition phase_of :: "cd_store \<Rightarrow> thread list \<Rightarrow> phases" where
  "phase_of store ts sid = find (\<lambda>t. session_of store t = Some sid) ts"

lemma phase_ofI:
  assumes "one_thread_each store ts" "i < length ts" "session_of store (ts ! i) = Some sid"
  shows "phase_of store ts sid = Some (ts ! i)"
proof -
  have "session_of store (ts ! j) \<noteq> Some sid" if "j < i" for j
    using one_thread_eachD [OF assms(1,2) _ _ assms(3), of j] that assms(2) by simp
  with assms show ?thesis unfolding phase_of_def find_Some_iff by blast
qed

lemma phase_of_None: "phase_of store ts sid = None \<longleftrightarrow> (\<forall>i<length ts. session_of store (ts ! i) \<noteq> Some sid)"
  by (auto simp: phase_of_def find_None_iff in_set_conv_nth)

lemma phase_of_Some: "phase_of store ts sid = Some t \<Longrightarrow> \<exists>i<length ts. ts ! i = t \<and> session_of store t = Some sid"
  by (auto simp: phase_of_def find_Some_iff)

text \<open>A thread goes on with its session or has ended.\<close>

definition going :: "thread \<Rightarrow> thread option" where
  "going t = (case t of Finished _ \<Rightarrow> None | _ \<Rightarrow> Some t)"

lemma going_simps [simp]:
  "going (AddLoad r) = Some (AddLoad r)" "going (AddExchange r cc) = Some (AddExchange r cc)"
  "going (AddInsert r) = Some (AddInsert r)" "going (AddEntry r) = Some (AddEntry r)"
  "going (AddWorldLoad r w) = Some (AddWorldLoad r w)" "going (AddWorldExchange r w cc) = Some (AddWorldExchange r w cc)"
  "going (AddWorldPush r w) = Some (AddWorldPush r w)" "going (AddUndoCount r) = Some (AddUndoCount r)"
  "going (AddUndoInsert r) = Some (AddUndoInsert r)" "going (RemoveLookup sid) = Some (RemoveLookup sid)"
  "going (RemoveCount sid r) = Some (RemoveCount sid r)" "going (RemoveDispose sid r) = Some (RemoveDispose sid r)"
  "going (RemoveFetch sid r) = Some (RemoveFetch sid r)" "going (RemoveWorldCount sid r w) = Some (RemoveWorldCount sid r w)"
  "going (RemoveWorldList sid r w) = Some (RemoveWorldList sid r w)"
  "going (RemoveWorldInfo sid r w) = Some (RemoveWorldInfo sid r w)"
  "going (RemoveEmpty sid r) = Some (RemoveEmpty sid r)" "going (Finished b) = None"
  by (simp_all add: going_def)

lemma going_session: "session_of store t = Some sid \<Longrightarrow> going t = Some t"
  by (cases t) simp_all

lemma going_None: "session_of store t = None \<Longrightarrow> going t = None"
  by (cases t) simp_all

lemma phase_of_update:
  assumes one: "one_thread_each store ts" and i: "i < length ts" and s: "session_of store (ts ! i) = Some sid"
    and t: "session_of store t' = Some sid \<or> session_of store t' = None"
  shows "one_thread_each store (ts[i := t'])" and "phase_of store (ts[i := t']) = (phase_of store ts)(sid := going t')"
proof -
  have other: "session_of store (ts ! j) \<noteq> Some sid" if "j < length ts" "j \<noteq> i" for j
    using one_thread_eachD [OF one i that(1) _ s] that(2) by blast
  show one': "one_thread_each store (ts[i := t'])"
    unfolding one_thread_each_def
  proof (intro allI impI)
    fix j k
    assume j: "j < length (ts[i := t'])" and k: "k < length (ts[i := t'])" and jk: "j \<noteq> k"
      and some: "session_of store (ts[i := t'] ! j) \<noteq> None"
    show "session_of store (ts[i := t'] ! j) \<noteq> session_of store (ts[i := t'] ! k)"
    proof (cases "j = i \<or> k = i")
      case True
      then show ?thesis using some other [of j] other [of k] t i j k jk by (auto simp: nth_list_update)
    next
      case False
      then show ?thesis using one some j k jk by (simp add: one_thread_each_def)
    qed
  qed
  show "phase_of store (ts[i := t']) = (phase_of store ts)(sid := going t')"
  proof
    fix sid'
    show "phase_of store (ts[i := t']) sid' = ((phase_of store ts)(sid := going t')) sid'"
    proof (cases "sid' = sid")
      case True
      show ?thesis
      proof (cases "session_of store t' = Some sid")
        case live: True
        have "phase_of store (ts[i := t']) sid = Some t'"
          using phase_ofI [OF one', of i sid] i live by simp
        with True going_session [OF live] show ?thesis by simp
      next
        case False
        then have "phase_of store (ts[i := t']) sid = None"
          using other i by (auto simp: phase_of_None nth_list_update)
        moreover have "going t' = None" using False t going_None by blast
        ultimately show ?thesis using True by simp
      qed
    next
      case False
      have "session_of store t' \<noteq> Some sid'" "session_of store (ts ! i) \<noteq> Some sid'" using t s False by auto
      show ?thesis
      proof (cases "phase_of store ts sid'")
        case None
        then have "phase_of store (ts[i := t']) sid' = None"
          using \<open>session_of store t' \<noteq> Some sid'\<close>
          by (simp add: phase_of_None) (metis nth_list_update_eq nth_list_update_neq)
        with None False show ?thesis by simp
      next
        case (Some t)
        then obtain j where j: "j < length ts" "ts ! j = t" "session_of store t = Some sid'"
          using phase_of_Some by blast
        with \<open>session_of store (ts ! i) \<noteq> Some sid'\<close> have "j \<noteq> i" by blast
        with j have "phase_of store (ts[i := t']) sid' = Some t"
          using phase_ofI [OF one', of j sid'] by (simp add: nth_list_update)
        with Some False show ?thesis by simp
      qed
    qed
  qed
qed

section \<open>What a session's thread stands for\<close>

abbreviation reg :: "shared \<Rightarrow> session_id \<Rightarrow> cd_ref option" where
  "reg c \<equiv> connection_map (sv c)"

text \<open>Where a session is listed, in which world objects and as which client.\<close>

definition places :: "shared \<Rightarrow> session_id \<Rightarrow> (world_ref \<times> cd_ref) set" where
  "places c sid = {(w, r). (\<exists>ud. world_store c w = Some ud \<and> r \<in> set (ud_clients ud)) \<and> sid_of (cds (sv c)) r = sid}"

definition client_for :: "shared \<Rightarrow> session_id \<Rightarrow> cd_ref \<Rightarrow> bool" where
  "client_for c sid r \<longleftrightarrow> (\<exists>cd. cds (sv c) r = Some cd \<and> cd_session_id cd = sid)"

definition seated :: "shared \<Rightarrow> session_id \<Rightarrow> cd_ref \<Rightarrow> world_ref \<Rightarrow> bool" where
  "seated c sid r w \<longleftrightarrow> client_for c sid r \<and> world_map c (url_of c r) = Some w \<and> places c sid = {(w, r)}"

text \<open>A session that no thread works for is registered and listed, or neither.\<close>

definition resting :: "shared \<Rightarrow> session_id \<Rightarrow> bool" where
  "resting c sid \<longleftrightarrow> (case reg c sid of None \<Rightarrow> places c sid = {} | Some r \<Rightarrow> \<exists>w. seated c sid r w)"

definition absent :: "shared \<Rightarrow> session_id \<Rightarrow> cd_ref \<Rightarrow> bool" where
  "absent c sid r \<longleftrightarrow> client_for c sid r \<and> reg c sid = None \<and> places c sid = {}"

definition joining :: "shared \<Rightarrow> session_id \<Rightarrow> cd_ref \<Rightarrow> bool" where
  "joining c sid r \<longleftrightarrow> client_for c sid r \<and> reg c sid = Some r \<and> places c sid = {}"

definition holding :: "shared \<Rightarrow> cd_ref \<Rightarrow> world_ref \<Rightarrow> bool" where
  "holding c r w \<longleftrightarrow> world_map c (url_of c r) = Some w \<and> entry_held c (url_of c r) = Some r"

definition leaving :: "shared \<Rightarrow> session_id \<Rightarrow> cd_ref \<Rightarrow> bool" where
  "leaving c sid r \<longleftrightarrow> reg c sid = None \<and> (\<exists>w. seated c sid r w)"

fun phase_ok :: "shared \<Rightarrow> session_id \<Rightarrow> thread option \<Rightarrow> bool" where
  "phase_ok c sid None = resting c sid"
| "phase_ok c sid (Some (RemoveLookup i)) = (i = sid \<and> resting c sid)"
| "phase_ok c sid (Some (AddLoad r)) = absent c sid r"
| "phase_ok c sid (Some (AddExchange r cc)) = (absent c sid r \<and> cc < limit_or_max (max_connections (sv c)))"
| "phase_ok c sid (Some (AddInsert r)) = absent c sid r"
| "phase_ok c sid (Some (AddEntry r)) = joining c sid r"
| "phase_ok c sid (Some (AddWorldLoad r w)) = (joining c sid r \<and> holding c r w)"
| "phase_ok c sid (Some (AddWorldExchange r w cc)) =
     (joining c sid r \<and> holding c r w \<and> cc < limit_or_max (max_connections_by_url (sv c)))"
| "phase_ok c sid (Some (AddWorldPush r w)) = (joining c sid r \<and> holding c r w)"
| "phase_ok c sid (Some (AddUndoCount r)) = joining c sid r"
| "phase_ok c sid (Some (AddUndoInsert r)) = joining c sid r"
| "phase_ok c sid (Some (RemoveCount i r)) = (i = sid \<and> leaving c sid r)"
| "phase_ok c sid (Some (RemoveDispose i r)) = (i = sid \<and> leaving c sid r)"
| "phase_ok c sid (Some (RemoveFetch i r)) = (i = sid \<and> leaving c sid r)"
| "phase_ok c sid (Some (RemoveWorldCount i r w)) = (i = sid \<and> reg c sid = None \<and> seated c sid r w)"
| "phase_ok c sid (Some (RemoveWorldList i r w)) =
     (i = sid \<and> client_for c sid r \<and> reg c sid = None \<and> places c sid = {(w, r)})"
| "phase_ok c sid (Some (RemoveWorldInfo i r w)) = (i = sid \<and> absent c sid r)"
| "phase_ok c sid (Some (RemoveEmpty i r)) = (i = sid \<and> absent c sid r)"
| "phase_ok c sid (Some (Finished b)) = False"

text \<open>Whether a session counts in the counter of the server, and in that of a world.\<close>

definition counted :: "shared \<Rightarrow> session_id \<Rightarrow> thread option \<Rightarrow> bool" where
  "counted c sid p \<longleftrightarrow>
     (reg c sid \<noteq> None \<or> (case p of Some (AddInsert _) \<Rightarrow> True | Some (RemoveCount _ _) \<Rightarrow> True | _ \<Rightarrow> False)) \<and>
     (case p of Some (AddUndoInsert _) \<Rightarrow> False | _ \<Rightarrow> True)"

definition in_world :: "shared \<Rightarrow> world_ref \<Rightarrow> session_id \<Rightarrow> thread option \<Rightarrow> bool" where
  "in_world c w sid p \<longleftrightarrow>
     (\<exists>r. (w, r) \<in> places c sid) \<and> (case p of Some (RemoveWorldList _ _ _) \<Rightarrow> False | _ \<Rightarrow> True) \<or>
     (case p of Some (AddWorldPush _ v) \<Rightarrow> v = w | _ \<Rightarrow> False)"

text \<open>Threads that will look whether a world is empty.\<close>

definition emptying :: "shared \<Rightarrow> string \<Rightarrow> thread option \<Rightarrow> bool" where
  "emptying c u p \<longleftrightarrow> (case p of
      Some (RemoveWorldList _ r _) \<Rightarrow> url_of c r = u | Some (RemoveWorldInfo _ r _) \<Rightarrow> url_of c r = u
    | Some (RemoveEmpty _ r) \<Rightarrow> url_of c r = u | _ \<Rightarrow> False)"

definition count_right :: "shared \<Rightarrow> phases \<Rightarrow> bool" where
  "count_right c ph \<longleftrightarrow> finite {sid. counted c sid (ph sid)} \<and>
     unat (client_count (sv c)) = card {sid. counted c sid (ph sid)} \<and>
     client_count (sv c) \<le> limit_or_max (max_connections (sv c))"

definition world_right :: "shared \<Rightarrow> phases \<Rightarrow> world_ref \<Rightarrow> url_data \<Rightarrow> bool" where
  "world_right c ph w ud \<longleftrightarrow> finite {sid. in_world c w sid (ph sid)} \<and>
     unat (ud_client_count ud) = card {sid. in_world c w sid (ph sid)} \<and> distinct (ud_clients ud) \<and>
     unat (ud_client_count ud) \<le> max 1 (unat (limit_or_max (max_connections_by_url (sv c))))"

definition addresses_ok :: "shared \<Rightarrow> bool" where
  "addresses_ok c \<longleftrightarrow> (\<forall>u w. world_map c u = Some w \<longrightarrow> made_for w = u \<and> world_store c w \<noteq> None) \<and>
     (\<forall>w. world_store c w \<noteq> None \<longrightarrow> address w < next_world c) \<and>
     (\<forall>r cd. cds (sv c) r = Some cd \<longrightarrow> r < next_ref (sv c))"

definition emptied_ok :: "shared \<Rightarrow> phases \<Rightarrow> bool" where
  "emptied_ok c ph \<longleftrightarrow> (\<forall>u w ud. world_map c u = Some w \<and> world_store c w = Some ud \<and> ud_client_count ud = 0 \<longrightarrow>
     (\<exists>sid. emptying c u (ph sid)))"

definition phases_ok :: "shared \<Rightarrow> phases \<Rightarrow> bool" where
  "phases_ok c ph \<longleftrightarrow> (\<forall>sid. phase_ok c sid (ph sid)) \<and> count_right c ph \<and>
     (\<forall>w ud. world_store c w = Some ud \<longrightarrow> world_right c ph w ud) \<and> addresses_ok c \<and> emptied_ok c ph"

lemma phases_okD:
  assumes "phases_ok c ph"
  shows "phase_ok c sid (ph sid)" "count_right c ph" "world_store c w = Some ud \<Longrightarrow> world_right c ph w ud"
    "addresses_ok c" "emptied_ok c ph"
  using assms by (simp_all add: phases_ok_def)

lemma addresses_okD:
  assumes "addresses_ok c"
  shows "world_map c u = Some w \<Longrightarrow> made_for w = u" "world_map c u = Some w \<Longrightarrow> \<exists>ud. world_store c w = Some ud"
    "world_store c w = Some ud \<Longrightarrow> address w < next_world c" "cds (sv c) r = Some cd \<Longrightarrow> r < next_ref (sv c)"
  using assms by (auto simp: addresses_ok_def)

section \<open>What a step leaves to the others\<close>

lemma shared_sel [simp]:
  "sv (on_world w f c) = sv c" "sv (hold_entry u r c) = sv c" "sv (release_entry u c) = sv c" "sv (insert_world u r c) = sv c"
  "sv (on_server g c) = g (sv c)" "world_map (on_world w f c) = world_map c" "world_map (on_server g c) = world_map c"
  "world_map (hold_entry u r c) = world_map c" "world_map (release_entry u c) = world_map c"
  "world_store (on_server g c) = world_store c" "world_store (hold_entry u r c) = world_store c"
  "world_store (release_entry u c) = world_store c"
  "entry_held (on_server g c) = entry_held c" "entry_held (on_world w f c) = entry_held c"
  "entry_held (insert_world u r c) = entry_held c"
  "next_world (on_server g c) = next_world c" "next_world (on_world w f c) = next_world c"
  "next_world (hold_entry u r c) = next_world c" "next_world (release_entry u c) = next_world c"
  "world_map (insert_world u r c) = (world_map c)(u \<mapsto> World_Ref u (next_world c))"
  "world_store (insert_world u r c) = (world_store c)(World_Ref u (next_world c) \<mapsto> url_data_new r)"
  "next_world (insert_world u r c) = next_world c + 1"
  "entry_held (hold_entry u r c) = (entry_held c)(u \<mapsto> r)" "entry_held (release_entry u c) = (entry_held c)(u := None)"
  "world_store (on_world w f c) = (world_store c)(w := map_option f (world_store c w))"
  by (simp_all add: shared_defs)

lemma emit_fields [simp]:
  "cds (emit es s) = cds s" "connection_map (emit es s) = connection_map s" "next_ref (emit es s) = next_ref s"
  "client_count (emit es s) = client_count s" "max_connections (emit es s) = max_connections s"
  "max_connections_by_url (emit es s) = max_connections_by_url s"
  by (simp_all add: emit_def)

lemma advance_constant:
  assumes "advance api t c = (c', t')"
  shows "cds (sv c') = cds (sv c)" "next_ref (sv c') = next_ref (sv c)" "max_connections (sv c') = max_connections (sv c)"
    "max_connections_by_url (sv c') = max_connections_by_url (sv c)"
    "session_of (cds (sv c)) t' = session_of (cds (sv c)) t \<or> session_of (cds (sv c)) t' = None"
  using assms by (cases t; force simp: Let_def split: if_splits option.splits)+

lemma advance_reg:
  assumes "advance api t c = (c', t')" "session_of (cds (sv c)) t = Some sid" "i \<noteq> sid"
  shows "reg c' i = reg c i"
  using assms by (cases t) (auto simp: Let_def split: if_splits option.splits)

lemma places_same [simp]:
  "places (hold_entry u r c) sid = places c sid" "places (release_entry u c) sid = places c sid"
  "places (c\<lparr>world_map := m\<rparr>) sid = places c sid"
  by (simp_all add: places_def)

lemma places_on_server [simp]: "cds (f (sv c)) = cds (sv c) \<Longrightarrow> places (on_server f c) sid = places c sid"
  by (simp add: places_def)

lemma places_on_world [simp]: "(\<And>ud. ud_clients (f ud) = ud_clients ud) \<Longrightarrow> places (on_world w f c) sid = places c sid"
proof -
  assume "\<And>ud. ud_clients (f ud) = ud_clients ud"
  then have "(\<exists>ud. world_store (on_world w f c) v = Some ud \<and> r \<in> set (ud_clients ud)) \<longleftrightarrow>
      (\<exists>ud. world_store c v = Some ud \<and> r \<in> set (ud_clients ud))" for v r
    by (cases "v = w") auto
  then show ?thesis by (simp only: places_def shared_sel)
qed

lemma places_push [simp]:
  "places (on_world w (\<lambda>ud. ud\<lparr>ud_clients := ud_clients ud @ [r]\<rparr>) c) sid =
     places c sid \<union> (if world_store c w \<noteq> None \<and> sid_of (cds (sv c)) r = sid then {(w, r)} else {})"
  by (force simp: places_def split: if_splits)

lemma places_filter [simp]:
  "places (on_world w (\<lambda>ud. ud\<lparr>ud_clients := filter (\<lambda>v. sid_of (cds (sv c)) v \<noteq> i) (ud_clients ud)\<rparr>) c) sid =
     (if sid = i then places c sid - {w} \<times> UNIV else places c sid)"
  by (force simp: places_def split: if_splits)

lemma fresh_address: "addresses_ok c \<Longrightarrow> world_store c (World_Ref u (next_world c)) = None"
  using addresses_okD(3) [of c "World_Ref u (next_world c)"] by (cases "world_store c (World_Ref u (next_world c))") auto

lemma places_insert [simp]:
  "addresses_ok c \<Longrightarrow> places (insert_world u r c) sid =
     places c sid \<union> (if sid_of (cds (sv c)) r = sid then {(World_Ref u (next_world c), r)} else {})"
  using fresh_address [of c u] by (force simp: places_def url_data_new_def split: if_splits)

lemma advance_places:
  assumes "advance api t c = (c', t')" "session_of (cds (sv c)) t = Some sid" "addresses_ok c" "i \<noteq> sid"
  shows "places c' i = places c i"
  using assms by (cases t) (auto simp: Let_def split: if_splits option.splits)

lemma advance_entry:
  assumes "advance api t c = (c', t')" "session_of (cds (sv c)) t = Some sid" "phase_ok c sid (Some t)"
    and "entry_held c u = Some r" "sid_of (cds (sv c)) r \<noteq> sid"
  shows "entry_held c' u = Some r"
  using assms by (cases t) (auto simp: Let_def holding_def split: if_splits option.splits)

text \<open>The map of worlds loses an entry only if the world is empty and nobody has the entry.\<close>

lemma advance_world_map:
  assumes run: "advance api t c = (c', t')" and u: "world_map c u = Some w"
  shows "world_map c' u = Some w \<or>
    entry_held c u = None \<and> is_empty (the (world_store c w)) \<and> world_map c' u = None"
  using assms by (cases t) (auto simp: Let_def split: if_splits option.splits)

lemma empty_world:
  assumes ok: "phases_ok c ph" and u: "world_map c u = Some w" and empty: "is_empty (the (world_store c w))"
  shows "\<not> in_world c w i (ph i)"
proof -
  obtain ud where ud: "world_store c w = Some ud" using addresses_okD(2) [OF phases_okD(4) [OF ok] u] by blast
  with empty have "unat (ud_client_count ud) = 0" by (simp add: is_empty_def get_client_count_def)
  with phases_okD(3) [OF ok ud] show ?thesis unfolding world_right_def by (metis card_eq_0_iff emptyE mem_Collect_eq)
qed

lemma client_for_sid: "client_for c sid r \<Longrightarrow> sid_of (cds (sv c)) r = sid"
  by (auto simp: client_for_def)

lemma phase_ok_others:
  assumes ok: "phases_ok c ph" and run: "advance api t c = (c', t')" and t: "ph sid = Some t" "session_of (cds (sv c)) t = Some sid"
    and i: "i \<noteq> sid"
  shows "phase_ok c' i (ph i)"
proof -
  note const = advance_constant [OF run] and reg = advance_reg [OF run t(2) i]
    and places = advance_places [OF run t(2) phases_okD(4) [OF ok] i]
  have client: "client_for c' i = client_for c i" by (simp add: client_for_def const(1) fun_eq_iff)
  have seat: "seated c' i r w" if "seated c i r w" and "\<And>a b d. ph i \<noteq> Some (RemoveWorldList a b d)" for r w
  proof -
    have "in_world c w i (ph i)"
      using that unfolding in_world_def seated_def by (auto split: option.split thread.split)
    then have "world_map c' (url_of c r) = Some w"
      using advance_world_map [OF run] empty_world [OF ok] that(1) unfolding seated_def by blast
    with that(1) show ?thesis by (simp add: seated_def client places const(1))
  qed
  have hold: "holding c' r w" if "holding c r w" "client_for c i r" for r w
  proof -
    have "sid_of (cds (sv c)) r \<noteq> sid" using client_for_sid [OF that(2)] i by simp
    then have "entry_held c' (url_of c r) = Some r"
      using advance_entry [OF run t(2)] phases_okD(1) [OF ok, of sid] t(1) that(1) by (simp add: holding_def)
    moreover have "world_map c' (url_of c r) = Some w"
      using advance_world_map [OF run, of "url_of c r" w] that(1) by (auto simp: holding_def)
    ultimately show ?thesis by (simp add: holding_def const(1))
  qed
  have rest: "resting c' i" if "resting c i" and "\<And>a b d. ph i \<noteq> Some (RemoveWorldList a b d)"
    using that(1) seat [OF _ that(2)] by (auto simp: resting_def reg places split: option.splits)
  have leave: "leaving c' i r" if "leaving c i r" and "\<And>a b d. ph i \<noteq> Some (RemoveWorldList a b d)" for r
    using that(1) seat [OF _ that(2)] by (auto simp: leaving_def reg)
  have ai: "absent c' i = absent c i" "joining c' i = joining c i"
    by (simp_all add: absent_def joining_def reg places client fun_eq_iff)
  have pi: "phase_ok c i (ph i)" by (rule phases_okD(1) [OF ok])
  show ?thesis
  proof (cases "ph i")
    case None
    then show ?thesis using pi rest by simp
  next
    case (Some t2)
    then show ?thesis
      using pi rest leave hold seat by (cases t2) (auto simp: ai const reg client places joining_def)
  qed
qed

section \<open>What a step does for its own session\<close>

lemma phase_ok_session: "phase_ok c sid (Some t) \<Longrightarrow> session_of (cds (sv c)) t = Some sid"
  by (cases t) (auto simp: absent_def joining_def dest: client_for_sid)

lemma phase_ok_own:
  assumes ok: "phases_ok c ph" and run: "advance api t c = (c', t')" and t: "ph sid = Some t"
  shows "phase_ok c' sid (going t')"
proof -
  have pt: "phase_ok c sid (Some t)" using phases_okD(1) [OF ok, of sid] t by simp
  note addr = phases_okD(4) [OF ok]
  note defs = absent_def joining_def leaving_def resting_def seated_def holding_def client_for_def
  show ?thesis
  proof (cases t)
    case (AddWorldPush r w)
    then have "world_store c w \<noteq> None" using pt addresses_okD(2) [OF addr] by (auto simp: holding_def)
    with AddWorldPush pt run have "seated c' sid r w" "reg c' sid = Some r" "t' = Finished True" by (auto simp: defs)
    then show ?thesis by (auto simp: resting_def)
  next
    case (AddEntry r)
    show ?thesis
    proof (cases "entry_held c (url_of c r) = None \<and> world_map c (url_of c r) = None")
      case True
      with AddEntry pt run addr have "seated c' sid r (World_Ref (url_of c r) (next_world c))" "reg c' sid = Some r"
        "t' = Finished True" by (auto simp: defs)
      then show ?thesis by (auto simp: resting_def)
    next
      case False
      with AddEntry pt run show ?thesis by (auto simp: defs split: if_splits option.splits)
    qed
  qed (use pt run addr in \<open>auto simp: defs Let_def not_le split: if_splits option.splits\<close>)
qed

text \<open>A set that changes at one element.\<close>

lemma card_switch:
  assumes fin: "finite {x. P x}" and same: "\<And>y. y \<noteq> x \<Longrightarrow> Q y = P y"
  shows "finite {x. Q x}" and "int (card {x. Q x}) = int (card {x. P x}) - of_bool (P x) + of_bool (Q x)"
proof -
  have Q: "{y. Q y} = (if Q x then insert x ({y. P y} - {x}) else {y. P y} - {x})"
  proof (rule set_eqI)
    fix y
    show "y \<in> {y. Q y} \<longleftrightarrow> y \<in> (if Q x then insert x ({y. P y} - {x}) else {y. P y} - {x})"
      by (cases "y = x") (auto simp: same)
  qed
  with fin show "finite {x. Q x}" by simp
  have "P x \<Longrightarrow> int (card ({y. P y} - {x})) = int (card {y. P y}) - 1"
    using card_Suc_Diff1 [OF fin, of x] by simp
  moreover have "card (insert x ({y. P y} - {x})) = Suc (card ({y. P y} - {x}))"
    using fin by (simp add: card.insert_remove)
  moreover have "\<not> P x \<Longrightarrow> {y. P y} - {x} = {y. P y}" by auto
  ultimately show "int (card {x. Q x}) = int (card {x. P x}) - of_bool (P x) + of_bool (Q x)"
    unfolding Q by (cases "P x"; cases "Q x") simp_all
qed

lemma decrement: "0 < unat (c :: u64) \<Longrightarrow> int (unat (c - 1)) = int (unat c) - 1 \<and> c - 1 \<le> c"
proof -
  assume "0 < unat c"
  then have "c \<noteq> 0" by auto
  then have "unat (c - 1) = unat c - 1" by (simp add: unat_minus_one)
  with \<open>0 < unat c\<close> show ?thesis by (simp add: word_le_nat_alt)
qed

lemma increment: "c < limit \<Longrightarrow> int (unat (c + 1 :: u64)) = int (unat c) + 1 \<and> c + 1 \<le> limit"
  using below_limit_no_wrap [of limit c] below_limit_le [of limit c] by (simp add: not_le)

lemma counted_simps [simp]:
  "counted c sid None = (reg c sid \<noteq> None)" "counted c sid (Some (AddLoad r)) = (reg c sid \<noteq> None)"
  "counted c sid (Some (AddExchange r cc)) = (reg c sid \<noteq> None)" "counted c sid (Some (AddInsert r)) = True"
  "counted c sid (Some (AddEntry r)) = (reg c sid \<noteq> None)" "counted c sid (Some (AddWorldLoad r w)) = (reg c sid \<noteq> None)"
  "counted c sid (Some (AddWorldExchange r w cc)) = (reg c sid \<noteq> None)"
  "counted c sid (Some (AddWorldPush r w)) = (reg c sid \<noteq> None)" "counted c sid (Some (AddUndoCount r)) = (reg c sid \<noteq> None)"
  "counted c sid (Some (AddUndoInsert r)) = False" "counted c sid (Some (RemoveLookup i)) = (reg c sid \<noteq> None)"
  "counted c sid (Some (RemoveCount i r)) = True" "counted c sid (Some (RemoveDispose i r)) = (reg c sid \<noteq> None)"
  "counted c sid (Some (RemoveFetch i r)) = (reg c sid \<noteq> None)"
  "counted c sid (Some (RemoveWorldCount i r w)) = (reg c sid \<noteq> None)"
  "counted c sid (Some (RemoveWorldList i r w)) = (reg c sid \<noteq> None)"
  "counted c sid (Some (RemoveWorldInfo i r w)) = (reg c sid \<noteq> None)"
  "counted c sid (Some (RemoveEmpty i r)) = (reg c sid \<noteq> None)"
  by (simp_all add: counted_def)

lemma count_own:
  assumes ok: "phases_ok c ph" and run: "advance api t c = (c', t')" and t: "ph sid = Some t"
  shows "int (unat (client_count (sv c'))) =
      int (unat (client_count (sv c))) - of_bool (counted c sid (Some t)) + of_bool (counted c' sid (going t')) \<and>
    client_count (sv c') \<le> limit_or_max (max_connections (sv c))"
proof -
  have pt: "phase_ok c sid (Some t)" using phases_okD(1) [OF ok, of sid] t by simp
  from phases_okD(2) [OF ok] have fin: "finite {i. counted c i (ph i)}"
    and count: "unat (client_count (sv c)) = card {i. counted c i (ph i)}"
    and le: "client_count (sv c) \<le> limit_or_max (max_connections (sv c))"
    by (simp_all add: count_right_def)
  have pos: "0 < unat (client_count (sv c))" if "counted c sid (Some t)"
    using that t fin unfolding count by (auto simp: card_gt_0_iff intro!: exI [of _ sid])
  note dec = decrement [OF pos] and defs = absent_def joining_def leaving_def
  show ?thesis
  proof (cases t)
    case (AddExchange r cc)
    then show ?thesis using pt run le increment [of cc] by (auto simp: defs split: if_splits)
  next
    case (AddUndoCount r)
    then show ?thesis using pt run dec le order_trans by (fastforce simp: defs)
  next
    case (RemoveCount i r)
    then show ?thesis using pt run dec le order_trans by (fastforce simp: defs)
  next
    case (RemoveLookup i)
    then show ?thesis using pt run le by (auto split: option.splits)
  qed (use pt run le client_for_sid in \<open>auto simp: defs Let_def split: if_splits option.splits\<close>)
qed

lemma count_right_step:
  assumes ok: "phases_ok c ph" and run: "advance api t c = (c', t')" and t: "ph sid = Some t"
  shows "count_right c' (ph(sid := going t'))"
proof -
  have ts: "session_of (cds (sv c)) t = Some sid"
    using phase_ok_session [of c sid t] phases_okD(1) [OF ok, of sid] t by simp
  have "counted c' i ((ph(sid := going t')) i) = counted c i (ph i)" if "i \<noteq> sid" for i
    using that advance_reg [OF run ts that] by (simp add: counted_def)
  then have fin: "finite {i. counted c' i ((ph(sid := going t')) i)}"
    and card: "int (card {i. counted c' i ((ph(sid := going t')) i)}) = int (card {i. counted c i (ph i)}) -
       of_bool (counted c sid (Some t)) + of_bool (counted c' sid (going t'))"
    using card_switch [of "\<lambda>i. counted c i (ph i)" sid "\<lambda>i. counted c' i ((ph(sid := going t')) i)"]
      phases_okD(2) [OF ok] t by (simp_all add: count_right_def)
  have "unat (client_count (sv c')) = card {i. counted c' i ((ph(sid := going t')) i)}"
    using count_own [OF assms, THEN conjunct1] card phases_okD(2) [OF ok, unfolded count_right_def] by linarith
  with count_own [OF assms, THEN conjunct2] fin advance_constant(3) [OF run] show ?thesis
    by (simp only: count_right_def)
qed

text \<open>The counter of a world object, zero if there is no such object.\<close>

definition world_count :: "shared \<Rightarrow> world_ref \<Rightarrow> nat" where
  "world_count c w = (case world_store c w of None \<Rightarrow> 0 | Some ud \<Rightarrow> unat (ud_client_count ud))"

lemma in_world_store:
  assumes "phases_ok c ph" "in_world c w i (ph i)"
  shows "world_store c w \<noteq> None"
  using assms(2) phases_okD(1) [OF assms(1), of i] addresses_okD(2) [OF phases_okD(4) [OF assms(1)]]
  by (auto simp: in_world_def places_def holding_def split: option.splits thread.splits)

lemma world_counts:
  assumes ok: "phases_ok c ph"
  shows "finite {i. in_world c w i (ph i)}" and "world_count c w = card {i. in_world c w i (ph i)}"
proof -
  have "finite {i. in_world c w i (ph i)} \<and> world_count c w = card {i. in_world c w i (ph i)}"
  proof (cases "world_store c w")
    case None
    then have "{i. in_world c w i (ph i)} = {}" using in_world_store [OF ok] by blast
    with None show ?thesis by (simp add: world_count_def)
  next
    case (Some ud)
    with phases_okD(3) [OF ok Some] show ?thesis by (simp add: world_count_def world_right_def)
  qed
  then show "finite {i. in_world c w i (ph i)}" "world_count c w = card {i. in_world c w i (ph i)}" by simp_all
qed

lemma world_count_simps [simp]:
  "world_count (on_server f c) = world_count c" "world_count (hold_entry u r c) = world_count c"
  "world_count (release_entry u c) = world_count c" "world_count (c\<lparr>world_map := m\<rparr>) = world_count c"
  by (simp_all add: world_count_def fun_eq_iff)

lemma world_count_same [simp]:
  "(\<And>ud. ud_client_count (f ud) = ud_client_count ud) \<Longrightarrow> world_count (on_world w f c) v = world_count c v"
  by (auto simp: world_count_def split: option.split)

lemma world_count_insert [simp]:
  "addresses_ok c \<Longrightarrow>
     world_count (insert_world u r c) v = (if v = World_Ref u (next_world c) then 1 else world_count c v)"
  by (auto simp: world_count_def url_data_new_def)

lemma world_own:
  assumes ok: "phases_ok c ph" and run: "advance api t c = (c', t')" and t: "ph sid = Some t"
  shows "int (world_count c' w) =
    int (world_count c w) - of_bool (in_world c w sid (Some t)) + of_bool (in_world c' w sid (going t'))"
proof -
  have pt: "phase_ok c sid (Some t)" using phases_okD(1) [OF ok, of sid] t by simp
  note addr = phases_okD(4) [OF ok]
  note defs = absent_def joining_def leaving_def resting_def seated_def holding_def in_world_def
  show ?thesis
  proof (cases t)
    case (AddEntry r)
    then show ?thesis
      using pt run addr fresh_address [OF addr] in_world_store [OF ok, of w sid] t client_for_sid
      by (auto simp: defs split: if_splits option.splits) (simp add: world_count_def)?
  next
    case (AddWorldExchange r v cc)
    obtain ud where ud: "world_store c v = Some ud"
      using pt AddWorldExchange addresses_okD(2) [OF addr] by (auto simp: holding_def)
    show ?thesis
    proof (cases "ud_client_count ud = cc")
      case True
      then have "int (unat (cc + 1)) = int (unat cc) + 1" using pt AddWorldExchange increment by auto
      then show ?thesis using pt run AddWorldExchange ud True by (auto simp: defs world_count_def)
    next
      case False
      then show ?thesis using pt run AddWorldExchange ud by (auto simp: defs)
    qed
  next
    case (AddWorldPush r v)
    then have "world_store c v \<noteq> None" using pt addresses_okD(2) [OF addr] by (auto simp: holding_def)
    then show ?thesis using pt run AddWorldPush client_for_sid by (auto simp: defs)
  next
    case (RemoveWorldCount i r v)
    then have "world_map c (url_of c r) = Some v" using pt by (simp add: seated_def)
    then obtain ud where ud: "world_store c v = Some ud" using addresses_okD(2) [OF addr] by blast
    have "in_world c v sid (ph sid)" using pt RemoveWorldCount t by (auto simp: defs)
    then have "0 < world_count c v"
      unfolding world_counts(2) [OF ok] using world_counts(1) [OF ok, of v] by (auto simp: card_gt_0_iff)
    then have "int (unat (ud_client_count ud - 1)) = int (unat (ud_client_count ud)) - 1"
      using decrement ud by (simp add: world_count_def)
    moreover have c': "c' = on_world v (\<lambda>ud. ud\<lparr>ud_client_count := ud_client_count ud - 1\<rparr>) c"
      "t' = RemoveWorldList i r v" using run RemoveWorldCount by simp_all
    moreover have "places c sid = {(v, r)}" using pt RemoveWorldCount by (simp add: seated_def)
    ultimately show ?thesis
      using ud RemoveWorldCount by (cases "w = v") (simp_all add: in_world_def world_count_def)
  next
    case (RemoveWorldList i r v)
    then show ?thesis using pt run by (auto simp: in_world_def)
  next
    case (RemoveWorldInfo i r v)
    then show ?thesis using pt run by (auto simp: in_world_def)
  qed (use pt run in \<open>auto simp: in_world_def Let_def split: if_splits option.splits\<close>)
qed

lemma world_lists:
  assumes ok: "phases_ok c ph" and run: "advance api t c = (c', t')" and t: "ph sid = Some t"
    and ud': "world_store c' w = Some ud'"
  shows "distinct (ud_clients ud') \<and>
    unat (ud_client_count ud') \<le> max 1 (unat (limit_or_max (max_connections_by_url (sv c))))"
proof -
  have pt: "phase_ok c sid (Some t)" using phases_okD(1) [OF ok, of sid] t by simp
  have old: "distinct (ud_clients ud)" "unat (ud_client_count ud) \<le> max 1 (unat (limit_or_max (max_connections_by_url (sv c))))"
    if "world_store c v = Some ud" for v ud
    using phases_okD(3) [OF ok that] by (simp_all add: world_right_def)
  show ?thesis
  proof (cases t)
    case (AddEntry r)
    then show ?thesis using run ud' old by (auto simp: url_data_new_def split: if_splits option.splits)
  next
    case (AddWorldExchange r v cc)
    then have "unat (cc + 1) \<le> unat (limit_or_max (max_connections_by_url (sv c)))"
      using pt increment [of cc] by (simp add: word_le_nat_alt)
    then show ?thesis using run ud' old AddWorldExchange by (fastforce split: if_splits)
  next
    case (AddWorldPush r v)
    then have "places c sid = {}" "sid_of (cds (sv c)) r = sid" using pt client_for_sid by (auto simp: joining_def)
    then have "r \<notin> set (ud_clients ud)" if "world_store c v = Some ud" for ud
      using that by (auto simp: places_def)
    then show ?thesis using run ud' old AddWorldPush by (fastforce split: if_splits)
  next
    case (RemoveWorldCount i r v)
    show ?thesis
    proof (cases "w = v")
      case True
      then obtain ud where ud: "world_store c v = Some ud" "ud' = ud\<lparr>ud_client_count := ud_client_count ud - 1\<rparr>"
        using run ud' RemoveWorldCount by auto
      have "world_count c' v \<le> world_count c v"
        using world_own [OF ok run t, of v] pt RemoveWorldCount run by (auto simp: in_world_def seated_def)
      with ud old [OF ud(1)] ud' True show ?thesis by (simp add: world_count_def)
    next
      case False
      then show ?thesis using run ud' old RemoveWorldCount by auto
    qed
  next
    case (RemoveWorldList i r v)
    then show ?thesis using run ud' old by (fastforce split: if_splits)
  next
    case (RemoveWorldInfo i r v)
    then show ?thesis using run ud' old by (fastforce split: if_splits)
  qed (use run ud' old in \<open>auto simp: Let_def split: if_splits option.splits\<close>)
qed

lemma world_right_step:
  assumes ok: "phases_ok c ph" and run: "advance api t c = (c', t')" and t: "ph sid = Some t"
    and ud': "world_store c' w = Some ud'"
  shows "world_right c' (ph(sid := going t')) w ud'"
proof -
  have ts: "session_of (cds (sv c)) t = Some sid"
    using phase_ok_session [of c sid t] phases_okD(1) [OF ok, of sid] t by simp
  have "in_world c' w i ((ph(sid := going t')) i) = in_world c w i (ph i)" if "i \<noteq> sid" for i
    using that advance_places [OF run ts phases_okD(4) [OF ok] that] by (simp add: in_world_def)
  then have fin: "finite {i. in_world c' w i ((ph(sid := going t')) i)}"
    and card: "int (card {i. in_world c' w i ((ph(sid := going t')) i)}) = int (card {i. in_world c w i (ph i)}) -
       of_bool (in_world c w sid (Some t)) + of_bool (in_world c' w sid (going t'))"
    using card_switch [of "\<lambda>i. in_world c w i (ph i)" sid "\<lambda>i. in_world c' w i ((ph(sid := going t')) i)"]
      world_counts(1) [OF ok] t by simp_all
  have "unat (ud_client_count ud') = world_count c' w" using ud' by (simp add: world_count_def)
  also have "\<dots> = card {i. in_world c' w i ((ph(sid := going t')) i)}"
    using world_own [OF ok run t, of w] world_counts(2) [OF ok, of w] card by linarith
  finally show ?thesis
    using fin world_lists [OF assms] advance_constant(4) [OF run] by (simp add: world_right_def)
qed

lemma addresses_step:
  assumes addr: "addresses_ok c" and run: "advance api t c = (c', t')"
  shows "addresses_ok c'"
proof -
  note const = advance_constant(1,2) [OF run]
  have stay: "world_map c' u = Some w \<and> world_map c u \<noteq> Some w \<Longrightarrow> made_for w = u \<and> world_store c' w \<noteq> None" for u w
    using run by (cases t) (auto simp: Let_def split: if_splits option.splits)
  have store: "world_store c w \<noteq> None \<Longrightarrow> world_store c' w \<noteq> None" for w
    using run by (cases t) (auto simp: Let_def split: if_splits option.splits)
  have num: "world_store c' w \<noteq> None \<Longrightarrow> address w < next_world c'" for w
    using run addresses_okD(3) [OF addr, of w]
    by (cases t) (force simp: Let_def less_Suc_eq split: if_splits option.splits)+
  show ?thesis
    unfolding addresses_ok_def
  proof (intro conjI allI impI)
    fix u w
    assume u: "world_map c' u = Some w"
    show "made_for w = u" using stay [of u w] u addresses_okD(1) [OF addr] by blast
    show "world_store c' w \<noteq> None" using stay [of u w] u store [of w] addresses_okD(2) [OF addr] by blast
  next
    fix w
    show "world_store c' w \<noteq> None \<Longrightarrow> address w < next_world c'" by (rule num)
  next
    fix r cd
    show "cds (sv c') r = Some cd \<Longrightarrow> r < next_ref (sv c')"
      using addresses_okD(4) [OF addr] const by simp
  qed
qed

text \<open>Whoever makes a world empty, or finds it empty, looks at it once more before ending.\<close>

lemma emptied_step:
  assumes ok: "phases_ok c ph" and run: "advance api t c = (c', t')" and t: "ph sid = Some t"
  shows "emptied_ok c' (ph(sid := going t'))"
  unfolding emptied_ok_def
proof (intro allI impI)
  fix u w ud
  assume as: "world_map c' u = Some w \<and> world_store c' w = Some ud \<and> ud_client_count ud = 0"
  have pt: "phase_ok c sid (Some t)" using phases_okD(1) [OF ok, of sid] t by simp
  have same: "emptying c' u p = emptying c u p" for p
    using advance_constant(1) [OF run] by (auto simp: emptying_def split: option.split thread.split)
  show "\<exists>i. emptying c' u ((ph(sid := going t')) i)"
  proof (cases "\<exists>v x. t = RemoveWorldCount sid v x \<and> x = w")
    case True
    then obtain r where r: "t = RemoveWorldCount sid r w" by blast
    with pt addresses_okD(1) [OF phases_okD(4) [OF ok]] have "url_of c r = made_for w" by (auto simp: seated_def)
    moreover have "made_for w = u"
      using addresses_okD(1) [OF addresses_step [OF phases_okD(4) [OF ok] run]] as by blast
    ultimately have "emptying c u (going t')" using r run by (auto simp: emptying_def)
    then have "emptying c' u ((ph(sid := going t')) sid)" by (simp add: same)
    then show ?thesis by blast
  next
    case False
    have "cc + 1 \<noteq> 0" if "t = AddWorldExchange r v cc" for r v cc
    proof
      assume "cc + 1 = 0"
      with below_limit_no_wrap [of "limit_or_max (max_connections_by_url (sv c))" cc] that pt show False
        by (simp add: not_le)
    qed
    then have "\<exists>ud. world_map c u = Some w \<and> world_store c w = Some ud \<and> ud_client_count ud = 0"
      using False run as pt addresses_okD(1) [OF phases_okD(4) [OF ok]]
      by (cases t) (auto simp: Let_def url_data_new_def seated_def split: if_splits option.splits)
    then obtain i where i: "emptying c u (ph i)" using phases_okD(5) [OF ok] by (auto simp: emptied_ok_def)
    show ?thesis
    proof (cases "i = sid")
      case True
      then have "emptying c u (going t')"
        using run as t i pt by (cases t) (auto simp: emptying_def is_empty_def get_client_count_def split: if_splits option.splits)
      then have "emptying c' u ((ph(sid := going t')) sid)" by (simp add: same)
      then show ?thesis by blast
    next
      case False
      with i have "emptying c' u ((ph(sid := going t')) i)" by (simp add: same)
      then show ?thesis by blast
    qed
  qed
qed

lemma phases_ok_step:
  assumes ok: "phases_ok c ph" and run: "advance api t c = (c', t')" and t: "ph sid = Some t"
  shows "phases_ok c' (ph(sid := going t'))"
proof -
  have ts: "session_of (cds (sv c)) t = Some sid"
    using phase_ok_session [of c sid t] phases_okD(1) [OF ok, of sid] t by simp
  have "phase_ok c' i ((ph(sid := going t')) i)" for i
    using phase_ok_own [OF assms] phase_ok_others [OF ok run t ts, of i] by (cases "i = sid") simp_all
  then show ?thesis
    using count_right_step [OF assms] world_right_step [OF assms] addresses_step [OF phases_okD(4) [OF ok] run]
      emptied_step [OF assms] by (simp add: phases_ok_def)
qed

definition threads_ok :: "threads \<Rightarrow> bool" where
  "threads_ok c \<longleftrightarrow> one_thread_each (cds (sv (fst c))) (snd c) \<and>
     phases_ok (fst c) (phase_of (cds (sv (fst c))) (snd c))"

lemma threads_ok_step:
  assumes ok: "threads_ok (c, ts)" and i: "i < length ts" and run: "advance api (ts ! i) c = (c', t')"
  shows "threads_ok (c', ts[i := t'])"
proof (cases "session_of (cds (sv c)) (ts ! i)")
  case None
  then obtain b where b: "ts ! i = Finished b" by (cases "ts ! i") simp_all
  then have "c' = c" "ts[i := t'] = ts" using run i by (auto simp: list_update_same_conv)
  with ok show ?thesis by simp
next
  case (Some sid)
  from ok have one: "one_thread_each (cds (sv c)) ts" and ph: "phases_ok c (phase_of (cds (sv c)) ts)"
    by (simp_all add: threads_ok_def)
  have t: "phase_of (cds (sv c)) ts sid = Some (ts ! i)" by (rule phase_ofI [OF one i Some])
  have "session_of (cds (sv c)) t' = Some sid \<or> session_of (cds (sv c)) t' = None"
    using advance_constant(5) [OF run] Some by simp
  from phase_of_update [OF one i Some this] phases_ok_step [OF ph run t] show ?thesis
    by (simp add: threads_ok_def advance_constant(1) [OF run])
qed

interpretation schedules: kept_invariant "\<lambda>c c'. \<exists>i. c' = run_thread api i c" threads_ok for api
proof
  fix c c' :: threads
  assume "\<exists>i. c' = run_thread api i c" "threads_ok c"
  then show "threads_ok c'"
    using threads_ok_step [of "fst c" "snd c" _ api] by (cases c) (auto simp: run_thread_def split: prod.split)
qed

end
