(* ===== verification/Server_Schedules.thy ===== *)
theory Server_Schedules
  imports Server_Interleaving
begin

text \<open>
  Whole runs of concurrent additions and removals (\<open>hubserv/src/state.rs\<close>): from a consistent state
  through any schedule to the end, what is then registered, and that an end can always be reached. A
  last example shows what two threads for one session do.
\<close>

section \<open>Beginning and end\<close>

text \<open>A thread at the beginning of an addition or a removal.\<close>

definition starting :: "server_state \<Rightarrow> thread \<Rightarrow> bool" where
  "starting s t \<longleftrightarrow> (\<exists>r. t = AddLoad r \<and> client_ready s r) \<or> (\<exists>sid. t = RemoveLookup sid)"

lemma shared_of_sel [simp]:
  "cds (sv (shared_of s)) = cds s" "connection_map (sv (shared_of s)) = connection_map s"
  "client_count (sv (shared_of s)) = client_count s" "max_connections (sv (shared_of s)) = max_connections s"
  "max_connections_by_url (sv (shared_of s)) = max_connections_by_url s" "next_ref (sv (shared_of s)) = next_ref s"
  "entry_held (shared_of s) u = None" "next_world (shared_of s) = 1"
  "world_map (shared_of s) u = map_option (\<lambda>_. World_Ref u 0) (url_data_map s u)"
  "world_store (shared_of s) w = (if address w = 0 then url_data_map s (made_for w) else None)"
  by (simp_all add: shared_of_def)

lemma places_shared_of:
  assumes "state_ok s"
  shows "places (shared_of s) sid =
    (case connection_map s sid of None \<Rightarrow> {} | Some r \<Rightarrow> {(World_Ref (cd_url (the (cds s r))) 0, r)})"
proof -
  have "(w, r) \<in> places (shared_of s) sid \<longleftrightarrow>
      connection_map s sid = Some r \<and> w = World_Ref (cd_url (the (cds s r))) 0" for w r
  proof
    assume "(w, r) \<in> places (shared_of s) sid"
    then obtain ud where ud: "address w = 0" "url_data_map s (made_for w) = Some ud" "r \<in> set (ud_clients ud)"
      and sid: "sid_of (cds s) r = sid" by (auto simp: places_def split: if_splits)
    with state_okD(6) [OF assms, of r "made_for w"] obtain i where "connection_map s i = Some r"
      "cd_url (the (cds s r)) = made_for w" by blast
    with session_owner [OF assms] sid ud(1) show "connection_map s sid = Some r \<and> w = World_Ref (cd_url (the (cds s r))) 0"
      by (cases w) auto
  next
    assume r: "connection_map s sid = Some r \<and> w = World_Ref (cd_url (the (cds s r))) 0"
    then obtain ud where "url_data_map s (cd_url (the (cds s r))) = Some ud" "r \<in> set (ud_clients ud)"
      "sid_of (cds s) r = sid" using registered_in_world [OF assms, of sid r] by blast
    with r show "(w, r) \<in> places (shared_of s) sid" by (auto simp: places_def)
  qed
  then show ?thesis by (auto split: option.split)
qed

lemma resting_shared_of: "state_ok s \<Longrightarrow> resting (shared_of s) sid"
  using state_okD(3) [of s sid] registered_in_world [of s sid]
  by (fastforce simp: resting_def seated_def client_for_def places_shared_of split: option.split)

lemma threads_ok_starting:
  assumes ok: "state_ok s" and limits: "within_limits s"
    and ts: "\<forall>t\<in>set ts. starting s t" and one: "one_thread_each (cds s) ts"
  shows "threads_ok (shared_of s, ts)"
proof -
  let ?c = "shared_of s" and ?ph = "phase_of (cds s) ts"
  have start: "?ph sid = None \<or> ?ph sid = Some (RemoveLookup sid) \<or>
      (\<exists>r. ?ph sid = Some (AddLoad r) \<and> client_for ?c sid r \<and> connection_map s sid = None)" for sid
  proof (cases "?ph sid")
    case (Some t)
    then have "starting s t" "session_of (cds s) t = Some sid" using phase_of_Some ts by fastforce+
    with Some show ?thesis by (auto simp: starting_def client_ready_def client_for_def)
  qed simp
  have phase: "phase_ok ?c sid (?ph sid)" for sid
    using start [of sid] resting_shared_of [OF ok, of sid] by (auto simp: absent_def places_shared_of [OF ok])
  have "counted ?c sid (?ph sid) \<longleftrightarrow> sid \<in> dom (connection_map s)" for sid
    using start [of sid] by auto
  then have count: "count_right ?c ?ph"
    using state_okD(1,2) [OF ok] limits by (simp add: count_right_def within_limits_def word_le_nat_alt)
  have world: "world_right ?c ?ph w ud" if st: "world_store ?c w = Some ud" for w ud
  proof -
    obtain u where w: "w = World_Ref u 0" and ud: "url_data_map s u = Some ud"
      using st by (cases w) (auto split: if_splits)
    have "in_world ?c w sid (?ph sid) \<longleftrightarrow> sid \<in> url_sessions (cds s) ud" for sid
      using start [of sid]
      by (auto simp: in_world_def w world_sessions [OF ok ud] places_shared_of [OF ok] sessions_of_def split: option.splits)
    moreover have "population (sessions_of s) u \<le> max 1 (unat (limit_or_max (max_connections_by_url s)))"
      using limits by (simp add: within_limits_def)
    then have "unat (ud_client_count ud) \<le> max 1 (unat (limit_or_max (max_connections_by_url s)))"
      by (simp add: population_world [OF ok] ud)
    moreover note state_okD(4) [OF ok ud] worlds.count_members [of "cds s" ud]
    ultimately show ?thesis
      by (auto simp: world_right_def url_ok_def url_sessions_def distinct_map)
  qed
  have "addresses_ok ?c"
    using state_okD(7) [OF ok] by (auto simp: addresses_ok_def)
  moreover have "emptied_ok ?c ?ph"
    using world_populated [OF ok] by (force simp: emptied_ok_def)
  ultimately show ?thesis
    using phase count world one by (simp add: threads_ok_def phases_ok_def)
qed

lemma view_sel [simp]:
  "cds (view c) = cds (sv c)" "connection_map (view c) = connection_map (sv c)" "next_ref (view c) = next_ref (sv c)"
  "client_count (view c) = client_count (sv c)" "max_connections (view c) = max_connections (sv c)"
  "max_connections_by_url (view c) = max_connections_by_url (sv c)"
  "url_data_map (view c) u = Option.bind (world_map c u) (world_store c)"
  by (simp_all add: view_def)

text \<open>When nobody works any more, the state is one of the sequential model.\<close>

lemma phases_ok_quiet:
  assumes ok: "phases_ok c (\<lambda>_. None)"
  shows "state_ok (view c)" and "within_limits (view c)"
proof -
  note addr = phases_okD(4) [OF ok] and count = phases_okD(2) [OF ok]
  have rest: "resting c sid" for sid using phases_okD(1) [OF ok, of sid] by simp
  have seat: "\<exists>w. seated c sid r w" if "reg c sid = Some r" for sid r using rest [of sid] that by (simp add: resting_def)
  have "{sid. counted c sid None} = dom (reg c)" by auto
  then have c: "count_ok (view c)" using count by (simp add: count_right_def count_ok_def)
  have refs: "refs_ok (view c)"
    using seat addresses_okD(4) [OF addr] by (force simp: refs_ok_def seated_def client_for_def)
  have world: "url_ok (cds (view c)) ud \<and> ud_clients ud \<noteq> [] \<and>
      unat (ud_client_count ud) \<le> max 1 (unat (limit_or_max (max_connections_by_url (sv c)))) \<and>
      (\<forall>r. r \<in> set (ud_clients ud) \<longleftrightarrow> (\<exists>sid. reg c sid = Some r) \<and> url_of c r = u)"
    if u: "url_data_map (view c) u = Some ud" for u ud
  proof -
    from u obtain w where w: "world_map c u = Some w" "world_store c w = Some ud" by (auto simp: bind_eq_Some_conv)
    note right = phases_okD(3) [OF ok w(2), unfolded world_right_def]
    have place: "(w, r) \<in> places c (sid_of (cds (sv c)) r) \<longleftrightarrow> r \<in> set (ud_clients ud)" for r
      using w(2) by (auto simp: places_def)
    have one: "reg c (sid_of (cds (sv c)) r) = Some r \<and> url_of c r = u \<and> places c (sid_of (cds (sv c)) r) = {(w, r)}"
      if r: "r \<in> set (ud_clients ud)" for r
    proof -
      have "(w, r) \<in> places c (sid_of (cds (sv c)) r)" using r place by blast
      with rest [of "sid_of (cds (sv c)) r"] obtain r' w' where
        "reg c (sid_of (cds (sv c)) r) = Some r'" "seated c (sid_of (cds (sv c)) r) r' w'"
        by (auto simp: resting_def split: option.splits)
      with \<open>(w, r) \<in> places c (sid_of (cds (sv c)) r)\<close> addresses_okD(1) [OF addr, of u w]
        addresses_okD(1) [OF addr, of "url_of c r" w] w(1)
      show ?thesis by (auto simp: seated_def)
    qed
    have "inj_on (sid_of (cds (sv c))) (set (ud_clients ud))"
    proof (rule inj_onI)
      fix r r'
      assume "r \<in> set (ud_clients ud)" "r' \<in> set (ud_clients ud)" "sid_of (cds (sv c)) r = sid_of (cds (sv c)) r'"
      with one [of r, THEN conjunct1] one [of r', THEN conjunct1] show "r = r'" by (metis option.inject)
    qed
    then have dist: "distinct (map (sid_of (cds (sv c))) (ud_clients ud))" using right by (simp add: distinct_map)
    have "{sid. in_world c w sid None} = sid_of (cds (sv c)) ` set (ud_clients ud)"
      using w(2) by (auto simp: in_world_def places_def)
    also have "card \<dots> = length (ud_clients ud)" using distinct_card [OF dist] by simp
    finally have len: "unat (ud_client_count ud) = length (ud_clients ud)" using right by simp
    have "ud_client_count ud \<noteq> 0" using phases_okD(5) [OF ok] w by (auto simp: emptied_ok_def emptying_def)
    with len have ne: "ud_clients ud \<noteq> []" by (metis list.size(3) unat_eq_zero)
    have "r \<in> set (ud_clients ud)" if r: "reg c sid = Some r" "url_of c r = u" for sid r
    proof -
      obtain w' where "seated c sid r w'" using seat [OF r(1)] by blast
      with r(2) w have "(w, r) \<in> places c sid" by (auto simp: seated_def)
      with w(2) show ?thesis by (auto simp: places_def)
    qed
    with one dist len ne right show ?thesis by (auto simp: url_ok_def)
  qed
  then have worlds: "worlds_ok (view c)" by (simp add: worlds_ok_def del: view_sel(7))
  have listed: "listed_ok (view c)"
    unfolding listed_ok_def
  proof (intro allI iffI)
    fix u r
    assume r: "(\<exists>sid. connection_map (view c) sid = Some r) \<and> cd_url (the (cds (view c) r)) = u"
    then obtain sid where "reg c sid = Some r" "url_of c r = u" by auto
    moreover from seat [OF this(1)] obtain w where "seated c sid r w" by blast
    ultimately obtain ud where "url_data_map (view c) u = Some ud" using addresses_okD(2) [OF addr] by (fastforce simp: seated_def)
    with world [OF this] r show "\<exists>ud. url_data_map (view c) u = Some ud \<and> r \<in> set (ud_clients ud)" by auto
  next
    fix u r
    assume "\<exists>ud. url_data_map (view c) u = Some ud \<and> r \<in> set (ud_clients ud)"
    then obtain ud where ud: "url_data_map (view c) u = Some ud" "r \<in> set (ud_clients ud)" by blast
    from world [OF ud(1)] ud(2) show "(\<exists>sid. connection_map (view c) sid = Some r) \<and> cd_url (the (cds (view c) r)) = u"
      by simp
  qed
  from c refs worlds listed show ok': "state_ok (view c)" by (simp add: state_ok_def)
  have "population (sessions_of (view c)) u \<le> max 1 (unat (limit_or_max (max_connections_by_url (sv c))))" for u
    using world [of u] unfolding population_world [OF ok'] by (auto split: option.split simp del: view_sel(7))
  then show "within_limits (view c)"
    using count by (simp add: within_limits_def count_right_def)
qed

section \<open>Answers\<close>

text \<open>What a thread works for: to add a client, or to remove a session.\<close>

definition task_of :: "thread \<Rightarrow> (cd_ref + session_id) option" where
  "task_of t =
     (case t of
        AddLoad r \<Rightarrow> Some (Inl r) | AddExchange r _ \<Rightarrow> Some (Inl r) | AddInsert r \<Rightarrow> Some (Inl r) | AddEntry r \<Rightarrow> Some (Inl r)
      | AddWorldLoad r _ \<Rightarrow> Some (Inl r) | AddWorldExchange r _ _ \<Rightarrow> Some (Inl r) | AddWorldPush r _ \<Rightarrow> Some (Inl r)
      | AddUndoCount r \<Rightarrow> Some (Inl r) | AddUndoInsert r \<Rightarrow> Some (Inl r)
      | RemoveLookup sid \<Rightarrow> Some (Inr sid) | RemoveCount sid _ \<Rightarrow> Some (Inr sid) | RemoveDispose sid _ \<Rightarrow> Some (Inr sid)
      | RemoveFetch sid _ \<Rightarrow> Some (Inr sid) | RemoveWorldCount sid _ _ \<Rightarrow> Some (Inr sid)
      | RemoveWorldList sid _ _ \<Rightarrow> Some (Inr sid) | RemoveWorldInfo sid _ _ \<Rightarrow> Some (Inr sid)
      | RemoveEmpty sid _ \<Rightarrow> Some (Inr sid) | Finished _ \<Rightarrow> None)"

definition task_session :: "cd_store \<Rightarrow> cd_ref + session_id \<Rightarrow> session_id" where
  "task_session store k = (case k of Inl r \<Rightarrow> sid_of store r | Inr sid \<Rightarrow> sid)"

definition answered :: "shared \<Rightarrow> cd_ref + session_id \<Rightarrow> bool \<Rightarrow> bool" where
  "answered c k b \<longleftrightarrow> (case k of
      Inl r \<Rightarrow> reg c (sid_of (cds (sv c)) r) = (if b then Some r else None)
    | Inr sid \<Rightarrow> b \<and> reg c sid = None)"

definition on_track :: "shared \<Rightarrow> cd_ref + session_id \<Rightarrow> thread \<Rightarrow> bool" where
  "on_track c k t \<longleftrightarrow> task_of t = Some k \<or> (\<exists>b. t = Finished b \<and> answered c k b)"

lemma session_of_task: "session_of store t = map_option (task_session store) (task_of t)"
  by (cases t) (simp_all add: task_of_def task_session_def)

lemma on_track_own:
  assumes pt: "phase_ok c sid (Some t)" and k: "task_of t = Some k" and run: "advance api t c = (c', t')"
  shows "on_track c' k t'"
proof -
  note defs = on_track_def task_of_def answered_def
  show ?thesis
    using pt k run client_for_sid
    by (cases t) (auto simp: defs absent_def joining_def resting_def Let_def split: if_splits option.splits)
qed

definition tracked :: "server_state \<Rightarrow> thread list \<Rightarrow> threads \<Rightarrow> bool" where
  "tracked s ts c \<longleftrightarrow> cds (sv (fst c)) = cds s \<and> length (snd c) = length ts \<and>
     (\<forall>i<length ts. \<forall>k. task_of (ts ! i) = Some k \<longrightarrow> on_track (fst c) k (snd c ! i)) \<and>
     (\<forall>i<length ts. task_of (ts ! i) = None \<longrightarrow> task_of (snd c ! i) = None) \<and>
     (\<forall>sid. (\<forall>t\<in>set ts. session_of (cds s) t \<noteq> Some sid) \<longrightarrow> reg (fst c) sid = connection_map s sid)"

lemma tracked_step:
  assumes one: "one_thread_each (cds s) ts0" and ok: "threads_ok (c, ts)" and tr: "tracked s ts0 (c, ts)"
    and i: "i < length ts" and run: "advance api (ts ! i) c = (c', t')"
  shows "tracked s ts0 (c', ts[i := t'])"
proof (cases "task_of (ts ! i)")
  case None
  then obtain b where b: "ts ! i = Finished b" by (cases "ts ! i") (simp_all add: task_of_def)
  then have "c' = c" "ts[i := t'] = ts" using run i by (auto simp: list_update_same_conv)
  with tr show ?thesis by simp
next
  case (Some k)
  from tr have cds: "cds (sv c) = cds s" and len: "length ts = length ts0"
    and track: "\<And>j k. j < length ts \<Longrightarrow> task_of (ts0 ! j) = Some k \<Longrightarrow> on_track c k (ts ! j)"
    and none: "\<And>j. j < length ts \<Longrightarrow> task_of (ts0 ! j) = None \<Longrightarrow> task_of (ts ! j) = None"
    and rest: "\<And>sid. \<forall>t\<in>set ts0. session_of (cds s) t \<noteq> Some sid \<Longrightarrow> reg c sid = connection_map s sid"
    by (auto simp: tracked_def)
  note cds' = advance_constant(1) [OF run, unfolded cds]
  define sid where "sid = task_session (cds s) k"
  have ts: "session_of (cds (sv c)) (ts ! i) = Some sid" by (simp add: session_of_task Some sid_def cds)
  have k0: "task_of (ts0 ! i) = Some k"
    using track [OF i] none [OF i] Some by (cases "task_of (ts0 ! i)") (auto simp: on_track_def task_of_def)
  have t0: "session_of (cds s) (ts0 ! i) = Some sid" by (simp add: session_of_task k0 sid_def)
  have pt: "phase_ok c sid (Some (ts ! i))"
    using ok phases_okD(1) [of c "phase_of (cds (sv c)) ts" sid] phase_ofI [OF _ i ts] by (auto simp: threads_ok_def)
  note reg = advance_reg [OF run ts]
  have "on_track c' k' (ts[i := t'] ! j)" if j: "j < length ts" and k': "task_of (ts0 ! j) = Some k'" for j k'
  proof (cases "j = i")
    case True
    with k' k0 on_track_own [OF pt Some run] i show ?thesis by simp
  next
    case False
    have "session_of (cds s) (ts0 ! j) = Some (task_session (cds s) k')" by (simp add: session_of_task k')
    with one_thread_eachD [OF one _ _ _ t0, of j] i j False len have "task_session (cds s) k' \<noteq> sid" by auto
    then have "answered c' k' b = answered c k' b" for b
      using reg [of "task_session (cds s) k'"] by (auto simp: answered_def task_session_def cds cds' split: sum.splits)
    with track [OF j k'] False show ?thesis by (simp add: on_track_def)
  qed
  moreover have "reg c' sid' = connection_map s sid'" if "\<forall>t\<in>set ts0. session_of (cds s) t \<noteq> Some sid'" for sid'
  proof -
    have "sid' \<noteq> sid" using that t0 i len nth_mem by metis
    with reg rest [OF that] show ?thesis by simp
  qed
  moreover have "task_of (ts[i := t'] ! j) = None" if "j < length ts" "task_of (ts0 ! j) = None" for j
    using none [OF that] that(2) k0 by (cases "j = i") auto
  ultimately show ?thesis by (simp add: tracked_def cds' len)
qed

lemma run_schedule_reaches: "(\<lambda>c c'. \<exists>i. c' = run_thread api i c)\<^sup>*\<^sup>* c (run_schedule api sched c)"
proof (induction sched arbitrary: c)
  case (Cons i sched)
  have "(\<lambda>c c'. \<exists>i. c' = run_thread api i c) c (run_thread api i c)" by blast
  from converse_rtranclp_into_rtranclp [OF this Cons.IH] show ?case by simp
qed simp

lemma schedule_invariants:
  assumes "state_ok s" "within_limits s" "\<forall>t\<in>set ts. starting s t" "one_thread_each (cds s) ts"
    and run: "run_schedule api sched (shared_of s, ts) = (c, ts')"
  shows "threads_ok (c, ts')" and "tracked s ts (c, ts')"
proof -
  note start = threads_ok_starting [OF assms(1-4)]
  note reach = run_schedule_reaches [of api "(shared_of s, ts)" sched, unfolded run]
  show "threads_ok (c, ts')" by (rule schedules.kept_reachable [OF reach start])
  have "\<exists>k. task_of t = Some k" if "t \<in> set ts" for t
    using assms(3) that by (auto simp: starting_def task_of_def)
  then have "tracked s ts (shared_of s, ts)"
    using nth_mem by (fastforce simp: tracked_def on_track_def)
  moreover have "tracked s ts y" if "\<exists>i. y = run_thread api i x" "threads_ok x" "tracked s ts x" for x y
    using that tracked_step [OF assms(4), of "fst x" "snd x"]
    by (cases x) (auto simp: run_thread_def split: prod.split)
  ultimately show "tracked s ts (c, ts')"
    using schedules.kept_with [where P = "tracked s ts", OF _ reach start] by blast
qed

section \<open>No thread is stuck\<close>

text \<open>How many steps a thread has left when it runs alone; a compare-and-exchange may fail once.\<close>

fun steps_left :: "shared \<Rightarrow> thread \<Rightarrow> nat" where
  "steps_left c (AddLoad r) = 8"
| "steps_left c (AddExchange r cc) = (if client_count (sv c) = cc then 7 else 9)"
| "steps_left c (AddInsert r) = 6"
| "steps_left c (AddEntry r) = 5"
| "steps_left c (AddWorldLoad r w) = 3"
| "steps_left c (AddWorldExchange r w cc) = (if ud_client_count (the (world_store c w)) = cc then 2 else 4)"
| "steps_left c (AddWorldPush r w) = 1"
| "steps_left c (AddUndoCount r) = 2"
| "steps_left c (AddUndoInsert r) = 1"
| "steps_left c (RemoveLookup sid) = 8"
| "steps_left c (RemoveCount sid r) = 7"
| "steps_left c (RemoveDispose sid r) = 6"
| "steps_left c (RemoveFetch sid r) = 5"
| "steps_left c (RemoveWorldCount sid r w) = 4"
| "steps_left c (RemoveWorldList sid r w) = 3"
| "steps_left c (RemoveWorldInfo sid r w) = 2"
| "steps_left c (RemoveEmpty sid r) = 1"
| "steps_left c (Finished b) = 0"

text \<open>A thread that has an entry, or that needs none any more.\<close>

definition past_entry :: "thread \<Rightarrow> bool" where
  "past_entry t \<longleftrightarrow> (case t of
      AddWorldLoad _ _ \<Rightarrow> True | AddWorldExchange _ _ _ \<Rightarrow> True | AddWorldPush _ _ \<Rightarrow> True | AddUndoCount _ \<Rightarrow> True
    | AddUndoInsert _ \<Rightarrow> True | Finished _ \<Rightarrow> True | _ \<Rightarrow> False)"

definition holds_entry :: "shared \<Rightarrow> thread \<Rightarrow> string \<Rightarrow> bool" where
  "holds_entry c t u \<longleftrightarrow> (case t of
      AddWorldLoad r _ \<Rightarrow> url_of c r = u | AddWorldExchange r _ _ \<Rightarrow> url_of c r = u | AddWorldPush r _ \<Rightarrow> url_of c r = u
    | _ \<Rightarrow> False)"

text \<open>An entry is held by a thread that will give it back.\<close>

definition entries_ok :: "threads \<Rightarrow> bool" where
  "entries_ok c \<longleftrightarrow> (\<forall>u. entry_held (fst c) u \<noteq> None \<longrightarrow> (\<exists>t\<in>set (snd c). holds_entry (fst c) t u))"

lemma advance_progress:
  assumes "advance api t c = (c', t')" "past_entry t \<or> (\<forall>u. entry_held c u = None)" "\<forall>b. t \<noteq> Finished b"
  shows "steps_left c' t' < steps_left c t" "past_entry t' \<or> (\<forall>u. entry_held c' u = None)"
  using assms
  by (cases t; force simp: past_entry_def Let_def split: if_splits option.splits)+

lemma entries_step:
  assumes "advance api t c = (c', t')" "entry_held c' u \<noteq> None"
  shows "holds_entry c' t' u \<or> entry_held c u \<noteq> None \<and> \<not> holds_entry c t u"
  using assms by (cases t) (auto simp: holds_entry_def Let_def split: if_splits option.splits)

lemma entries_ok_run: "entries_ok c \<Longrightarrow> entries_ok (run_thread api i c)"
proof (cases "i < length (snd c)")
  case True
  assume ok: "entries_ok c"
  obtain c' t' where run: "advance api (snd c ! i) (fst c) = (c', t')" by fastforce
  have "\<exists>t\<in>set ((snd c)[i := t']). holds_entry c' t u" if u: "entry_held c' u \<noteq> None" for u
    using entries_step [OF run u]
  proof
    assume "holds_entry c' t' u"
    then show ?thesis using True set_update_memI [of i "snd c" t'] by blast
  next
    assume old: "entry_held (fst c) u \<noteq> None \<and> \<not> holds_entry (fst c) (snd c ! i) u"
    with ok obtain t where "t \<in> set (snd c)" "holds_entry (fst c) t u" unfolding entries_ok_def by blast
    then obtain j where j: "j < length (snd c)" "holds_entry (fst c) (snd c ! j) u" by (auto simp: in_set_conv_nth)
    with old have "j \<noteq> i" by blast
    with j have "(snd c)[i := t'] ! j = snd c ! j" "j < length ((snd c)[i := t'])" by simp_all
    moreover have "holds_entry c' (snd c ! j) u"
      using j(2) by (cases "snd c ! j") (simp_all add: holds_entry_def advance_constant(1) [OF run])
    ultimately show ?thesis by (metis nth_mem)
  qed
  with True run show ?thesis by (simp add: entries_ok_def run_thread_def)
qed (simp add: run_thread_def)

lemma run_alone:
  assumes "i < length (snd c)" "past_entry (snd c ! i) \<or> (\<forall>u. entry_held (fst c) u = None)"
  shows "\<exists>n b. snd (run_schedule api (replicate n i) c) = (snd c)[i := Finished b]"
  using assms
proof (induction "steps_left (fst c) (snd c ! i)" arbitrary: c rule: less_induct)
  case less
  show ?case
  proof (cases "\<exists>b. snd c ! i = Finished b")
    case True
    then obtain b where "snd c ! i = Finished b" ..
    moreover have "(snd c)[i := snd c ! i] = snd c" by simp
    ultimately have "snd (run_schedule api (replicate 0 i) c) = (snd c)[i := Finished b]" by simp
    then show ?thesis by blast
  next
    case False
    obtain c' t' where run: "advance api (snd c ! i) (fst c) = (c', t')" by fastforce
    have c: "run_thread api i c = (c', (snd c)[i := t'])" using run less.prems(1) by (simp add: run_thread_def)
    have prog: "steps_left c' t' < steps_left (fst c) (snd c ! i)" "past_entry t' \<or> (\<forall>u. entry_held c' u = None)"
      using advance_progress [OF run less.prems(2)] False by blast+
    have "\<exists>n b. snd (run_schedule api (replicate n i) (c', (snd c)[i := t'])) = (snd c)[i := t', i := Finished b]"
      using less.hyps [of "(c', (snd c)[i := t'])"] prog less.prems(1) by simp
    then obtain n b where "snd (run_schedule api (replicate n i) (run_thread api i c)) = (snd c)[i := Finished b]"
      using c by auto
    then have "snd (run_schedule api (replicate (Suc n) i) c) = (snd c)[i := Finished b]" by simp
    then show ?thesis by blast
  qed
qed

lemma run_schedule_append: "run_schedule api (xs @ ys) c = run_schedule api ys (run_schedule api xs c)"
  by (simp add: run_schedule_def)

lemma entries_ok_schedule: "entries_ok c \<Longrightarrow> entries_ok (run_schedule api sched c)"
  by (induction sched arbitrary: c) (simp_all add: entries_ok_run)

definition unfinished :: "thread list \<Rightarrow> nat" where
  "unfinished ts = length (filter (\<lambda>t. \<forall>b. t \<noteq> Finished b) ts)"

lemma unfinished_simps [simp]:
  "unfinished (ts @ us) = unfinished ts + unfinished us"
  "unfinished (t # ts) = (if \<exists>b. t = Finished b then 0 else 1) + unfinished ts"
  by (simp_all add: unfinished_def)

lemma unfinished_update:
  assumes "i < length ts" "\<forall>b. ts ! i \<noteq> Finished b"
  shows "unfinished (ts[i := Finished b]) < unfinished ts"
proof -
  have "unfinished ts = unfinished (take i ts @ ts ! i # drop (Suc i) ts)"
    by (simp only: id_take_nth_drop [OF assms(1), symmetric])
  then show ?thesis
    using assms(2) by (simp add: upd_conv_take_nth_drop [OF assms(1)])
qed

lemma can_end:
  assumes "entries_ok c"
  shows "\<exists>sched. \<forall>t\<in>set (snd (run_schedule api sched c)). \<exists>b. t = Finished b"
  using assms
proof (induction "unfinished (snd c)" arbitrary: c rule: less_induct)
  case less
  show ?case
  proof (cases "\<forall>t\<in>set (snd c). \<exists>b. t = Finished b")
    case True
    then have "\<forall>t\<in>set (snd (run_schedule api [] c)). \<exists>b. t = Finished b" by simp
    then show ?thesis by blast
  next
    case False
    have "\<exists>i<length (snd c). (\<forall>b. snd c ! i \<noteq> Finished b) \<and> (past_entry (snd c ! i) \<or> (\<forall>u. entry_held (fst c) u = None))"
    proof (cases "\<forall>u. entry_held (fst c) u = None")
      case True
      with False show ?thesis by (auto simp: in_set_conv_nth)
    next
      case False
      with less.prems obtain t u where "t \<in> set (snd c)" "holds_entry (fst c) t u" unfolding entries_ok_def by blast
      then obtain i where "i < length (snd c)" "holds_entry (fst c) (snd c ! i) u" by (auto simp: in_set_conv_nth)
      moreover from this have "past_entry (snd c ! i)" "\<forall>b. snd c ! i \<noteq> Finished b"
        by (auto simp: holds_entry_def past_entry_def split: thread.splits)
      ultimately show ?thesis by blast
    qed
    then obtain i where i: "i < length (snd c)" "\<forall>b. snd c ! i \<noteq> Finished b"
      "past_entry (snd c ! i) \<or> (\<forall>u. entry_held (fst c) u = None)" by blast
    from run_alone [OF i(1,3)] obtain n b where
      n: "snd (run_schedule api (replicate n i) c) = (snd c)[i := Finished b]" by blast
    let ?c = "run_schedule api (replicate n i) c"
    have "unfinished (snd ?c) < unfinished (snd c)" unfolding n by (rule unfinished_update [OF i(1,2)])
    from less.hyps [OF this entries_ok_schedule [OF less.prems]] obtain sched where
      "\<forall>t\<in>set (snd (run_schedule api sched ?c)). \<exists>b. t = Finished b" by blast
    then have "\<forall>t\<in>set (snd (run_schedule api (replicate n i @ sched) c)). \<exists>b. t = Finished b"
      by (simp add: run_schedule_append)
    then show ?thesis by blast
  qed
qed

section \<open>Properties\<close>

text \<open>
  Property C8. The counter is right under every schedule of concurrent additions and removals, as long
  as no two of them are for the same session: it never exceeds the limit and never wraps, and whenever
  all of them have ended it is the number of registered sessions.
\<close>

theorem concurrent_count:
  assumes "state_ok s" "within_limits s" "\<forall>t\<in>set ts. starting s t" "one_thread_each (cds s) ts"
    and run: "run_schedule api sched (shared_of s, ts) = (c, ts')"
  shows "client_count (sv c) \<le> limit_or_max (max_connections (sv c)) \<and>
    ((\<forall>t\<in>set ts'. \<exists>b. t = Finished b) \<longrightarrow>
       unat (client_count (sv c)) = card (dom (connection_map (sv c))))"
proof -
  have ok: "threads_ok (c, ts')" by (rule schedule_invariants [OF assms])
  let ?ph = "phase_of (cds (sv c)) ts'"
  have count: "count_right c ?ph" using ok phases_okD(2) by (simp add: threads_ok_def)
  have "unat (client_count (sv c)) = card (dom (connection_map (sv c)))" if fin: "\<forall>t\<in>set ts'. \<exists>b. t = Finished b"
  proof -
    have "?ph sid = None" for sid using fin by (auto simp: phase_of_def find_None_iff)
    then have "{sid. counted c sid (?ph sid)} = dom (connection_map (sv c))" by auto
    with count show ?thesis by (simp add: count_right_def)
  qed
  with count show ?thesis by (simp add: count_right_def)
qed

text \<open>
  Property C7. When all threads of any schedule have ended, of which no two work on the same session, the
  state is as consistent as after sequential operations, within all limits, with nothing half done, and who is registered follows from
  the answers alone: a client is where it was added if the answer was yes and nowhere if it was no, a
  removed session is nowhere, and nobody else has moved. The condition on the threads is needed:
  \<open>concurrent_reentry_leaks\<close> has two threads of one session.
\<close>

theorem concurrent_consistent:
  assumes "state_ok s" "within_limits s" "\<forall>t\<in>set ts. starting s t" "one_thread_each (cds s) ts"
    and run: "run_schedule api sched (shared_of s, ts) = (c, ts')" and fin: "\<forall>t\<in>set ts'. \<exists>b. t = Finished b"
  shows "state_ok (view c) \<and> within_limits (view c) \<and>
    (\<forall>i<length ts. \<forall>r. ts ! i = AddLoad r \<longrightarrow> sessions_of (view c) (sid_of (cds s) r) =
       (if ts' ! i = Finished True then Some (cd_url (the (cds s r))) else None)) \<and>
    (\<forall>sid. RemoveLookup sid \<in> set ts \<longrightarrow> sessions_of (view c) sid = None) \<and>
    (\<forall>sid. (\<forall>t\<in>set ts. session_of (cds s) t \<noteq> Some sid) \<longrightarrow> sessions_of (view c) sid = sessions_of s sid)"
proof -
  note inv = schedule_invariants [OF assms(1-5)]
  have "phase_of (cds (sv c)) ts' = (\<lambda>_. None)" using fin by (force simp: phase_of_def find_None_iff)
  then have quiet: "phases_ok c (\<lambda>_. None)" using inv(1) by (simp add: threads_ok_def)
  from inv(2) have cds: "cds (sv c) = cds s" and len: "length ts' = length ts"
    and track: "\<And>i k. i < length ts \<Longrightarrow> task_of (ts ! i) = Some k \<Longrightarrow> on_track c k (ts' ! i)"
    and rest: "\<And>sid. \<forall>t\<in>set ts. session_of (cds s) t \<noteq> Some sid \<Longrightarrow> reg c sid = connection_map s sid"
    by (auto simp: tracked_def)
  have answer: "\<exists>b. ts' ! i = Finished b \<and> answered c k b" if "i < length ts" "task_of (ts ! i) = Some k" for i k
    using track [OF that] fin nth_mem [of i ts'] that(1) len by (fastforce simp: on_track_def task_of_def)
  have added: "sessions_of (view c) (sid_of (cds s) r) =
      (if ts' ! i = Finished True then Some (cd_url (the (cds s r))) else None)" if "i < length ts" "ts ! i = AddLoad r" for i r
    using answer [OF that(1), of "Inl r"] that(2) by (auto simp: task_of_def answered_def sessions_of_def cds)
  moreover have "sessions_of (view c) sid = None" if "RemoveLookup sid \<in> set ts" for sid
  proof -
    from that obtain i where "i < length ts" "ts ! i = RemoveLookup sid" by (auto simp: in_set_conv_nth)
    then show ?thesis
      using answer [of i "Inr sid"] by (auto simp: task_of_def answered_def sessions_of_def)
  qed
  ultimately show ?thesis
    using phases_ok_quiet [OF quiet] rest by (auto simp: sessions_of_def cds)
qed

text \<open>
  Property C31. Concurrent additions and removals never lock each other out: whatever has happened so
  far, some continuation of the schedule brings all threads to their end.
\<close>

theorem concurrent_can_end:
  "\<exists>more answers. snd (run_schedule api (sched @ more) (shared_of s, ts)) = map Finished answers"
proof -
  have "entries_ok (shared_of s, ts)" by (simp add: entries_ok_def)
  from can_end [OF entries_ok_schedule [OF this]] show ?thesis by (simp add: run_schedule_append ex_map_conv)
qed

text \<open>Two threads on the example state, one entering and one leaving, step by step in turn.\<close>

definition example_schedule :: "nat list" where
  "example_schedule = [0, 1, 0, 1, 0, 1, 0, 1, 1, 1, 1, 1]"

definition example_threads :: threads where
  "example_threads = run_schedule example_sid_api example_schedule (shared_of example_state, [AddLoad 3, RemoveLookup [1]])"

lemma example_starts:
  "state_ok example_state" "within_limits example_state"
  "\<forall>t\<in>set [AddLoad 3, RemoveLookup [1]]. starting example_state t"
  "one_thread_each (cds example_state) [AddLoad 3, RemoveLookup [1]]"
  "run_schedule example_sid_api example_schedule (shared_of example_state, [AddLoad 3, RemoveLookup [1]]) =
     (fst example_threads, snd example_threads)"
proof -
  show "one_thread_each (cds example_state) [AddLoad 3, RemoveLookup [1]]"
    by (auto simp: one_thread_each_def example_state_sel example_client_def less_Suc_eq)
  show "\<forall>t\<in>set [AddLoad 3, RemoveLookup [1]]. starting example_state t"
    using example_ready(4) by (simp add: starting_def)
  show "state_ok example_state" by (rule example_state_ok)
  have "population (sessions_of example_state) u \<le> Suc (Suc 0)" for u
  proof -
    have "{sid. sessions_of example_state sid = Some u} \<subseteq> {[1], [2]}" by (auto simp: example_sessions split: if_splits)
    from card_mono [OF _ this] show ?thesis by (simp add: population_def)
  qed
  then show "within_limits example_state" by (simp add: within_limits_def example_state_sel word_le_nat_alt)
qed (simp add: example_threads_def)

lemma example_ends: "snd example_threads = [Finished True, Finished True]"
proof -
  have "url_data_map example_state ''w2'' = None" by (simp add: example_defs)
  then show ?thesis
    by (simp add: example_threads_def example_schedule_def run_thread_def shared_defs shared_of_def example_state_sel
      example_client_def Let_def word_le_nat_alt emit_def split: option.split)
qed

theorem concurrent_count_witness:
  "unat (client_count (sv (fst example_threads))) = card (dom (connection_map (sv (fst example_threads))))"
  using concurrent_count [OF example_starts] by (auto simp: example_ends)

theorem concurrent_consistent_witness:
  "state_ok (view (fst example_threads)) \<and> sessions_of (view (fst example_threads)) [1] = None \<and>
   sessions_of (view (fst example_threads)) [4] = Some ''w2''"
proof -
  have "\<forall>t\<in>set (snd example_threads). \<exists>b. t = Finished b" by (auto simp: example_ends)
  from concurrent_consistent [OF example_starts this] show ?thesis
    by (simp add: example_ends example_state_sel example_client_def All_less_Suc)
qed

text \<open>
  The same session entering twice at the same time. Both requests find nothing to remove, both are
  counted, and the second one takes the first one's place in the map; removing the session then gives
  back one of the two. When everything has ended, nobody is registered and the counters of the server
  and of the world stay at one, for good.
\<close>

definition reentry_state :: server_state where
  "reentry_state =
     foldl (\<lambda>s cd. fst (alloc_client cd s)) (state_new (Some 2) (Some 2) 10 [] None None None)
       [example_client 1 ''w1'', example_client 1 ''w1'']"

definition reentry_end :: threads where
  "reentry_end = run_schedule example_sid_api [0, 2, 1, 1, 1, 1, 3, 3, 3, 3, 3, 3, 3, 4, 4, 4, 4, 4, 4, 4, 4]
     (shared_of reentry_state, [RemoveLookup [1], AddLoad 0, RemoveLookup [1], AddLoad 1, RemoveLookup [1]])"

theorem concurrent_reentry_leaks:
  "(\<forall>t\<in>set (snd reentry_end). t = Finished True) \<and> dom (connection_map (view (fst reentry_end))) = {} \<and>
   client_count (view (fst reentry_end)) = 1 \<and>
   map_option get_client_count (url_data_map (view (fst reentry_end)) ''w1'') = Some 1"
  by (simp add: reentry_end_def view_def reentry_state_def run_thread_def shared_defs shared_of_def Let_def
    alloc_client_def state_new_def example_client_def url_data_new_def get_client_count_def
    word_le_nat_alt is_empty_def emit_def)

end
