(* ===== verification/Entrance_Refinement.thy ===== *)
theory Entrance_Refinement
  imports Entrance_Log
begin

text \<open>
  The abstract server: all that it promises about who is in which world. A lobby is a map from sessions
  to worlds, which a session enters if there is room and leaves at any time; the machine of the
  entrance refines it step by step. Beside it, the typing of the references between the machine's
  objects, and what several servers of one cluster guarantee together.
\<close>

section \<open>The lobby\<close>

inductive lobby_step :: "usize option \<Rightarrow> usize option \<Rightarrow> sessions \<Rightarrow> sessions \<Rightarrow> bool" for mc mu where
  lobby_enter: "may_enter mc mu (m(sid := None)) u \<Longrightarrow> lobby_step mc mu m (m(sid \<mapsto> u))"
| lobby_leave: "lobby_step mc mu m (m(sid := None))"
| lobby_stay: "lobby_step mc mu m m"

inductive_cases lobby_stepE: "lobby_step mc mu m m'"

definition lobby_ok :: "usize option \<Rightarrow> usize option \<Rightarrow> sessions \<Rightarrow> bool" where
  "lobby_ok mc mu m \<longleftrightarrow> finite (dom m) \<and> card (dom m) \<le> unat (limit_or_max mc) \<and>
     (\<forall>u. population m u \<le> max 1 (unat (limit_or_max mu)))"

lemma lobby_ok_leave:
  assumes "lobby_ok mc mu m"
  shows "lobby_ok mc mu (m(sid := None))"
proof -
  have fin: "finite (dom m)" using assms by (simp add: lobby_ok_def)
  then have "card (dom (m(sid := None))) \<le> card (dom m)" by (simp add: card_mono)
  moreover have "finite (dom (m(sid := None)))" using fin by simp
  ultimately show ?thesis
    using assms population_del [OF fin, of sid] unfolding lobby_ok_def by (meson order_trans)
qed

lemma lobby_ok_enter:
  assumes ok: "lobby_ok mc mu m" and enter: "may_enter mc mu (m(sid := None)) u"
  shows "lobby_ok mc mu (m(sid \<mapsto> u))"
proof -
  let ?m = "m(sid := None)"
  have okm: "lobby_ok mc mu ?m" by (rule lobby_ok_leave [OF ok])
  then have fin: "finite (dom ?m)" by (simp only: lobby_ok_def)
  have same: "m(sid \<mapsto> u) = ?m(sid \<mapsto> u)" by simp
  have pop: "population (m(sid \<mapsto> u)) v \<le> max 1 (unat (limit_or_max mu))" for v
  proof (cases "v = u")
    case True
    then show ?thesis
      using population_upd [OF fin, of sid u v] enter unfolding same may_enter_def by auto
  next
    case False
    then show ?thesis
      using population_upd [OF fin, of sid u v] okm unfolding same lobby_ok_def by (auto intro: order_trans)
  qed
  have d: "dom (m(sid \<mapsto> u)) = insert sid (dom ?m)" and n: "sid \<notin> dom ?m" by auto
  have c: "card (dom (m(sid \<mapsto> u))) = Suc (card (dom ?m))"
    unfolding d by (rule card_insert_disjoint [OF fin n])
  moreover have "finite (dom (m(sid \<mapsto> u)))" unfolding d using fin by (rule finite.insertI)
  ultimately show ?thesis
    using enter unfolding lobby_ok_def may_enter_def by (intro conjI allI pop) linarith+
qed

interpretation lobby: kept_invariant "lobby_step mc mu" "lobby_ok mc mu" for mc mu
  by unfold_locales (auto elim!: lobby_stepE intro: lobby_ok_leave lobby_ok_enter)

section \<open>Every step of the server is one of the lobby\<close>

lemma same_sessions_sessions: "same_sessions s s' \<Longrightarrow> sessions_of s' = sessions_of s"
  by (simp add: same_sessions_def)

lemma sessions_of_emit [simp]: "sessions_of (emit es s) = sessions_of s"
  by (simp add: sessions_of_def)

lemma lobby_leave_eq: "m' = m(sid := None) \<Longrightarrow> lobby_step mc mu m m'"
  by (simp add: lobby_leave)

lemma lobby_stay_eq: "m' = m \<Longrightarrow> lobby_step mc mu m m'"
  by (simp add: lobby_stay)

lemma server_step_lobby:
  assumes "server_step api m m'" "machine_ok api mc mu m"
  shows "lobby_step mc mu (sessions_of (srv m)) (sessions_of (srv m'))"
  using assms
proof (induction rule: server_step.induct)
  case (opened w h request_host req s sid pl m p headers)
  show ?case by (rule lobby_stay_eq) (simp add: open_peer_def)
next
  case (not_set_up m p pe papi offer m' e)
  then show ?case by (auto simp: enter_setup_cases lobby_stay split: if_splits)
next
  case (entered w m p pe sid pl)
  note D = machine_okD [OF entered.prems]
  show ?case
    using enter_register_spec(1) [OF D(1), of w sid pl p] lobby_enter [of mc mu "sessions_of (srv m)" sid "pl_url pl"]
      lobby_leave [of mc mu "sessions_of (srv m)" sid] D(3,4)
    by (auto split: if_splits)
next
  case (candidate_sent w m h request_host req)
  obtain es where "fst (candidate w h request_host req (srv m)) = emit es (srv m)" using candidate_emits by blast
  then show ?case by (simp add: lobby_stay)
next
  case (ice_changed w m p st)
  then show ?case
    using sessions_of_removed [OF machine_okD(1) [OF ice_changed.prems]]
    by (auto simp: on_ice_state_def lobby_stay lobby_leave split: option.split)
next
  case (peer_changed w m p st')
  note ok = machine_okD(1) [OF peer_changed.prems]
  have emitted: "state_ok (append_access_log cc u hs (srv m)) \<and>
      sessions_of (append_access_log cc u hs (srv m)) = sessions_of (srv m)" for cc u hs
    using append_access_log_emits [of cc u hs "srv m"] emit_same [OF ok] ok by (auto simp: same_sessions_def)
  show ?case
    using sessions_of_removed [OF ok] emitted
    by (auto simp: on_peer_state_def Let_def lobby_stay lobby_leave split: option.split)
next
  case (channel_opened m p d)
  have "same_sessions (srv m) (modify_client r (\<lambda>cd. set_dc cd d) (srv m))" for r
    by (rule modify_client_same [OF machine_okD(1) [OF channel_opened]]) simp_all
  then show ?case
    by (auto simp: on_data_channel_def same_sessions_sessions intro!: lobby_stay_eq split: option.split)
next
  case (message_received w m upgraded d data)
  note ok = machine_okD(1) [OF message_received.prems]
  have emitted: "state_ok (emit es (srv m))" for es
    using emit_same [OF ok] by (simp add: same_sessions_def)
  have "sessions_of s1 = sessions_of (srv m)" if "on_rtc_message w r data (srv m) = (s1, out)" for r s1 out
    using on_rtc_message_safe [OF ok, of r w data] that by (simp add: safe_reply_def same_sessions_sessions)
  then show ?case
    using sessions_of_removed [OF emitted] sessions_of_removed [OF ok]
    by (auto simp: on_message_def Let_def emit_emit lobby_stay_eq lobby_leave_eq split: option.split prod.split outcome.split)
next
  case (nodes_loaded m answer)
  then show ?case using load_node_list_cases [of answer "srv m"] by (auto simp: lobby_stay)
qed

text \<open>
  Property C2. The server implements the lobby: whatever requests, callbacks and messages come in, each of
  its steps lets one session enter a world that has room, lets one session leave, or changes nobody's
  place; so whatever holds of all lobbies that start empty holds of the server.
\<close>

theorem server_refines_lobby:
  assumes reach: "server_reachable api (machine_new (state_new mc mu mr ice l cc cm)) m"
  shows "(lobby_step mc mu)\<^sup>*\<^sup>* Map.empty (sessions_of (srv m)) \<and>
    (\<forall>m'. server_step api m m' \<longrightarrow> lobby_step mc mu (sessions_of (srv m)) (sessions_of (srv m'))) \<and>
    (\<forall>P. P Map.empty \<and> (\<forall>x y. P x \<and> lobby_ok mc mu x \<and> lobby_step mc mu x y \<longrightarrow> P y) \<longrightarrow> P (sessions_of (srv m)))"
proof -
  let ?m0 = "machine_new (state_new mc mu mr ice l cc cm)"
  have start: "sessions_of (srv ?m0) = Map.empty" by (simp add: machine_new_def)
  have more: "(lobby_step mc mu)\<^sup>*\<^sup>* Map.empty (sessions_of (srv n'))"
    if "server_step api n n'" "machine_ok api mc mu n" "(lobby_step mc mu)\<^sup>*\<^sup>* Map.empty (sessions_of (srv n))" for n n'
    using that(3) server_step_lobby [OF that(1,2)] by simp
  have run: "(lobby_step mc mu)\<^sup>*\<^sup>* Map.empty (sessions_of (srv m))"
    by (rule entrance.kept_with [where P = "\<lambda>m. (lobby_step mc mu)\<^sup>*\<^sup>* Map.empty (sessions_of (srv m))",
          OF _ reach [unfolded server_reachable_def] machine_ok_new])
      (erule (2) more, simp add: start)
  have "lobby_ok mc mu Map.empty" by (simp add: lobby_ok_def population_def)
  then have "P (sessions_of (srv m))"
    if "P Map.empty" "\<forall>x y. P x \<and> lobby_ok mc mu x \<and> lobby_step mc mu x y \<longrightarrow> P y" for P
    using lobby.kept_with [where P = P, OF _ run] that by blast
  with run show ?thesis using server_step_lobby [OF _ reachable_ok [OF reach]] by blast
qed

theorem server_refines_lobby_witness:
  "(lobby_step (Some 3) (Some 2))\<^sup>*\<^sup>* Map.empty (sessions_of (srv example_reentered))"
  using server_refines_lobby [OF example_reachable(2) [unfolded example_start_def]] by blast

section \<open>References\<close>

text \<open>What a data channel holds: a client of its own session, and a connection made for that session.\<close>

definition channels_ok :: "machine \<Rightarrow> bool" where
  "channels_ok m \<longleftrightarrow> (\<forall>d ch. channels m d = Some ch \<longrightarrow>
     (\<exists>p u. identities (srv m) (ch_client ch) = Some (ch_session ch, p, u)) \<and>
     (\<exists>pe. peers m (ch_pc ch) = Some pe \<and> pe_session pe = ch_session ch))"

text \<open>Objects stay: no step takes a client out of the store or a connection away, or gives it to another session.\<close>

definition grows :: "machine \<Rightarrow> machine \<Rightarrow> bool" where
  "grows m m' \<longleftrightarrow> (\<forall>r i. identities (srv m) r = Some i \<longrightarrow> identities (srv m') r = Some i) \<and>
     (\<forall>p pe. peers m p = Some pe \<longrightarrow> (\<exists>pe'. peers m' p = Some pe' \<and> pe_session pe' = pe_session pe))"

lemma grows_same: "identities (srv m') = identities (srv m) \<Longrightarrow> peers m' = peers m \<Longrightarrow> grows m m'"
  by (simp add: grows_def)

lemma channels_grow: "channels_ok m \<Longrightarrow> grows m m' \<Longrightarrow> channels m' = channels m \<Longrightarrow> channels_ok m'"
  unfolding channels_ok_def grows_def by metis

lemma add_connection_cds [simp]: "cds (fst (add_connection r s)) = cds s"
  by (auto simp: add_connection_def Let_def split: option.split prod.split)

lemma enter_register_cds:
  assumes ok: "state_ok (srv m)"
  shows "cds (srv (fst (enter_register w sid pl p m))) =
    (cds (srv m))(next_ref (srv m) \<mapsto> client_data_new sid p (pl_url pl))"
proof -
  define s1 where "s1 = remove_connection (w_sid w) sid (srv m)"
  define s2 where "s2 = fst (alloc_client (client_data_new sid p (pl_url pl)) s1)"
  have alloc: "alloc_client (client_data_new sid p (pl_url pl)) s1 = (s2, next_ref s1)" by (simp add: s2_def prod_eq_iff)
  have "cds s1 = cds (srv m)" "next_ref s1 = next_ref (srv m)" using ok by (simp_all add: s1_def)
  then have "cds s2 = (cds (srv m))(next_ref (srv m) \<mapsto> client_data_new sid p (pl_url pl))" by (simp add: s2_def)
  then show ?thesis
    by (simp add: enter_register_def s1_def [symmetric] alloc Let_def case_prod_unfold)
qed

lemma same_identities: "same_sessions s s' \<Longrightarrow> identities s' = identities s"
  by (simp add: same_sessions_def)

lemma identities_removed: "state_ok s \<Longrightarrow> identities (remove_connection api sid s) = identities s"
  by (rule identities_cds) simp

lemma identities_emit [simp]: "identities (emit es s) = identities s"
  by (rule identities_cds) simp

lemma channels_opened:
  assumes m: "machine_ok api mc mu m" and ch: "channels_ok m"
  shows "channels_ok (on_data_channel p d m)"
proof (cases "peers m p")
  case None
  with ch show ?thesis by (simp add: on_data_channel_def)
next
  case (Some pe)
  show ?thesis
  proof (cases "connection_map (srv m) (pe_session pe)")
    case None
    with Some ch show ?thesis by (simp add: on_data_channel_def get_connection_def)
  next
    case reg: (Some r)
    have "identities (modify_client r (\<lambda>cd. set_dc cd d) (srv m)) = identities (srv m)"
      by (rule same_identities, rule modify_client_same [OF machine_okD(1) [OF m]]) simp_all
    moreover have "\<exists>q u. identities (srv m) r = Some (pe_session pe, q, u)"
      using machine_okD(5) [OF m] reg unfolding entered_by_peer_def by blast
    ultimately show ?thesis
      using ch Some reg by (auto simp: on_data_channel_def get_connection_def channels_ok_def)
  qed
qed

lemma server_step_channels:
  assumes "server_step api m m'" "machine_ok api mc mu m" "channels_ok m"
  shows "channels_ok m'"
  using assms
proof (induction rule: server_step.induct)
  case (opened w h request_host req s sid pl m p headers)
  then show ?case by (intro channels_grow [OF opened.prems(2)]) (auto simp: grows_def open_peer_def)
next
  case (not_set_up m p pe papi offer m' e)
  then show ?case
    by (intro channels_grow [OF not_set_up.prems(2)] grows_same) (auto simp: enter_setup_cases split: if_splits)
next
  case (entered w m p pe sid pl)
  note ok = machine_okD(1) [OF entered.prems(1)]
  have "grows m (fst (enter_register w sid pl p m))"
    using state_okD(7) [OF ok] by (force simp: grows_def identities_def enter_register_cds [OF ok] enter_register_spec(3) [OF ok])
  then show ?case by (rule channels_grow [OF entered.prems(2)]) (rule enter_register_spec(4) [OF ok])
next
  case (candidate_sent w m h request_host req)
  obtain es where "fst (candidate w h request_host req (srv m)) = emit es (srv m)" using candidate_emits by blast
  then show ?case by (intro channels_grow [OF candidate_sent.prems(2)] grows_same) simp_all
next
  case (ice_changed w m p st)
  then show ?case
    by (intro channels_grow [OF ice_changed.prems(2)] grows_same)
      (simp_all add: on_ice_state_def identities_removed machine_okD(1) split: option.split)
next
  case (peer_changed w m p st')
  note ok = machine_okD(1) [OF peer_changed.prems(1)]
  have "cds (append_access_log cc u hs (srv m)) = cds (srv m)" for cc u hs
    using append_access_log_emits [of cc u hs "srv m"] by auto
  then have "identities (append_access_log cc u hs (srv m)) = identities (srv m)" for cc u hs
    by (rule identities_cds)
  then have "grows m (on_peer_state w p st' m)" "channels (on_peer_state w p st' m) = channels m"
    by (auto simp: grows_def on_peer_state_def Let_def identities_removed [OF ok] split: option.split)
  then show ?case by (rule channels_grow [OF peer_changed.prems(2)])
next
  case (channel_opened m p d)
  then show ?case using channels_opened by blast
next
  case (message_received w m upgraded d data)
  note ok = machine_okD(1) [OF message_received.prems(1)]
  have emitted: "state_ok (emit es (srv m))" for es
    using emit_same [OF ok] by (simp add: same_sessions_def)
  have "identities s1 = identities (srv m)" if "on_rtc_message w r data (srv m) = (s1, out)" for r s1 out
    using on_rtc_message_safe [OF ok, of r w data] that by (simp add: safe_reply_def same_identities)
  then show ?case
    by (intro channels_grow [OF message_received.prems(2)] grows_same)
      (auto simp: on_message_def Let_def emit_emit identities_removed [OF emitted] identities_removed [OF ok]
        split: option.split prod.split outcome.split)
next
  case (nodes_loaded m answer)
  then show ?case
    using load_node_list_cases [of answer "srv m"]
    by (intro channels_grow [OF nodes_loaded.prems(2)] grows_same) auto
qed

text \<open>
  Property C17. No reference of the server dangles, and each is of the right session: in every reachable
  state the entry of a session leads to a client of that session, a world's list to clients of that
  world, and a data channel to a client of the session that its connection was made for. A message is
  therefore always handled for the session that opened the channel it came on.
\<close>

theorem references_are_typed:
  assumes reach: "server_reachable api (machine_new (state_new mc mu mr ice l cc cm)) m"
  shows "(\<forall>sid r. connection_map (srv m) sid = Some r \<longrightarrow>
      (\<exists>cd. cds (srv m) r = Some cd \<and> cd_session_id cd = sid)) \<and>
    (\<forall>u ud r. url_data_map (srv m) u = Some ud \<and> r \<in> set (ud_clients ud) \<longrightarrow>
      (\<exists>cd. cds (srv m) r = Some cd \<and> cd_url cd = u)) \<and>
    (\<forall>d ch. channels m d = Some ch \<longrightarrow>
      (\<exists>cd pe. cds (srv m) (ch_client ch) = Some cd \<and> cd_session_id cd = ch_session ch \<and>
         peers m (ch_pc ch) = Some pe \<and> pe_session pe = ch_session ch))"
proof -
  note ok = machine_okD(1) [OF reachable_ok [OF reach]]
  have "channels_ok (machine_new (state_new mc mu mr ice l cc cm))" by (simp add: channels_ok_def machine_new_def)
  then have "channels_ok m"
    using entrance.kept_with [where P = channels_ok, OF _ reach [unfolded server_reachable_def] machine_ok_new]
      server_step_channels by blast
  then have "\<exists>cd pe. cds (srv m) (ch_client ch) = Some cd \<and> cd_session_id cd = ch_session ch \<and>
         peers m (ch_pc ch) = Some pe \<and> pe_session pe = ch_session ch" if "channels m d = Some ch" for d ch
    using that by (force simp: channels_ok_def identities_def)
  moreover have "\<exists>cd. cds (srv m) r = Some cd \<and> cd_url cd = u"
    if "url_data_map (srv m) u = Some ud" "r \<in> set (ud_clients ud)" for u ud r
  proof -
    from that state_okD(6) [OF ok, of r u] obtain sid where "connection_map (srv m) sid = Some r"
      "cd_url (the (cds (srv m) r)) = u" by blast
    with state_okD(3) [OF ok this(1)] show ?thesis by auto
  qed
  ultimately show ?thesis using state_okD(3) [OF ok] by blast
qed

theorem references_are_typed_witness:
  "\<exists>r cd. connection_map (srv example_entered) [65] = Some r \<and> cds (srv example_entered) r = Some cd \<and>
     cd_session_id cd = [65]"
proof -
  have "sessions_of (srv example_entered) [65] \<noteq> None" by (simp add: example_sessions_entered)
  then obtain r where "connection_map (srv example_entered) [65] = Some r" by (auto simp: sessions_of_def)
  with references_are_typed [OF example_reachable(1) [unfolded example_start_def]] show ?thesis by blast
qed

section \<open>Several servers\<close>

text \<open>
  A server of a cluster whose node list does not change: before the list is loaded its client is the
  first of these, afterwards the second.
\<close>

definition list_clients :: "string \<Rightarrow> string \<Rightarrow> node_list_data \<Rightarrow> client set" where
  "list_clients n h data = {client_new n h, set_node_list (client_new n h) data}"

text \<open>
  The steps of a server as long as it has one of these clients: the checks of an entry are made with one
  of them, and all other steps end with one of them.
\<close>

inductive steady_step :: "sid_api \<Rightarrow> client set \<Rightarrow> machine \<Rightarrow> machine \<Rightarrow> bool" for api :: sid_api and C :: "client set" where
  steady_opened: "w_sid w = api \<Longrightarrow> enter_check w h request_host req s = Returns (Ok (sid, pl)) \<Longrightarrow>
    cluster_client s \<in> Some ` C \<Longrightarrow> peers m p = None \<Longrightarrow> steady_step api C m (open_peer p sid pl headers req m)"
| steady_other: "server_step api m m' \<Longrightarrow> dom (peers m') = dom (peers m) \<Longrightarrow> cluster_client (srv m') \<in> Some ` C \<Longrightarrow>
    steady_step api C m m'"

lemma steady_is_step: "steady_step api C m m' \<Longrightarrow> server_step api m m'"
  by (induction rule: steady_step.induct) (auto intro: server_step.opened)

lemma steady_reachable: "(steady_step api C)\<^sup>*\<^sup>* m m' \<Longrightarrow> server_reachable api m m'"
  unfolding server_reachable_def by (rule mono_rtranclp [rule_format, OF steady_is_step])

text \<open>Every connection is for a world that one of the clients says is this server's.\<close>

definition worlds_mine :: "client set \<Rightarrow> machine \<Rightarrow> bool" where
  "worlds_mine C m \<longleftrightarrow> (\<forall>p pe. peers m p = Some pe \<longrightarrow> (\<exists>c \<in> C. is_my_work c (pe_url pe)))"

lemma worlds_mine_step:
  assumes "steady_step api C m m'" "worlds_mine C m"
  shows "worlds_mine C m'"
  using assms
proof (induction rule: steady_step.induct)
  case (steady_opened w h request_host req s sid pl m p headers)
  from steady_opened(3) obtain c where "c \<in> C" "cluster_client s = Some c" by auto
  with enter_check_Ok(5) [OF steady_opened(2)] have "\<exists>c \<in> C. is_my_work c (pl_url pl)" by blast
  with steady_opened(5) show ?case by (simp add: worlds_mine_def open_peer_def)
next
  case (steady_other m m')
  show ?case
    unfolding worlds_mine_def
  proof (intro allI impI)
    fix p pe'
    assume p: "peers m' p = Some pe'"
    with steady_other(2) obtain pe where pe: "peers m p = Some pe" by (metis domD domI)
    from server_step_peer [OF steady_other(1) pe] p have "pe_url pe' = pe_url pe"
      by (simp add: peer_kept_def same_peer_def)
    with steady_other(4) pe show "\<exists>c \<in> C. is_my_work c (pe_url pe')" by (simp add: worlds_mine_def)
  qed
qed

interpretation steady: kept_invariant "steady_step api C" "worlds_mine C" for api C
  by unfold_locales (rule worlds_mine_step)

lemma steady_worlds:
  assumes run: "(steady_step api (list_clients n h data))\<^sup>*\<^sup>* (machine_new (state_new mc mu mr ice l cc cm)) m"
    and sid: "sessions_of (srv m) sid = Some u"
  shows "is_my_work (set_node_list (client_new n h) data) u"
proof -
  note D = machine_okD [OF reachable_ok [OF steady_reachable [OF run]]]
  from sid obtain r where r: "connection_map (srv m) sid = Some r" "cd_url (the (cds (srv m) r)) = u"
    by (auto simp: sessions_of_def)
  with D(5) obtain p u' pe where pe: "identities (srv m) r = Some (sid, p, u')" "peers m p = Some pe" "pe_url pe = u'"
    unfolding entered_by_peer_def by blast
  with r have "pe_url pe = u" by (auto simp: identities_def)
  moreover have "worlds_mine (list_clients n h data) (machine_new (state_new mc mu mr ice l cc cm))"
    by (simp add: worlds_mine_def machine_new_def)
  from steady.kept_reachable [OF run this] have "\<exists>c \<in> list_clients n h data. is_my_work c (pe_url pe)"
    using pe(2) by (auto simp: worlds_mine_def)
  ultimately show ?thesis by (auto simp: list_clients_def client_defs)
qed

text \<open>
  Property C16. A world is on one server of its cluster: whatever two servers of different names have done since
  their start, as long as the node list that both load does not change, no session of one is in a world
  that a session of the other is in. Each world with a session is one that its server works on, and the other
  server names that one as its worker.
\<close>

theorem world_on_one_server:
  assumes run1: "(steady_step api1 (list_clients n1 h data))\<^sup>*\<^sup>*
      (machine_new (state_new mc1 mu1 mr1 ice1 l1 (Some (client_new n1 h)) cm1)) m1"
    and run2: "(steady_step api2 (list_clients n2 h data))\<^sup>*\<^sup>*
      (machine_new (state_new mc2 mu2 mr2 ice2 l2 (Some (client_new n2 h)) cm2)) m2"
    and names: "n1 \<noteq> n2"
    and in1: "sessions_of (srv m1) sid1 = Some u1" and in2: "sessions_of (srv m2) sid2 = Some u2"
  shows "u1 \<noteq> u2 \<and> get_worker (set_node_list (client_new n1 h) data) u1 = Me \<and>
    get_worker (set_node_list (client_new n2 h) data) u1 = Other n1"
  using steady_worlds [OF run1 in1] steady_worlds [OF run2 in2] names
  by (auto simp: client_defs split: option.splits if_splits)

text \<open>Two servers with the same list of two nodes, and a world of each.\<close>

definition example_nodes :: node_list_data where
  "example_nodes = \<lparr>nodes = [\<lparr>host = ''a''\<rparr>, \<lparr>host = ''b''\<rparr>]\<rparr>"

definition example_server :: "string \<Rightarrow> machine" where
  "example_server n = machine_new (state_new (Some 3) (Some 2) 10 [] None (Some (client_new n ''c'')) None)"

definition example_request_for :: "string \<Rightarrow> signed_request" where
  "example_request_for u = \<lparr>sr_session_id = ''A'', sr_sign = ([65], [0]), sr_payload = u\<rparr>"

lemma example_hashes:
  "to_hash ''https://a.b/w'' = 14551061054255458100" "to_hash ''https://a.b/u'' = 6906503255556874061"
  by (simp_all add: to_hash_def siphash13_def as_bytes_def sip_blocks.simps rotate_left_u64_def)

lemma example_workers:
  "get_worker (set_node_list (client_new ''a'' ''c'') example_nodes) ''https://a.b/w'' = Me"
  "get_worker (set_node_list (client_new ''b'' ''c'') example_nodes) ''https://a.b/u'' = Me"
proof -
  have m: "(14551061054255458100::nat) mod Suc (Suc 0) = 0" "(6906503255556874061::nat) mod Suc (Suc 0) = 1"
    unfolding Suc_1 [unfolded One_nat_def] by simp_all
  show "get_worker (set_node_list (client_new ''a'' ''c'') example_nodes) ''https://a.b/w'' = Me"
    "get_worker (set_node_list (client_new ''b'' ''c'') example_nodes) ''https://a.b/u'' = Me"
    by (simp_all add: client_defs example_nodes_def example_hashes m)
qed

lemma example_url_u: "normalize_url example_url_parser ''https://a.b/u'' = ''https://a.b/u''"
proof -
  have "trim ''https://a.b/u'' = ''https://a.b/u''"
    by (rule trim_plain, simp add: white_space_def suffix_to_prefix, fastforce)
  then show ?thesis
    by (simp add: normalize_url_def example_url_parser_def Let_def ends_with_char_def)
qed

text \<open>The server loads the list and lets the session into its world.\<close>

lemma example_server_run:
  assumes u: "normalize_url example_url_parser u = u" "u \<noteq> []" "length u \<le> 4096" "CHR 0x0D \<notin> set u" "CHR 0x0A \<notin> set u"
    and me: "get_worker (set_node_list (client_new n ''c'') example_nodes) u = Me"
  shows "\<exists>m. (steady_step example_sid_api (list_clients n ''c'' example_nodes))\<^sup>*\<^sup>* (example_server n) m \<and>
    sessions_of (srv m) = [[65] \<mapsto> u]"
proof -
  let ?C = "list_clients n ''c'' example_nodes" and ?c = "set_node_list (client_new n ''c'') example_nodes"
  let ?pl = "\<lparr>pl_url = u, pl_sdp = \<lparr>sdp_type = ''offer'', sdp = ''v=0''\<rparr>, pl_raw_url = u\<rparr>"
  define m1 where "m1 = (example_server n)\<lparr>srv := fst (load_node_list (Some example_nodes) (srv (example_server n)))\<rparr>"
  define m2 where "m2 = open_peer 1 [65] ?pl (\<lambda>_. None) (example_request_for u) m1"
  define m3 where "m3 = fst (enter_register example_world [65] ?pl 1 m2)"
  have api: "w_sid example_world = example_sid_api" by (simp add: example_world_def)
  have c: "Some ?c \<in> Some ` ?C" by (simp add: list_clients_def)
  have "cluster_client (srv (example_server n)) = Some (client_new n ''c'')"
    by (simp add: example_server_def machine_new_def state_new_def)
  then have s1: "srv m1 = (srv (example_server n))\<lparr>cluster_client := Some ?c\<rparr>"
    by (simp add: m1_def load_node_list_def client_defs)
  then have ok: "state_ok (srv m1)" and none: "sessions_of (srv m1) = Map.empty" "peers m1 = Map.empty"
    by (simp_all add: m1_def example_server_def machine_new_def)
  have max: "max_connections (srv m1) = Some 3" "max_connections_by_url (srv m1) = Some 2"
    by (simp_all add: s1 example_server_def machine_new_def state_new_def)
  have room: "may_enter (Some 3) (Some 2) Map.empty u" by (simp add: may_enter_def population_def)
  then have "is_new_connection_available u (srv m1)" by (simp add: available_may_enter [OF ok] max none)
  then have check: "enter_check example_world example_http ''c'' (example_request_for u) (srv m1) = Returns (Ok ([65], ?pl))"
    using u me by (simp add: enter_check_def example_world_def example_http_def example_request_for_def verify_def s1
      example_sid_api_def example_sid example_enter_json_def enter_normalize_def MAX_URL_LEN_def Let_def redirect_if_needed_def)
  have "steady_step example_sid_api ?C (example_server n) m1"
  proof (rule steady_other)
    show "server_step example_sid_api (example_server n) m1" unfolding m1_def by (rule server_step.nodes_loaded)
  qed (simp_all add: s1 c, simp add: m1_def)
  moreover have "steady_step example_sid_api ?C m1 m2"
    unfolding m2_def by (rule steady_opened [OF api check]) (simp_all add: s1 c none)
  moreover have s2: "srv m2 = srv m1" by (simp add: m2_def open_peer_def)
  have "steady_step example_sid_api ?C m2 m3"
  proof (rule steady_other)
    show "server_step example_sid_api m2 m3"
      unfolding m3_def by (rule server_step.entered [OF api]) (simp_all add: m2_def open_peer_def, simp_all)
    show "cluster_client (srv m3) \<in> Some ` ?C"
      using enter_register_spec(5) [of m2] ok c by (simp add: m3_def s2) (simp add: s1)
  qed (simp add: m3_def)
  ultimately have "(steady_step example_sid_api ?C)\<^sup>*\<^sup>* (example_server n) m3"
    by (meson rtranclp.rtrancl_into_rtrancl r_into_rtranclp)
  moreover have "sessions_of (srv m3) = [[65] \<mapsto> u]"
    using enter_register_spec(1) [of m2 example_world "[65]" ?pl 1] ok room by (simp add: m3_def s2 none max)
  ultimately show ?thesis by blast
qed

theorem world_on_one_server_witness:
  "\<exists>m1 m2. (steady_step example_sid_api (list_clients ''a'' ''c'' example_nodes))\<^sup>*\<^sup>* (example_server ''a'') m1 \<and>
     (steady_step example_sid_api (list_clients ''b'' ''c'' example_nodes))\<^sup>*\<^sup>* (example_server ''b'') m2 \<and>
     sessions_of (srv m1) = [[65] \<mapsto> ''https://a.b/w''] \<and> sessions_of (srv m2) = [[65] \<mapsto> ''https://a.b/u''] \<and>
     get_worker (set_node_list (client_new ''b'' ''c'') example_nodes) ''https://a.b/w'' = Other ''a''"
proof -
  obtain m1 where m1: "(steady_step example_sid_api (list_clients ''a'' ''c'' example_nodes))\<^sup>*\<^sup>* (example_server ''a'') m1"
    "sessions_of (srv m1) = [[65] \<mapsto> ''https://a.b/w'']"
    using example_server_run [OF example_url _ _ _ _ example_workers(1)] by auto
  obtain m2 where m2: "(steady_step example_sid_api (list_clients ''b'' ''c'' example_nodes))\<^sup>*\<^sup>* (example_server ''b'') m2"
    "sessions_of (srv m2) = [[65] \<mapsto> ''https://a.b/u'']"
    using example_server_run [OF example_url_u _ _ _ _ example_workers(2)] by auto
  have "get_worker (set_node_list (client_new ''b'' ''c'') example_nodes) ''https://a.b/w'' = Other ''a''"
    using world_on_one_server [OF m1(1) [unfolded example_server_def] m2(1) [unfolded example_server_def], of "[65]" _ "[65]"]
      m1(2) m2(2) by simp
  with m1 m2 show ?thesis by blast
qed

end
