(* ===== verification/World_Threads.thy ===== *)
theory World_Threads
  imports Url_Data Kept_Invariant
begin

text \<open>
  The operations of one world (\<open>hubserv/src/state/url_data.rs\<close>) as threads, cut at their atomic steps: the
  refresh of the routing information, a client that joins, a session that leaves. Server_Threads has the
  threads of the whole server, without the refresh; here it runs beside the others, and clients
  report their routing information all the time. The clock may show any time whenever it is read.
\<close>

section \<open>The atomic steps\<close>

text \<open>
  \<open>update_routing_info_if_needed\<close>: the clock is read, then the time of the last refresh, which is
  exchanged; then the clients are copied, their information read one by one, and the result written.
\<close>

datatype refresh =
    RefreshStart
  | RefreshTimed int
  | RefreshLoaded int int
  | RefreshWon
  | RefreshReading "cd_ref list" "routing_info list"
  | RefreshDone bool

fun refresh_advance :: "cd_store \<Rightarrow> int \<Rightarrow> url_data \<Rightarrow> refresh \<Rightarrow> url_data \<times> refresh" where
  "refresh_advance cds clk ud RefreshStart = (ud, RefreshTimed clk)"
| "refresh_advance cds clk ud (RefreshTimed now) =
     (ud, if now - ud_routing_info_updated ud < ROUTING_INFO_UPDATE_INTERVAL_SECONDS then RefreshDone False
          else RefreshLoaded now (ud_routing_info_updated ud))"
| "refresh_advance cds clk ud (RefreshLoaded now old) =
     (if ud_routing_info_updated ud = old then (ud\<lparr>ud_routing_info_updated := now\<rparr>, RefreshWon)
      else (ud, RefreshDone False))"
| "refresh_advance cds clk ud RefreshWon = (ud, RefreshReading (take ROUTING_INFO_MAX (ud_clients ud)) [])"
| "refresh_advance cds clk ud (RefreshReading (r # rs) relation) =
     (ud, RefreshReading rs (case cd_get_routing_info (the (cds r)) of None \<Rightarrow> relation | Some ri \<Rightarrow> relation @ [ri]))"
| "refresh_advance cds clk ud (RefreshReading [] relation) =
     (ud\<lparr>ud_routing_info := tracker_info relation\<rparr>, RefreshDone True)"
| "refresh_advance cds clk ud (RefreshDone b) = (ud, RefreshDone b)"

text \<open>\<open>add_connection\<close>, with the loop around its \<open>compare_exchange\<close>.\<close>

datatype joining = JoinStart cd_ref | JoinLoaded cd_ref u64 | JoinCounted cd_ref | JoinDone bool

fun join_advance :: "usize option \<Rightarrow> url_data \<Rightarrow> joining \<Rightarrow> url_data \<times> joining" where
  "join_advance m ud (JoinStart r) =
     (ud, if limit_or_max m \<le> ud_client_count ud then JoinDone False else JoinLoaded r (ud_client_count ud))"
| "join_advance m ud (JoinLoaded r c) =
     (if ud_client_count ud = c then (ud\<lparr>ud_client_count := c + 1\<rparr>, JoinCounted r) else (ud, JoinStart r))"
| "join_advance m ud (JoinCounted r) = (ud\<lparr>ud_clients := ud_clients ud @ [r]\<rparr>, JoinDone True)"
| "join_advance m ud (JoinDone b) = (ud, JoinDone b)"

text \<open>\<open>remove_connection\<close>: the counter, the list, the routing information.\<close>

datatype leaving = LeaveStart session_id | LeaveCounted session_id | LeaveListed session_id | LeaveDone

fun leave_advance :: "sid_api \<Rightarrow> cd_store \<Rightarrow> url_data \<Rightarrow> leaving \<Rightarrow> url_data \<times> leaving" where
  "leave_advance api cds ud (LeaveStart sid) = (ud\<lparr>ud_client_count := ud_client_count ud - 1\<rparr>, LeaveCounted sid)"
| "leave_advance api cds ud (LeaveCounted sid) =
     (ud\<lparr>ud_clients := filter (\<lambda>v. cd_session_id (the (cds v)) \<noteq> sid) (ud_clients ud)\<rparr>, LeaveListed sid)"
| "leave_advance api cds ud (LeaveListed sid) =
     (ud\<lparr>ud_routing_info := retain_relations
           (\<lambda>v. case ri_session_id v of None \<Rightarrow> True | Some i \<Rightarrow> \<not> sid_eq_slice api sid i) (ud_routing_info ud)\<rparr>, LeaveDone)"
| "leave_advance api cds ud LeaveDone = (ud, LeaveDone)"

section \<open>Threads\<close>

datatype world_thread = Refreshing refresh | Joining joining | Leaving leaving

definition world_advance ::
  "sid_api \<Rightarrow> usize option \<Rightarrow> cd_store \<Rightarrow> int \<Rightarrow> url_data \<Rightarrow> world_thread \<Rightarrow> url_data \<times> world_thread" where
  "world_advance api m cds clk ud t =
     (case t of
        Refreshing p \<Rightarrow> map_prod id Refreshing (refresh_advance cds clk ud p)
      | Joining p \<Rightarrow> map_prod id Joining (join_advance m ud p)
      | Leaving p \<Rightarrow> map_prod id Leaving (leave_advance api cds ud p))"

text \<open>
  A world in use: its data, the clients, the threads; and as history the times of its refreshes and all
  that clients have reported.
\<close>

record world_run =
  wr_world :: url_data
  wr_clients :: cd_store
  wr_threads :: "world_thread list"
  wr_refreshes :: "int list"
  wr_reports :: "routing_info list"

text \<open>A refresh that has been given its turn by the exchange.\<close>

definition refresh_admitted :: "world_thread \<Rightarrow> world_thread \<Rightarrow> int option" where
  "refresh_admitted t t' =
     (case (t, t') of (Refreshing (RefreshLoaded now old), Refreshing RefreshWon) \<Rightarrow> Some now | _ \<Rightarrow> None)"

definition run_thread :: "sid_api \<Rightarrow> usize option \<Rightarrow> nat \<Rightarrow> int \<Rightarrow> world_run \<Rightarrow> world_run" where
  "run_thread api m i clk s =
     (case world_advance api m (wr_clients s) clk (wr_world s) (wr_threads s ! i) of
        (ud, t) \<Rightarrow>
          s\<lparr>wr_world := ud, wr_threads := (wr_threads s)[i := t],
            wr_refreshes := wr_refreshes s @
              (case refresh_admitted (wr_threads s ! i) t of None \<Rightarrow> [] | Some now \<Rightarrow> [now])\<rparr>)"

definition report :: "cd_ref \<Rightarrow> routing_info \<Rightarrow> world_run \<Rightarrow> world_run" where
  "report r ri s =
     (case wr_clients s r of
        None \<Rightarrow> s
      | Some cd \<Rightarrow>
          let cd' = set_routing_info cd ri
          in s\<lparr>wr_clients := (wr_clients s)(r \<mapsto> cd'),
               wr_reports := wr_reports s @ (case cd_get_routing_info cd' of None \<Rightarrow> [] | Some ri \<Rightarrow> [ri])\<rparr>)"

inductive world_step :: "sid_api \<Rightarrow> usize option \<Rightarrow> world_run \<Rightarrow> world_run \<Rightarrow> bool" for api m where
  thread: "i < length (wr_threads s) \<Longrightarrow> world_step api m s (run_thread api m i clk s)"
| start_refresh: "world_step api m s (s\<lparr>wr_threads := wr_threads s @ [Refreshing RefreshStart]\<rparr>)"
| start_join: "wr_clients s r \<noteq> None \<Longrightarrow> world_step api m s (s\<lparr>wr_threads := wr_threads s @ [Joining (JoinStart r)]\<rparr>)"
| start_leave: "world_step api m s (s\<lparr>wr_threads := wr_threads s @ [Leaving (LeaveStart sid)]\<rparr>)"
| report: "world_step api m s (report r ri s)"
| connect: "wr_clients s r = None \<Longrightarrow> world_step api m s (s\<lparr>wr_clients := (wr_clients s)(r \<mapsto> client_data_new sid p u)\<rparr>)"

text \<open>A world begins with its first client, who has reported nothing.\<close>

definition world_start :: "cd_ref \<Rightarrow> session_id \<Rightarrow> pc \<Rightarrow> string \<Rightarrow> world_run" where
  "world_start r sid p u =
     \<lparr>wr_world = url_data_new r, wr_clients = [r \<mapsto> client_data_new sid p u], wr_threads = [], wr_refreshes = [], wr_reports = []\<rparr>"

section \<open>The invariant\<close>

text \<open>Refreshes at least five seconds apart, the first of them five seconds after the epoch.\<close>

definition spaced :: "int list \<Rightarrow> bool" where
  "spaced ts \<longleftrightarrow> sorted_wrt (\<lambda>a b. a + 5 \<le> b) (0 # ts)"

lemma spaced_append: "spaced (ts @ [t]) \<longleftrightarrow> spaced ts \<and> (\<forall>x\<in>set (0 # ts). x + 5 \<le> t)"
  by (auto simp: spaced_def sorted_wrt_append)

lemma spaced_last: "spaced ts \<Longrightarrow> t \<in> set (0 # ts) \<Longrightarrow> t \<le> last (0 # ts)"
  by (induction ts rule: rev_induct) (fastforce simp: spaced_append)+

lemma spaced_snoc: "spaced ts \<Longrightarrow> last (0 # ts) + 5 \<le> t \<Longrightarrow> spaced (ts @ [t])"
  using spaced_last [of ts] unfolding spaced_append by fastforce

lemma spaced_length: "spaced ts \<Longrightarrow> 5 * int (length ts) \<le> last (0 # ts)"
proof (induction ts rule: rev_induct)
  case (snoc t ts)
  then have "5 * int (length ts) \<le> last (0 # ts)" "last (0 # ts) + 5 \<le> t"
    using last_in_set [of "0 # ts"] by (auto simp: spaced_append simp del: last.simps)
  then show ?case by simp
qed simp

text \<open>What a thread holds: references to clients, and reports that were made.\<close>

definition thread_ok :: "cd_store \<Rightarrow> routing_info set \<Rightarrow> world_thread \<Rightarrow> bool" where
  "thread_ok cds seen t =
     (case t of
        Refreshing (RefreshLoaded now old) \<Rightarrow> old + 5 \<le> now
      | Refreshing (RefreshReading rs relation) \<Rightarrow>
          set rs \<subseteq> dom cds \<and> set relation \<subseteq> seen \<and> length rs + length relation \<le> 1000
      | Joining (JoinStart r) \<Rightarrow> r \<in> dom cds
      | Joining (JoinLoaded r c) \<Rightarrow> r \<in> dom cds
      | Joining (JoinCounted r) \<Rightarrow> r \<in> dom cds
      | _ \<Rightarrow> True)"

definition clients_ok :: "cd_store \<Rightarrow> routing_info set \<Rightarrow> bool" where
  "clients_ok cds seen \<longleftrightarrow> (\<forall>r cd ri. cds r = Some cd \<and> cd_routing_info cd = Some ri \<longrightarrow> ri \<in> seen)"

definition info_ok :: "routing_info set \<Rightarrow> routing_info \<Rightarrow> bool" where
  "info_ok seen ri \<longleftrightarrow> (\<exists>infos. get_relations ri = Some infos \<and> set infos \<subseteq> seen \<and> length infos \<le> 1000)"

definition world_ok :: "world_run \<Rightarrow> bool" where
  "world_ok s \<longleftrightarrow>
     spaced (wr_refreshes s) \<and> ud_routing_info_updated (wr_world s) = last (0 # wr_refreshes s) \<and>
     (\<forall>t\<in>set (wr_threads s). thread_ok (wr_clients s) (set (wr_reports s)) t) \<and>
     clients_ok (wr_clients s) (set (wr_reports s)) \<and>
     info_ok (set (wr_reports s)) (ud_routing_info (wr_world s)) \<and>
     set (ud_clients (wr_world s)) \<subseteq> dom (wr_clients s)"

lemma world_ok_start: "world_ok (world_start r sid p u)"
  by (simp add: world_ok_def world_start_def spaced_def url_data_new_def create_default_routing_info_def info_ok_def
      clients_ok_def)

text \<open>One atomic step: what it does to the time of the last refresh, the clients and the routing information.\<close>

lemma refresh_world:
  assumes "refresh_advance cds clk ud p = (ud', p')" "thread_ok cds seen (Refreshing p)"
    "clients_ok cds seen" "info_ok seen (ud_routing_info ud)" "set (ud_clients ud) \<subseteq> dom cds"
  shows "thread_ok cds seen (Refreshing p') \<and> info_ok seen (ud_routing_info ud') \<and> ud_clients ud' = ud_clients ud \<and>
    (case refresh_admitted (Refreshing p) (Refreshing p') of
       None \<Rightarrow> ud_routing_info_updated ud' = ud_routing_info_updated ud
     | Some now \<Rightarrow> ud_routing_info_updated ud + 5 \<le> now \<and> ud_routing_info_updated ud' = now)"
proof (cases p)
  case RefreshWon
  have "set (take ROUTING_INFO_MAX (ud_clients ud)) \<subseteq> dom cds" using assms(5) by (auto dest: in_set_takeD)
  with RefreshWon assms show ?thesis by (auto simp: thread_ok_def refresh_admitted_def ROUTING_INFO_MAX_def)
next
  case (RefreshReading rs relation)
  show ?thesis
  proof (cases rs)
    case Nil
    with RefreshReading assms show ?thesis by (auto simp: thread_ok_def refresh_admitted_def info_ok_def)
  next
    case (Cons r rs')
    with RefreshReading assms(2) obtain cd where "cds r = Some cd" by (auto simp: thread_ok_def)
    with Cons RefreshReading assms show ?thesis
      by (auto simp: thread_ok_def refresh_admitted_def clients_ok_def cd_get_routing_info_def split: option.split)
  qed
qed (use assms in \<open>auto simp: thread_ok_def refresh_admitted_def ROUTING_INFO_UPDATE_INTERVAL_SECONDS_def split: if_splits\<close>)

lemma join_world:
  assumes "join_advance m ud p = (ud', p')" "thread_ok cds seen (Joining p)" "set (ud_clients ud) \<subseteq> dom cds"
  shows "thread_ok cds seen (Joining p') \<and> ud_routing_info ud' = ud_routing_info ud \<and>
    ud_routing_info_updated ud' = ud_routing_info_updated ud \<and> set (ud_clients ud') \<subseteq> dom cds"
  using assms by (cases p) (auto simp: thread_ok_def split: if_splits)

lemma leave_world:
  assumes "leave_advance api cds ud p = (ud', p')" "info_ok seen (ud_routing_info ud)"
  shows "info_ok seen (ud_routing_info ud') \<and> ud_routing_info_updated ud' = ud_routing_info_updated ud \<and>
    set (ud_clients ud') \<subseteq> set (ud_clients ud)"
  using assms by (cases p) (auto simp: info_ok_def intro: order_trans [OF length_filter_le])

lemma advance_world:
  assumes "world_advance api m cds clk ud t = (ud', t')" "thread_ok cds seen t"
    "clients_ok cds seen" "info_ok seen (ud_routing_info ud)" "set (ud_clients ud) \<subseteq> dom cds"
  shows "thread_ok cds seen t' \<and> info_ok seen (ud_routing_info ud') \<and> set (ud_clients ud') \<subseteq> dom cds \<and>
    (case refresh_admitted t t' of
       None \<Rightarrow> ud_routing_info_updated ud' = ud_routing_info_updated ud
     | Some now \<Rightarrow> ud_routing_info_updated ud + 5 \<le> now \<and> ud_routing_info_updated ud' = now)"
proof (cases t)
  case (Refreshing p)
  with assms obtain p' where "refresh_advance cds clk ud p = (ud', p')" "t' = Refreshing p'"
    by (auto simp: world_advance_def map_prod_def split: prod.splits)
  with refresh_world [of cds clk ud p ud' p' seen] Refreshing assms show ?thesis by simp
next
  case (Joining p)
  with assms obtain p' where "join_advance m ud p = (ud', p')" "t' = Joining p'"
    by (auto simp: world_advance_def map_prod_def split: prod.splits)
  with join_world [of m ud p ud' p' cds seen] Joining assms show ?thesis by (simp add: refresh_admitted_def)
next
  case (Leaving p)
  with assms obtain p' where "leave_advance api cds ud p = (ud', p')" "t' = Leaving p'"
    by (auto simp: world_advance_def map_prod_def split: prod.splits)
  with leave_world [of api cds ud p ud' p' seen] Leaving assms show ?thesis
    by (auto simp: refresh_admitted_def thread_ok_def)
qed

lemma set_update_ball: "(\<forall>t\<in>set ts. P t) \<Longrightarrow> P x \<Longrightarrow> \<forall>t\<in>set (ts[i := x]). P t"
  using set_update_subset_insert [of ts i x] by blast

lemma world_ok_thread:
  assumes "world_ok s" "i < length (wr_threads s)"
  shows "world_ok (run_thread api m i clk s)"
proof -
  obtain ud t where step: "world_advance api m (wr_clients s) clk (wr_world s) (wr_threads s ! i) = (ud, t)" by fastforce
  have "thread_ok (wr_clients s) (set (wr_reports s)) (wr_threads s ! i)"
    using assms by (simp add: world_ok_def)
  then have new: "thread_ok (wr_clients s) (set (wr_reports s)) t \<and> info_ok (set (wr_reports s)) (ud_routing_info ud) \<and>
      set (ud_clients ud) \<subseteq> dom (wr_clients s) \<and>
      (case refresh_admitted (wr_threads s ! i) t of
         None \<Rightarrow> ud_routing_info_updated ud = ud_routing_info_updated (wr_world s)
       | Some now \<Rightarrow> ud_routing_info_updated (wr_world s) + 5 \<le> now \<and> ud_routing_info_updated ud = now)"
    using assms(1) by (intro advance_world [OF step]) (simp_all add: world_ok_def)
  then have "\<forall>t\<in>set ((wr_threads s)[i := t]). thread_ok (wr_clients s) (set (wr_reports s)) t"
    using assms(1) by (intro set_update_ball) (simp_all add: world_ok_def)
  moreover have "last (0 # ts @ [t]) = t" for ts and t :: int by simp
  ultimately show ?thesis
    using new assms(1) spaced_snoc
    by (auto simp: world_ok_def run_thread_def step split: option.splits simp del: last.simps)
qed

lemma thread_ok_more:
  assumes "thread_ok cds seen t" "dom cds \<subseteq> dom cds'" "seen \<subseteq> seen'"
  shows "thread_ok cds' seen' t"
proof (cases t)
  case (Refreshing p)
  with assms show ?thesis by (cases p) (simp_all add: thread_ok_def, blast)
next
  case (Joining p)
  with assms show ?thesis by (cases p) (simp_all add: thread_ok_def subset_iff)
qed (simp add: thread_ok_def)

text \<open>More clients and more reports, as long as every client's information is among the reports.\<close>

lemma world_ok_more:
  assumes "world_ok s" "dom (wr_clients s) \<subseteq> dom cds" "clients_ok cds (set (wr_reports s @ new))"
  shows "world_ok (s\<lparr>wr_clients := cds, wr_reports := wr_reports s @ new\<rparr>)"
proof -
  have "thread_ok cds (set (wr_reports s @ new)) t" if "t \<in> set (wr_threads s)" for t
  proof (rule thread_ok_more [OF _ assms(2)])
    show "thread_ok (wr_clients s) (set (wr_reports s)) t" using assms(1) that by (simp add: world_ok_def)
  qed simp
  moreover have "info_ok (set (wr_reports s @ new)) (ud_routing_info (wr_world s))"
    using assms(1) by (auto simp: world_ok_def info_ok_def)
  moreover have "set (ud_clients (wr_world s)) \<subseteq> dom cds"
    by (rule subset_trans [OF _ assms(2)]) (use assms(1) in \<open>simp add: world_ok_def\<close>)
  ultimately show ?thesis using assms(1,3) by (simp add: world_ok_def)
qed

lemma world_ok_report:
  assumes "world_ok s"
  shows "world_ok (report r ri s)"
proof (cases "wr_clients s r")
  case (Some cd)
  obtain ri' where ri': "cd_routing_info (set_routing_info cd ri) = Some ri'"
    by (simp add: set_routing_info_def Let_def)
  have "world_ok (s\<lparr>wr_clients := (wr_clients s)(r \<mapsto> set_routing_info cd ri), wr_reports := wr_reports s @ [ri']\<rparr>)"
    using assms ri' by (intro world_ok_more) (auto simp: world_ok_def clients_ok_def)
  then show ?thesis by (simp add: report_def Some ri' cd_get_routing_info_def)
qed (simp add: report_def assms)

lemma world_ok_connect:
  assumes "world_ok s" "wr_clients s r = None"
  shows "world_ok (s\<lparr>wr_clients := (wr_clients s)(r \<mapsto> client_data_new sid p u)\<rparr>)"
proof -
  have "clients_ok ((wr_clients s)(r \<mapsto> client_data_new sid p u)) (set (wr_reports s @ []))"
    using assms(1) by (simp add: world_ok_def clients_ok_def)
  from world_ok_more [OF assms(1) _ this] show ?thesis by (simp add: subset_insertI)
qed

lemma world_ok_new_thread:
  "world_ok s \<Longrightarrow> thread_ok (wr_clients s) (set (wr_reports s)) t \<Longrightarrow> world_ok (s\<lparr>wr_threads := wr_threads s @ [t]\<rparr>)"
  by (auto simp: world_ok_def)

lemma world_ok_step: "world_step api m s s' \<Longrightarrow> world_ok s \<Longrightarrow> world_ok s'"
proof (induction rule: world_step.induct)
  case (start_join s r)
  then show ?case by (intro world_ok_new_thread) (auto simp: thread_ok_def)
qed (simp_all add: world_ok_thread world_ok_report world_ok_connect world_ok_new_thread thread_ok_def)

interpretation world_runs: kept_invariant "world_step api m" world_ok
  by unfold_locales (rule world_ok_step)

text \<open>The history tells the truth: the refreshes in it are those under way and those that have written.\<close>

definition admitted :: "world_thread \<Rightarrow> bool" where
  "admitted t \<longleftrightarrow>
     (case t of
        Refreshing p \<Rightarrow> (case p of RefreshWon \<Rightarrow> True | RefreshReading _ _ \<Rightarrow> True | RefreshDone b \<Rightarrow> b | _ \<Rightarrow> False)
      | _ \<Rightarrow> False)"

definition history_ok :: "world_run \<Rightarrow> bool" where
  "history_ok s \<longleftrightarrow> length (filter admitted (wr_threads s)) = length (wr_refreshes s)"

lemma filter_update_length:
  "i < length ts \<Longrightarrow>
     length (filter P (ts[i := x])) + (if P (ts ! i) then 1 else 0) = length (filter P ts) + (if P x then 1 else 0)"
proof (induction ts arbitrary: i)
  case (Cons t ts)
  then show ?case by (cases i) auto
qed simp

lemma refresh_admitted_iff:
  assumes "world_advance api m cds clk ud t = (ud', t')"
  shows "(refresh_admitted t t' \<noteq> None \<longleftrightarrow> admitted t' \<and> \<not> admitted t) \<and> (admitted t \<longrightarrow> admitted t')"
proof (cases t)
  case (Refreshing p)
  with assms show ?thesis
  proof (cases p)
    case (RefreshReading rs relation)
    with Refreshing assms show ?thesis by (cases rs) (auto simp: world_advance_def admitted_def refresh_admitted_def)
  qed (auto simp: world_advance_def admitted_def refresh_admitted_def split: if_splits)
qed (use assms in \<open>auto simp: world_advance_def admitted_def refresh_admitted_def map_prod_def split: prod.splits\<close>)

lemma history_ok_thread:
  assumes "history_ok s" "i < length (wr_threads s)"
  shows "history_ok (run_thread api m i clk s)"
proof -
  obtain ud t where step: "world_advance api m (wr_clients s) clk (wr_world s) (wr_threads s ! i) = (ud, t)" by fastforce
  from refresh_admitted_iff [OF step] filter_update_length [OF assms(2), of admitted t] assms(1)
  show ?thesis by (auto simp: history_ok_def run_thread_def step split: option.split if_splits)
qed

interpretation histories: kept_invariant "world_step api m" history_ok
proof
  fix s s'
  show "world_step api m s s' \<Longrightarrow> history_ok s \<Longrightarrow> history_ok s'"
    by (induction rule: world_step.induct)
      (auto simp: history_ok_thread, auto simp: history_ok_def admitted_def report_def Let_def split: option.split)
qed

section \<open>Properties\<close>

text \<open>
  Property C22. Under every schedule, and whatever the clock shows, the refreshes of a world are at least
  five seconds apart, so there are at most as many as its last one allows; every refresh that was
  admitted counts, and none else. What the world hands out are at most a thousand infos, each
  of which a client has reported.
\<close>

theorem refreshes_spaced:
  assumes reach: "(world_step api m)\<^sup>*\<^sup>* (world_start r sid p u) s"
  shows "sorted_wrt (\<lambda>a b. a + 5 \<le> b) (0 # wr_refreshes s) \<and>
    5 * int (length (wr_refreshes s)) \<le> ud_routing_info_updated (wr_world s) \<and>
    length (filter admitted (wr_threads s)) = length (wr_refreshes s) \<and>
    (\<exists>infos. get_relations (ud_routing_info (wr_world s)) = Some infos \<and>
       set infos \<subseteq> set (wr_reports s) \<and> length infos \<le> 1000)"
proof -
  have ok: "world_ok s" by (rule world_runs.kept_reachable [OF reach world_ok_start])
  have "history_ok s" by (rule histories.kept_reachable [OF reach]) (simp add: history_ok_def world_start_def)
  with ok spaced_length [of "wr_refreshes s"] show ?thesis
    by (auto simp: world_ok_def spaced_def history_ok_def info_ok_def simp del: last.simps)
qed

text \<open>Without others in between, the steps of each operation are the operation.\<close>

lemma refresh_reading:
  "((\<lambda>(ud, p). refresh_advance cds clk ud p) ^^ Suc (length rs)) (ud, RefreshReading rs relation) =
     (ud\<lparr>ud_routing_info := tracker_info (relation @ List.map_filter (\<lambda>r. cd_get_routing_info (the (cds r))) rs)\<rparr>,
      RefreshDone True)"
proof (induction rs arbitrary: relation)
  case (Cons r rs)
  have "((\<lambda>(ud, p). refresh_advance cds clk ud p) ^^ Suc (length (r # rs))) (ud, RefreshReading (r # rs) relation) =
    ((\<lambda>(ud, p). refresh_advance cds clk ud p) ^^ Suc (length rs)) (refresh_advance cds clk ud (RefreshReading (r # rs) relation))"
    by (simp only: length_Cons funpow_Suc_right o_apply prod.case)
  also have "\<dots> = (ud\<lparr>ud_routing_info := tracker_info (relation @ List.map_filter (\<lambda>r. cd_get_routing_info (the (cds r))) (r # rs))\<rparr>,
      RefreshDone True)"
    by (simp only: refresh_advance.simps Cons.IH) (simp add: List.map_filter_simps split: option.split)
  finally show ?case .
qed (simp add: List.map_filter_simps)

lemma alone_refreshes:
  "\<exists>k. ((\<lambda>(ud, p). refresh_advance cds now ud p) ^^ k) (ud, RefreshStart) =
     (update_routing_info_if_needed cds now ud, RefreshDone (5 \<le> now - ud_routing_info_updated ud))"
proof (cases "now - ud_routing_info_updated ud < 5")
  case True
  then have "((\<lambda>(ud, p). refresh_advance cds now ud p) ^^ 2) (ud, RefreshStart) = (ud, RefreshDone False)"
    by (simp add: eval_nat_numeral ROUTING_INFO_UPDATE_INTERVAL_SECONDS_def)
  with True show ?thesis
    by (intro exI [of _ 2]) (simp add: update_routing_info_if_needed_def ROUTING_INFO_UPDATE_INTERVAL_SECONDS_def)
next
  case False
  let ?ud = "ud\<lparr>ud_routing_info_updated := now\<rparr>" and ?rs = "take ROUTING_INFO_MAX (ud_clients ud)"
  have "((\<lambda>(ud, p). refresh_advance cds now ud p) ^^ 4) (ud, RefreshStart) = (?ud, RefreshReading ?rs [])"
    using False by (simp add: eval_nat_numeral ROUTING_INFO_UPDATE_INTERVAL_SECONDS_def)
  then have "((\<lambda>(ud, p). refresh_advance cds now ud p) ^^ (Suc (length ?rs) + 4)) (ud, RefreshStart) =
      (?ud\<lparr>ud_routing_info := tracker_info (List.map_filter (\<lambda>r. cd_get_routing_info (the (cds r))) ?rs)\<rparr>, RefreshDone True)"
    by (simp only: funpow_add o_apply refresh_reading append_Nil)
  with False show ?thesis
    by (intro exI [of _ "Suc (length ?rs) + 4"])
      (simp only: update_routing_info_if_needed_def update_routing_info_def ROUTING_INFO_UPDATE_INTERVAL_SECONDS_def Let_def, simp)
qed

lemma alone_joins_and_leaves:
  "\<exists>k. ((\<lambda>(ud, p). join_advance m ud p) ^^ k) (ud, JoinStart r) =
     map_prod id JoinDone (url_add_connection m r ud)"
  "\<exists>k. ((\<lambda>(ud, p). leave_advance api cds ud p) ^^ k) (ud, LeaveStart sid) = (url_remove_connection api cds sid ud, LeaveDone)"
  by (rule exI [of _ 3], simp add: eval_nat_numeral url_add_connection_def)
    (rule exI [of _ 3], simp add: eval_nat_numeral url_remove_connection_def)

text \<open>
  A client who has reported, a refresh and the client's own leaving at the same time: the refresh copies
  the clients, the session leaves, and the refresh writes what it has read before. The session is in no
  list and no count any more, and still in the routing information, until the next refresh.
\<close>

definition example_report :: routing_info where
  "example_report = RoutingInfo 1 (Some [1]) None None (Some (Count 0)) [] False"

definition refresh_example :: world_run where
  "refresh_example =
     (let s = report 0 example_report (world_start 0 [1] 10 ''u'') in
      s\<lparr>wr_threads := [Refreshing RefreshStart, Leaving (LeaveStart [1])]\<rparr>)"

definition refresh_schedule :: "nat list" where
  "refresh_schedule = [0, 0, 0, 0, 0, 1, 1, 1, 0]"

definition run_world :: "sid_api \<Rightarrow> usize option \<Rightarrow> int \<Rightarrow> nat list \<Rightarrow> world_run \<Rightarrow> world_run" where
  "run_world api m clk sched s = foldl (\<lambda>s i. run_thread api m i clk s) s sched"

lemma refresh_example_reachable: "(world_step api m)\<^sup>*\<^sup>* (world_start 0 [1] 10 ''u'') refresh_example"
proof -
  let ?s = "world_start 0 [1] 10 ''u''" and ?r = "report 0 example_report (world_start 0 [1] 10 ''u'')"
  have "world_step api m ?s ?r" by (rule world_step.report)
  moreover have "world_step api m ?r (?r\<lparr>wr_threads := [Refreshing RefreshStart]\<rparr>)"
    using world_step.start_refresh [of api m ?r] by (simp add: report_def world_start_def Let_def)
  moreover have "world_step api m (?r\<lparr>wr_threads := [Refreshing RefreshStart]\<rparr>) refresh_example"
    using world_step.start_leave [of api m "?r\<lparr>wr_threads := [Refreshing RefreshStart]\<rparr>" "[1]"]
    by (simp add: refresh_example_def Let_def)
  ultimately show ?thesis by (meson converse_rtranclp_into_rtranclp rtranclp.rtrancl_refl)
qed

lemma run_world_reachable:
  assumes "\<forall>i\<in>set sched. i < length (wr_threads s)"
  shows "(world_step api m)\<^sup>*\<^sup>* s (run_world api m clk sched s)"
  using assms
proof (induction sched arbitrary: s)
  case (Cons i sched)
  have "length (wr_threads (run_thread api m i clk s)) = length (wr_threads s)"
    by (simp add: run_thread_def split: prod.split)
  with Cons have "(world_step api m)\<^sup>*\<^sup>* (run_thread api m i clk s) (run_world api m clk (i # sched) s)"
    by (simp add: run_world_def)
  moreover have "world_step api m s (run_thread api m i clk s)" using Cons.prems by (intro world_step.thread) simp
  ultimately show ?case by (rule converse_rtranclp_into_rtranclp [rotated])
qed (simp add: run_world_def)

lemma refresh_brings_back:
  "let s = run_world example_sid_api None 100 refresh_schedule refresh_example
   in wr_threads s = [Refreshing (RefreshDone True), Leaving LeaveDone] \<and> ud_clients (wr_world s) = [] \<and>
      ud_client_count (wr_world s) = 0 \<and> get_relations (ud_routing_info (wr_world s)) = Some [example_report]"
  by code_simp

theorem refreshes_spaced_witness:
  "let s = run_world example_sid_api None 100 refresh_schedule refresh_example
   in length (filter admitted (wr_threads s)) = 1 \<and> wr_refreshes s = [100] \<and>
      5 * int (length (wr_refreshes s)) \<le> ud_routing_info_updated (wr_world s)"
proof -
  let ?s = "run_world example_sid_api None 100 refresh_schedule refresh_example"
  have "\<forall>i\<in>set refresh_schedule. i < length (wr_threads refresh_example)"
    by (simp add: refresh_schedule_def refresh_example_def Let_def)
  from rtranclp_trans [OF refresh_example_reachable run_world_reachable [OF this]]
  have "(world_step example_sid_api None)\<^sup>*\<^sup>* (world_start 0 [1] 10 ''u'') ?s" .
  note spaced = refreshes_spaced [OF this]
  moreover have "wr_refreshes ?s = [100]" by code_simp
  ultimately show ?thesis by (simp add: Let_def)
qed

end
