(* ===== verification/Sleep_Tasks.thy ===== *)
theory Sleep_Tasks
  imports Verse_Prelude
begin

text \<open>
  Sleeping and spawning, \<open>common/src/sleep.rs\<close> and \<open>common/src/task.rs\<close>: each has one version for browsers
  and one for the servers. What the timers of a browser do with a delay, and whether a thread can
  take local tasks of tokio, is outside and a parameter; a sleep is modelled by how many milliseconds
  later it ends.
\<close>

section \<open>Sleeping\<close>

text \<open>\<open>Duration::from_millis(ms as u64)\<close>.\<close>

definition native_sleep :: "u32 \<Rightarrow> nat" where
  "native_sleep ms = unat (ucast ms :: u64)"

text \<open>
  In a browser the callback of \<open>setTimeout\<close> ends the sleep. There is no window in a worker, and the call
  may throw; else the browser says when it calls back. The delay is cast to \<open>i32\<close>.
\<close>

record js_timers =
  jt_window :: bool
  jt_set_timeout :: "int \<Rightarrow> nat option"

definition browser_sleep :: "js_timers \<Rightarrow> u32 \<Rightarrow> nat outcome" where
  "browser_sleep jt ms =
     (if \<not> jt_window jt then Panic
      else case jt_set_timeout jt (sint ms) of None \<Rightarrow> Panic | Some delay \<Rightarrow> Returns delay)"

text \<open>The HTML standard: a delay below zero is taken as zero.\<close>

definition html_timers :: "js_timers \<Rightarrow> bool" where
  "html_timers jt \<longleftrightarrow> jt_window jt \<and> (\<forall>d. jt_set_timeout jt d = Some (nat d))"

lemma native_sleep_unat [simp]: "native_sleep ms = unat ms"
  by (simp add: native_sleep_def uint_up_ucast is_up flip: nat_uint_eq)

lemma uint_u32_less: "uint (ms :: u32) < 4294967296"
  using uint_lt2p [of ms] by simp

lemma sint_i32: "sint (ms :: u32) = (if ms < 0x80000000 then uint ms else uint ms - 2 ^ 32)"
proof -
  have small: "(ms < 0x80000000) = (uint ms < 2147483648)" by (simp add: word_less_def)
  have sint: "sint ms = (uint ms + 2147483648) mod 4294967296 - 2147483648"
    by (simp add: sint_uint signed_take_bit_eq_take_bit_shift take_bit_eq_mod)
  show ?thesis
  proof (cases "uint ms < 2147483648")
    case True
    then show ?thesis using small by (simp add: sint mod_pos_pos_trivial)
  next
    case False
    have "(uint ms - 2147483648 + 4294967296) mod 4294967296 = uint ms - 2147483648"
      using False uint_u32_less [of ms] by (simp only: mod_add_self2) (simp add: mod_pos_pos_trivial)
    then show ?thesis using False small by (simp add: sint add.commute [of 2147483648])
  qed
qed

text \<open>Both versions sleep equally long, up to 24 days; a browser does not sleep at all for longer.\<close>

lemma browser_sleep_html:
  "html_timers jt \<Longrightarrow> browser_sleep jt ms = Returns (if ms < 0x80000000 then native_sleep ms else 0)"
  using uint_u32_less [of ms] by (simp add: browser_sleep_def html_timers_def sint_i32 nat_uint_eq)

section \<open>Spawning\<close>

text \<open>\<open>tokio::task::spawn_local\<close> panics outside of a \<open>LocalSet\<close>; in a browser every task is local.\<close>

definition native_spawn :: "bool \<Rightarrow> 'f \<Rightarrow> 'f list \<Rightarrow> 'f list outcome" where
  "native_spawn in_local_set f tasks = (if in_local_set then Returns (tasks @ [f]) else Panic)"

definition browser_spawn :: "'f \<Rightarrow> 'f list \<Rightarrow> 'f list" where
  "browser_spawn f tasks = tasks @ [f]"

end
