(* ===== verification/Signal_Future.thy ===== *)
theory Signal_Future
  imports Sleep_Tasks Kept_Invariant
begin

text \<open>
  \<open>SignalFuture\<close> of \<open>common/src/signal_future.rs\<close>: a future that another task finishes. Its inner cell
  has a result and the waker of the task that waits; every operation on the cell is atomic, a poll is
  two of them. In a browser everything runs on one thread, so that a poll is not interrupted; elsewhere
  the finishing task may run between the two operations of a poll. Time is counted in milliseconds, so
  that a timeout fires when its sleep is over, or later. A \<open>SignalFuture\<close> can be cloned, but its cell has room
  for one waker; the model has the one task that waits, and any number that finish the future.
\<close>

section \<open>The cell\<close>

record ('t, 'e) inner =
  sf_result :: "('e + 't) option"
  sf_task :: "nat option"

definition sf_new :: "('t, 'e) inner" where
  "sf_new = \<lparr>sf_result = None, sf_task = None\<rparr>"

definition set_result :: "('e + 't) \<Rightarrow> ('t, 'e) inner \<Rightarrow> ('t, 'e) inner \<times> nat option" where
  "set_result v inner = (inner\<lparr>sf_result := Some v, sf_task := None\<rparr>, sf_task inner)"

definition set_task :: "nat option \<Rightarrow> ('t, 'e) inner \<Rightarrow> ('t, 'e) inner" where
  "set_task v inner = inner\<lparr>sf_task := v\<rparr>"

definition take_result :: "('t, 'e) inner \<Rightarrow> ('t, 'e) inner \<times> ('e + 't) option" where
  "take_result inner = (inner\<lparr>sf_result := None\<rparr>, sf_result inner)"

section \<open>The waiting task\<close>

text \<open>
  The task that awaits the future: runnable, between the two operations of a poll, asleep, or with its
  result. A wake-up is remembered until the task sleeps; a sleeping task may also be polled for another
  reason.
\<close>

datatype ('t, 'e) phase = Runnable | Checked | Asleep | Got "'e + 't"

record ('t, 'e) waiting =
  cell :: "('t, 'e) inner"
  phase :: "('t, 'e) phase"
  notified :: bool
  timers :: "(nat \<times> 'e) list"
  clock :: nat

definition waiting_new :: "('t, 'e) waiting" where
  "waiting_new = \<lparr>cell = sf_new, phase = Runnable, notified = False, timers = [], clock = 0\<rparr>"

definition finish_sf :: "('e + 't) \<Rightarrow> ('t, 'e) waiting \<Rightarrow> ('t, 'e) waiting" where
  "finish_sf v s =
     (case set_result v (cell s) of
        (c, Some _) \<Rightarrow> s\<lparr>cell := c, notified := True\<rparr>
      | (c, None) \<Rightarrow> s\<lparr>cell := c\<rparr>)"

text \<open>
  \<open>set_timeout\<close> spawns a task that sleeps and then rejects the future with an error; the tasks that
  still sleep are the timers, each with the time at which its sleep ends. In a browser a panic of the
  new task is the end of the program.
\<close>

definition start_timer :: "nat \<Rightarrow> 'e \<Rightarrow> ('t, 'e) waiting \<Rightarrow> ('t, 'e) waiting" where
  "start_timer delay e s = s\<lparr>timers := timers s @ [(clock s + delay, e)]\<rparr>"

definition set_timeout :: "u32 \<Rightarrow> 'e \<Rightarrow> ('t, 'e) waiting \<Rightarrow> ('t, 'e) waiting" where
  "set_timeout ms e s = start_timer (native_sleep ms) e s"

definition browser_set_timeout :: "js_timers \<Rightarrow> u32 \<Rightarrow> 'e \<Rightarrow> ('t, 'e) waiting \<Rightarrow> ('t, 'e) waiting outcome" where
  "browser_set_timeout jt ms e s =
     (case browser_sleep jt ms of Panic \<Rightarrow> Panic | Returns delay \<Rightarrow> Returns (start_timer delay e s))"

definition fire_timer :: "nat \<Rightarrow> ('t, 'e) waiting \<Rightarrow> ('t, 'e) waiting" where
  "fire_timer i s =
     finish_sf (Err (snd (timers s ! i))) (s\<lparr>timers := take i (timers s) @ drop (Suc i) (timers s)\<rparr>)"

definition pass_time :: "nat \<Rightarrow> ('t, 'e) waiting \<Rightarrow> ('t, 'e) waiting" where
  "pass_time d s = s\<lparr>clock := clock s + d\<rparr>"

text \<open>The first operation of a poll, and the second.\<close>

definition poll_check :: "('t, 'e) waiting \<Rightarrow> ('t, 'e) waiting" where
  "poll_check s =
     (case take_result (cell s) of
        (c, Some v) \<Rightarrow> s\<lparr>cell := c, phase := Got v, notified := False\<rparr>
      | (c, None) \<Rightarrow> s\<lparr>cell := c, phase := Checked, notified := False\<rparr>)"

definition poll_store :: "nat \<Rightarrow> ('t, 'e) waiting \<Rightarrow> ('t, 'e) waiting" where
  "poll_store w s = s\<lparr>cell := set_task (Some w) (cell s), phase := Asleep\<rparr>"

text \<open>With \<open>threads\<close>, others run between the operations of a poll.\<close>

inductive sf_step :: "bool \<Rightarrow> ('t, 'e) waiting \<Rightarrow> ('t, 'e) waiting \<Rightarrow> bool" for threads :: bool where
  finish: "sf_step threads s (finish_sf v s)"
| timeout_set: "sf_step threads s (set_timeout ms e s)"
| browser_timeout: "\<not> threads \<Longrightarrow> browser_set_timeout jt ms e s = Returns s' \<Longrightarrow> sf_step threads s s'"
| time_passes: "sf_step threads s (pass_time d s)"
| timeout_fired: "i < length (timers s) \<Longrightarrow> fst (timers s ! i) \<le> clock s \<Longrightarrow> sf_step threads s (fire_timer i s)"
| poll: "phase s = Runnable \<Longrightarrow> phase (poll_check s) = Checked \<Longrightarrow> sf_step threads s (poll_store w (poll_check s))"
| ready: "phase s = Runnable \<Longrightarrow> phase (poll_check s) \<noteq> Checked \<Longrightarrow> sf_step threads s (poll_check s)"
| check: "threads \<Longrightarrow> phase s = Runnable \<Longrightarrow> phase (poll_check s) = Checked \<Longrightarrow> sf_step threads s (poll_check s)"
| store: "threads \<Longrightarrow> phase s = Checked \<Longrightarrow> sf_step threads s (poll_store w s)"
| wake: "phase s = Asleep \<Longrightarrow> notified s \<Longrightarrow> sf_step threads s (s\<lparr>phase := Runnable\<rparr>)"
| other: "phase s = Asleep \<Longrightarrow> sf_step threads s (s\<lparr>phase := Runnable\<rparr>)"

definition sf_reachable :: "bool \<Rightarrow> ('t, 'e) waiting \<Rightarrow> bool" where
  "sf_reachable threads s \<longleftrightarrow> (sf_step threads)\<^sup>*\<^sup>* waiting_new s"

section \<open>Without threads\<close>

definition no_result_missed :: "('t, 'e) waiting \<Rightarrow> bool" where
  "no_result_missed s \<longleftrightarrow> phase s \<noteq> Checked \<and>
     (sf_result (cell s) \<noteq> None \<longrightarrow> sf_task (cell s) = None) \<and>
     (\<forall>v. phase s = Got v \<longrightarrow> sf_task (cell s) = None) \<and>
     (phase s = Asleep \<longrightarrow> notified s \<or> sf_result (cell s) = None \<and> sf_task (cell s) \<noteq> None)"

lemma no_result_missed_step: "sf_step False s s' \<Longrightarrow> no_result_missed s \<Longrightarrow> no_result_missed s'"
  by (induction rule: sf_step.induct)
    (auto simp: no_result_missed_def finish_sf_def poll_check_def poll_store_def set_result_def set_task_def
      take_result_def set_timeout_def browser_set_timeout_def start_timer_def fire_timer_def pass_time_def
      split: option.splits outcome.splits)

interpretation one_thread: kept_invariant "sf_step False" no_result_missed
  by unfold_locales (rule no_result_missed_step)

lemma no_result_missed_reachable: "sf_reachable False s \<Longrightarrow> no_result_missed s"
  unfolding sf_reachable_def
  by (erule one_thread.kept_reachable) (simp add: no_result_missed_def waiting_new_def sf_new_def)

section \<open>Properties\<close>

text \<open>
  Property C32. On one thread no result is lost: whenever the future is finished while its task sleeps,
  the task is woken up, and its next poll returns the result of the last time the future was finished;
  a timeout whose sleep is over can fire, and in the task's sleep it ends the waiting with its error.
\<close>

theorem finished_future_wakes:
  assumes reach: "sf_reachable False s" and asleep: "phase s = Asleep" "\<not> notified s"
  shows "notified (finish_sf v s) \<and>
    sf_step False (finish_sf v s) ((finish_sf v s)\<lparr>phase := Runnable\<rparr>) \<and>
    phase (poll_check ((finish_sf v s)\<lparr>phase := Runnable\<rparr>)) = Got v \<and>
    phase (poll_check ((finish_sf v' (finish_sf v s))\<lparr>phase := Runnable\<rparr>)) = Got v' \<and>
    (\<forall>i<length (timers s). (fst (timers s ! i) \<le> clock s \<longrightarrow> sf_step False s (fire_timer i s)) \<and>
       notified (fire_timer i s) \<and>
       phase (poll_check ((fire_timer i s)\<lparr>phase := Runnable\<rparr>)) = Got (Err (snd (timers s ! i))))"
proof -
  from no_result_missed_reachable [OF reach] asleep obtain w where "sf_task (cell s) = Some w"
    by (auto simp: no_result_missed_def)
  then have "notified (finish_sf v s)" "phase (finish_sf v s) = Asleep" "notified (fire_timer i s)" for i
    using asleep by (simp_all add: fire_timer_def finish_sf_def set_result_def)
  moreover have got: "phase (poll_check ((finish_sf v s)\<lparr>phase := Runnable\<rparr>)) = Got v" for v and s :: "('a, 'b) waiting"
    by (simp add: poll_check_def finish_sf_def take_result_def set_result_def split: option.split)
  moreover have "phase (poll_check ((fire_timer i s)\<lparr>phase := Runnable\<rparr>)) = Got (Err (snd (timers s ! i)))" for i
    unfolding fire_timer_def by (rule got)
  ultimately show ?thesis by (auto intro: sf_step.wake sf_step.timeout_fired)
qed

text \<open>A timeout that fires after the task has its result changes nothing for the task.\<close>

lemma late_timeout:
  assumes "sf_reachable False s" "phase s = Got v"
  shows "phase (fire_timer i s) = Got v \<and> notified (fire_timer i s) = notified s"
  using no_result_missed_reachable [OF assms(1)] assms(2)
  by (simp add: no_result_missed_def fire_timer_def finish_sf_def set_result_def)

definition asleep_state :: "(nat, nat) waiting" where
  "asleep_state = poll_store 1 (poll_check waiting_new)"

theorem finished_future_wakes_witness:
  "sf_reachable False asleep_state \<and> notified (finish_sf (Ok 5) asleep_state)"
proof -
  have "sf_step False waiting_new asleep_state"
    unfolding asleep_state_def
    by (rule sf_step.poll) (simp_all add: waiting_new_def poll_check_def take_result_def sf_new_def)
  then have "sf_reachable False asleep_state" by (simp add: sf_reachable_def r_into_rtranclp)
  moreover have "phase asleep_state = Asleep" "\<not> notified asleep_state"
    by (simp_all add: asleep_state_def waiting_new_def poll_check_def poll_store_def take_result_def sf_new_def)
  ultimately show ?thesis using finished_future_wakes by blast
qed

text \<open>Only a timeout whose sleep is over makes a timer go.\<close>

lemma timers_finish [simp]: "timers (finish_sf v s) = timers s" "clock (finish_sf v s) = clock s"
  by (auto simp: finish_sf_def split: prod.splits option.splits)

lemma timers_poll [simp]: "timers (poll_check s) = timers s" "timers (poll_store w s) = timers s"
  by (auto simp: poll_check_def poll_store_def split: prod.splits option.splits)

lemma timer_gone:
  "sf_step threads s s' \<Longrightarrow> length (timers s') < length (timers s) \<Longrightarrow> \<exists>t\<in>set (timers s). fst t \<le> clock s"
  by (induction rule: sf_step.induct)
    (auto simp: set_timeout_def browser_set_timeout_def start_timer_def pass_time_def split: outcome.splits)

text \<open>
  Property C33. Up to \<open>2 ^ 31 - 1\<close> milliseconds a browser sets the same timeout as a server, and the timeout
  fires once that time has passed and not before; a longer one fires at once in a browser, whose
  timers take a delay of 32 bits with a sign.
\<close>

theorem timeouts_by_platform:
  assumes html: "html_timers jt"
  shows "browser_set_timeout jt ms e s =
      Returns (if ms < 0x80000000 then set_timeout ms e s else start_timer 0 e s) \<and>
    (timers s = [] \<longrightarrow>
      (sf_step threads (pass_time d (set_timeout ms e s)) (fire_timer 0 (pass_time d (set_timeout ms e s))) \<longleftrightarrow>
         unat ms \<le> d) \<and>
      sf_step threads (start_timer 0 e s) (fire_timer 0 (start_timer 0 e s)))"
proof -
  let ?due = "\<lambda>d. pass_time d (set_timeout ms e s)"
  have "browser_set_timeout jt ms e s = Returns (if ms < 0x80000000 then set_timeout ms e s else start_timer 0 e s)"
    by (simp add: browser_set_timeout_def browser_sleep_html [OF html] set_timeout_def)
  moreover have "sf_step threads (?due d) (fire_timer 0 (?due d)) \<longleftrightarrow> unat ms \<le> d" if "timers s = []"
  proof
    have "length (timers (fire_timer 0 (?due d))) < length (timers (?due d))"
      by (simp add: fire_timer_def set_timeout_def start_timer_def pass_time_def that)
    moreover assume "sf_step threads (?due d) (fire_timer 0 (?due d))"
    ultimately show "unat ms \<le> d"
      using timer_gone that by (fastforce simp: set_timeout_def start_timer_def pass_time_def)
  next
    assume "unat ms \<le> d"
    then show "sf_step threads (?due d) (fire_timer 0 (?due d))"
      using that by (intro sf_step.timeout_fired) (simp_all add: set_timeout_def start_timer_def pass_time_def)
  qed
  moreover have "sf_step threads (start_timer 0 e s) (fire_timer 0 (start_timer 0 e s))" if "timers s = []"
    using that by (intro sf_step.timeout_fired) (simp_all add: start_timer_def)
  ultimately show ?thesis by blast
qed

theorem timeouts_by_platform_witness:
  "browser_set_timeout \<lparr>jt_window = True, jt_set_timeout = \<lambda>d. Some (nat d)\<rparr> 0x80000000 (7 :: nat) asleep_state =
     Returns (start_timer 0 7 asleep_state) \<and>
   sf_step False (pass_time 1000 (set_timeout 1000 7 asleep_state))
     (fire_timer 0 (pass_time 1000 (set_timeout 1000 7 asleep_state)))"
proof -
  have "html_timers \<lparr>jt_window = True, jt_set_timeout = \<lambda>d. Some (nat d)\<rparr>" by (simp add: html_timers_def)
  moreover have "timers asleep_state = []" by (simp add: asleep_state_def waiting_new_def)
  ultimately show ?thesis
    using timeouts_by_platform [where ms = "0x80000000" and e = 7 and s = asleep_state]
      timeouts_by_platform [where ms = 1000 and e = 7 and s = asleep_state and threads = False and d = 1000] by simp
qed

text \<open>
  With threads, a result may be lost: finished between the two operations of the first poll, the future
  has a result and a sleeping task that nothing will wake.
\<close>

theorem threads_lose_wakeup:
  "\<exists>s :: (nat, nat) waiting. sf_reachable True s \<and> phase s = Asleep \<and> \<not> notified s \<and>
     sf_result (cell s) = Some (Ok 5)"
proof -
  let ?s1 = "poll_check waiting_new :: (nat, nat) waiting"
  let ?s2 = "finish_sf (Ok 5) ?s1"
  note defs = waiting_new_def poll_check_def poll_store_def take_result_def sf_new_def finish_sf_def set_result_def set_task_def
  have "sf_step True waiting_new ?s1" by (rule sf_step.check) (simp_all add: defs)
  moreover have "sf_step True ?s1 ?s2" by (rule sf_step.finish)
  moreover have "sf_step True ?s2 (poll_store 1 ?s2)" by (rule sf_step.store) (simp_all add: defs)
  ultimately have "sf_reachable True (poll_store 1 ?s2)"
    unfolding sf_reachable_def by (meson rtranclp.rtrancl_into_rtrancl rtranclp.rtrancl_refl)
  moreover have "phase (poll_store 1 ?s2) = Asleep" "\<not> notified (poll_store 1 ?s2)"
    "sf_result (cell (poll_store 1 ?s2)) = Some (Ok 5)"
    by (simp_all add: defs)
  ultimately show ?thesis by blast
qed

end
