(* ===== verification/Throttle_Runner.thy ===== *)
theory Throttle_Runner
  imports Sleep_Tasks Kept_Invariant
begin

text \<open>
  \<open>ThrottleJobRunner\<close> of \<open>common/src/throttle_job_runner.rs\<close>: jobs are sent over a channel to a task that
  runs them through a buffered stream, a limited number at a time. The channel and the stream are of
  the futures crate; they are a parameter, \<open>stream_api\<close>, with what their documentation says of them as
  \<open>stream_ok\<close>. Here is what the runner makes of them.
\<close>

section \<open>The stream of the futures crate\<close>

datatype polled = Pending | Item | Ended

text \<open>
  \<open>st_new\<close> is \<open>unbounded\<close> with \<open>buffered\<close>. \<open>st_poll\<close> polls the next result of the stream: the first argument
  says which jobs end when they are polled now, the answer has the jobs it has polled.
\<close>

record ('job, 'st) stream_api =
  st_new :: "usize \<Rightarrow> 'st"
  st_send :: "'job \<Rightarrow> 'st \<Rightarrow> 'st option"
  st_close :: "'st \<Rightarrow> 'st"
  st_poll :: "('job \<Rightarrow> bool) \<Rightarrow> 'st \<Rightarrow> 'st \<times> 'job list \<times> polled"

text \<open>
  What can be said of a stream: the jobs sent and not yet handed out, in order, each with whether it has
  ended; closed or not; its width.
\<close>

record ('job, 'st) stream_view =
  v_queue :: "'st \<Rightarrow> ('job \<times> bool) list"
  v_closed :: "'st \<Rightarrow> bool"
  v_width :: "'st \<Rightarrow> usize"

definition mark_ended :: "'job set \<Rightarrow> ('job \<times> bool) list \<Rightarrow> ('job \<times> bool) list" where
  "mark_ended es q = map (\<lambda>(j, e). (j, e \<or> j \<in> es)) q"

text \<open>The jobs a stream of this width may have in progress: those of its first entries that have not ended.\<close>

definition in_progress :: "usize \<Rightarrow> ('job \<times> bool) list \<Rightarrow> 'job list" where
  "in_progress n q = map fst (filter (\<lambda>(_, e). \<not> e) (take (unat n) q))"

text \<open>
  The documentation of \<open>buffered\<close>: up to \<open>n\<close> jobs of the stream are buffered, and their outputs are handed
  out in the order of the stream. Nothing is said of which of the buffered jobs a poll reaches, or in
  which order: jobs may end in any order. A job that has ended is never polled again, and its output
  waits until those before it have been handed out.
\<close>

definition poll_ok :: "('job, 'st) stream_view \<Rightarrow> ('job \<Rightarrow> bool) \<Rightarrow> 'st \<Rightarrow> 'st \<times> 'job list \<times> polled \<Rightarrow> bool" where
  "poll_ok v ready st r =
     (case r of (st', polled, res) \<Rightarrow>
        let q = mark_ended {j. j \<in> set polled \<and> ready j} (v_queue v st)
        in v_closed v st' = v_closed v st \<and> v_width v st' = v_width v st \<and>
           distinct polled \<and> set polled \<subseteq> set (in_progress (v_width v st) (v_queue v st)) \<and>
           (case res of
              Pending \<Rightarrow> v_queue v st' = q \<and>
                (case q of [] \<Rightarrow> 0 < v_width v st \<longrightarrow> \<not> v_closed v st | (_, e) # _ \<Rightarrow> \<not> e)
            | Item \<Rightarrow> (\<exists>j. q = (j, True) # v_queue v st')
            | Ended \<Rightarrow> q = [] \<and> v_closed v st \<and> v_queue v st' = []))"

text \<open>The jobs of a stream are boxes that were moved into it, so no two are the same.\<close>

definition stream_ok :: "('job, 'st) stream_api \<Rightarrow> ('job, 'st) stream_view \<Rightarrow> bool" where
  "stream_ok api v \<longleftrightarrow>
     (\<forall>n. v_queue v (st_new api n) = [] \<and> \<not> v_closed v (st_new api n) \<and> v_width v (st_new api n) = n) \<and>
     (\<forall>j st. case st_send api j st of
        None \<Rightarrow> v_closed v st
      | Some st' \<Rightarrow> \<not> v_closed v st \<and> v_queue v st' = v_queue v st @ [(j, False)] \<and> \<not> v_closed v st' \<and>
          v_width v st' = v_width v st) \<and>
     (\<forall>st. v_queue v (st_close api st) = v_queue v st \<and> v_closed v (st_close api st) \<and>
        v_width v (st_close api st) = v_width v st) \<and>
     (\<forall>ready st. distinct (map fst (v_queue v st)) \<longrightarrow> poll_ok v ready st (st_poll api ready st))"

section \<open>The runner\<close>

text \<open>\<open>rn_task\<close>: the task that drives the stream is in its loop. \<open>rn_errors\<close>: the jobs that were refused.\<close>

record ('job, 'st) runner =
  rn_stream :: 'st
  is_disposed :: bool
  rn_task :: bool
  rn_errors :: "'job list"

definition runner_new :: "('job, 'st) stream_api \<Rightarrow> bool \<Rightarrow> usize \<Rightarrow> ('job, 'st) runner outcome" where
  "runner_new api in_local_set max_num_of_parallel_processes =
     (case native_spawn in_local_set () [] of
        Panic \<Rightarrow> Panic
      | Returns _ \<Rightarrow>
          Returns \<lparr>rn_stream = st_new api max_num_of_parallel_processes, is_disposed = False, rn_task = True, rn_errors = []\<rparr>)"

definition runner_add :: "('job, 'st) stream_api \<Rightarrow> 'job \<Rightarrow> ('job, 'st) runner \<Rightarrow> ('job, 'st) runner" where
  "runner_add api f self =
     (case st_send api f (rn_stream self) of
        Some st \<Rightarrow> self\<lparr>rn_stream := st\<rparr>
      | None \<Rightarrow> self\<lparr>rn_errors := rn_errors self @ [f]\<rparr>)"

definition runner_dispose :: "('job, 'st) stream_api \<Rightarrow> ('job, 'st) runner \<Rightarrow> ('job, 'st) runner" where
  "runner_dispose api self = self\<lparr>rn_stream := st_close api (rn_stream self)\<rparr>"

text \<open>One turn of the task's loop, or none when it has ended; with the jobs that were polled.\<close>

definition runner_turn ::
  "('job, 'st) stream_api \<Rightarrow> ('job \<Rightarrow> bool) \<Rightarrow> ('job, 'st) runner \<Rightarrow> ('job, 'st) runner \<times> 'job list \<times> polled" where
  "runner_turn api ready self =
     (if \<not> rn_task self then (self, [], Pending)
      else case st_poll api ready (rn_stream self) of
        (st, jobs, Ended) \<Rightarrow> (self\<lparr>rn_stream := st, rn_task := False, is_disposed := True\<rparr>, jobs, Ended)
      | (st, jobs, res) \<Rightarrow> (self\<lparr>rn_stream := st\<rparr>, jobs, res))"

section \<open>Runs of the runner\<close>

text \<open>
  A runner with its history: the jobs taken, in order; those that have begun, that is, have been
  polled; those that have ended, in the order in which they did; and whether it was disposed of.
\<close>

record ('job, 'st) run =
  rn :: "('job, 'st) runner"
  taken :: "'job list"
  begun :: "'job set"
  ended :: "'job list"
  disposing :: bool

definition run_new :: "('job, 'st) stream_api \<Rightarrow> usize \<Rightarrow> ('job, 'st) run" where
  "run_new api n =
     \<lparr>rn = \<lparr>rn_stream = st_new api n, is_disposed = False, rn_task = True, rn_errors = []\<rparr>,
      taken = [], begun = {}, ended = [], disposing = False\<rparr>"

definition run_add :: "('job, 'st) stream_api \<Rightarrow> 'job \<Rightarrow> ('job, 'st) run \<Rightarrow> ('job, 'st) run" where
  "run_add api f s =
     s\<lparr>rn := runner_add api f (rn s),
       taken := taken s @ (if rn_errors (runner_add api f (rn s)) = rn_errors (rn s) then [f] else [])\<rparr>"

definition run_dispose :: "('job, 'st) stream_api \<Rightarrow> ('job, 'st) run \<Rightarrow> ('job, 'st) run" where
  "run_dispose api s = s\<lparr>rn := runner_dispose api (rn s), disposing := True\<rparr>"

definition run_turn :: "('job, 'st) stream_api \<Rightarrow> ('job \<Rightarrow> bool) \<Rightarrow> ('job, 'st) run \<Rightarrow> ('job, 'st) run" where
  "run_turn api ready s =
     (case runner_turn api ready (rn s) of
        (r, polled, _) \<Rightarrow> s\<lparr>rn := r, begun := begun s \<union> set polled, ended := ended s @ filter ready polled\<rparr>)"

text \<open>A box can be moved into \<open>add\<close> once only; a turn may find any jobs ready.\<close>

inductive run_step :: "('job, 'st) stream_api \<Rightarrow> ('job, 'st) run \<Rightarrow> ('job, 'st) run \<Rightarrow> bool" for api where
  add: "f \<notin> set (taken s) \<union> set (rn_errors (rn s)) \<Longrightarrow> run_step api s (run_add api f s)"
| dispose: "run_step api s (run_dispose api s)"
| turn: "run_step api s (run_turn api ready s)"

section \<open>The invariant of a run\<close>

text \<open>
  The queue of the stream against the history: what has left it has ended; the flags are right; what
  runs is among the first \<open>n\<close>; what has begun at a place has all but the last \<open>n\<close> before it ended.
\<close>

definition history_ok :: "nat \<Rightarrow> ('job \<times> bool) list \<Rightarrow> 'job list \<Rightarrow> 'job set \<Rightarrow> 'job list \<Rightarrow> bool" where
  "history_ok n q ts bs es \<longleftrightarrow>
     distinct ts \<and> distinct es \<and> set es \<subseteq> bs \<and> bs \<subseteq> set ts \<and>
     (\<exists>gone. ts = gone @ map fst q \<and> set gone \<subseteq> set es) \<and>
     (\<forall>(j, e) \<in> set q. e \<longleftrightarrow> j \<in> set es) \<and>
     bs - set es \<subseteq> set (take n (map fst q)) \<and>
     (\<forall>i k. i < length ts \<and> ts ! i \<in> bs \<and> k + n \<le> i \<longrightarrow> ts ! k \<in> set es)"

lemma map_fst_mark [simp]: "map fst (mark_ended es q) = map fst q"
  by (induction q) (auto simp: mark_ended_def)

lemma set_in_progress: "j \<in> set (in_progress n q) \<Longrightarrow> j \<in> set (take (unat n) (map fst q)) \<and> (j, False) \<in> set q"
  by (auto simp: in_progress_def take_map dest: in_set_takeD)

lemma history_new: "history_ok n [] [] {} []"
  by (simp add: history_ok_def)

lemma history_add:
  assumes "history_ok n q ts bs es" "f \<notin> set ts"
  shows "history_ok n (q @ [(f, False)]) (ts @ [f]) bs es"
proof -
  have "(ts @ [f]) ! k \<in> set es" if "i < length (ts @ [f])" "(ts @ [f]) ! i \<in> bs" "k + n \<le> i" for i k
  proof -
    from assms that(2) have "(ts @ [f]) ! i \<noteq> f" by (auto simp: history_ok_def)
    with that(1) have "i < length ts" by (auto simp: nth_append split: if_splits)
    with assms(1) that(2,3) show ?thesis by (auto simp: history_ok_def nth_append)
  qed
  with assms show ?thesis by (auto simp: history_ok_def)
qed

lemma history_polled:
  assumes h: "history_ok (unat w) q ts bs es"
    and p: "distinct ps" "set ps \<subseteq> set (in_progress w q)"
  shows "history_ok (unat w) (mark_ended {j. j \<in> set ps \<and> ready j} q) ts (bs \<union> set ps) (es @ filter ready ps)"
proof -
  let ?n = "unat w" and ?E = "set es \<union> {j. j \<in> set ps \<and> ready j}"
  obtain gone where gone: "ts = gone @ map fst q" "set gone \<subseteq> set es" using h by (auto simp: history_ok_def)
  have run: "j \<in> set (take ?n (map fst q)) \<and> j \<notin> set es \<and> j \<in> set ts" if "j \<in> set ps" for j
  proof -
    from that p(2) have "j \<in> set (in_progress w q)" by blast
    then have q: "j \<in> set (take ?n (map fst q))" "(j, False) \<in> set q" by (simp_all add: set_in_progress)
    from q(2) h have "j \<notin> set es" by (auto simp: history_ok_def)
    with q gone(1) show ?thesis by (auto dest: in_set_takeD)
  qed
  have "ts ! k \<in> set es" if i: "i < length ts" "ts ! i \<in> set ps" and k: "k + ?n \<le> i" for i k
  proof -
    from run [OF i(2)] obtain m where m: "m < ?n" "m < length q" "ts ! i = map fst q ! m"
      by (auto simp: in_set_conv_nth)
    then have "ts ! i = ts ! (length gone + m)" "length gone + m < length ts" by (simp_all add: gone(1))
    with i(1) h have "i = length gone + m" by (simp add: nth_eq_iff_index_eq history_ok_def)
    with m(1) k have "k < length gone" by simp
    with gone show ?thesis by (auto simp: nth_append)
  qed
  moreover have "\<forall>(j, e) \<in> set (mark_ended {j. j \<in> set ps \<and> ready j} q). e \<longleftrightarrow> j \<in> ?E"
    using h by (auto simp: history_ok_def mark_ended_def)
  ultimately show ?thesis
    using h p(1) run gone by (auto simp: history_ok_def)
qed

lemma history_drop:
  assumes "history_ok n ((j, True) # q) ts bs es"
  shows "history_ok n q ts bs es"
proof -
  obtain gone where "ts = gone @ j # map fst q" "set gone \<subseteq> set es" "j \<in> set es"
    using assms by (auto simp: history_ok_def)
  then have "\<exists>gone. ts = gone @ map fst q \<and> set gone \<subseteq> set es" by (intro exI [of _ "gone @ [j]"]) simp
  moreover have "bs - set es \<subseteq> set (take n (map fst q))"
    using assms \<open>j \<in> set es\<close> set_take_subset_set_take [of "n - 1" n "map fst q"]
    by (cases n) (auto simp: history_ok_def)
  ultimately show ?thesis using assms by (auto simp: history_ok_def)
qed

lemma history_bound: "history_ok n q ts bs es \<Longrightarrow> card (bs - set es) \<le> n"
  using card_mono [of "set (take n (map fst q))" "bs - set es"] card_length [of "take n (map fst q)"]
  by (simp add: history_ok_def)

definition run_ok :: "('job, 'st) stream_view \<Rightarrow> usize \<Rightarrow> ('job, 'st) run \<Rightarrow> bool" where
  "run_ok v n s \<longleftrightarrow>
     history_ok (unat n) (v_queue v (rn_stream (rn s))) (taken s) (begun s) (ended s) \<and>
     set (taken s) \<inter> set (rn_errors (rn s)) = {} \<and>
     v_width v (rn_stream (rn s)) = n \<and>
     v_closed v (rn_stream (rn s)) = disposing s \<and>
     is_disposed (rn s) = (\<not> rn_task (rn s)) \<and>
     (is_disposed (rn s) \<longrightarrow> disposing s \<and> v_queue v (rn_stream (rn s)) = [])"

lemma stream_okD:
  assumes "stream_ok api v"
  shows stream_new: "v_queue v (st_new api n) = []" "\<not> v_closed v (st_new api n)" "v_width v (st_new api n) = n"
    and stream_send: "case st_send api j st of None \<Rightarrow> v_closed v st
      | Some st' \<Rightarrow> \<not> v_closed v st \<and> v_queue v st' = v_queue v st @ [(j, False)] \<and> \<not> v_closed v st' \<and>
          v_width v st' = v_width v st"
    and stream_close: "v_queue v (st_close api st) = v_queue v st" "v_closed v (st_close api st)"
      "v_width v (st_close api st) = v_width v st"
    and stream_poll: "distinct (map fst (v_queue v st)) \<Longrightarrow> poll_ok v ready st (st_poll api ready st)"
  using assms unfolding stream_ok_def by blast+

lemma run_ok_new: "stream_ok api v \<Longrightarrow> run_ok v n (run_new api n)"
  by (simp add: run_ok_def run_new_def stream_new history_new)

lemma run_ok_queue: "run_ok v n s \<Longrightarrow> distinct (map fst (v_queue v (rn_stream (rn s))))"
  by (auto simp: run_ok_def history_ok_def)

text \<open>Whether a job is taken.\<close>

lemma run_add_cases:
  assumes "stream_ok api v" "run_ok v n s"
  obtains (refused) "disposing s" "run_add api f s = s\<lparr>rn := (rn s)\<lparr>rn_errors := rn_errors (rn s) @ [f]\<rparr>\<rparr>"
  | (taken) st where "\<not> disposing s" "run_add api f s = s\<lparr>rn := (rn s)\<lparr>rn_stream := st\<rparr>, taken := taken s @ [f]\<rparr>"
      "v_queue v st = v_queue v (rn_stream (rn s)) @ [(f, False)]" "\<not> v_closed v st" "v_width v st = n"
  using assms stream_send [OF assms(1), where j = f and st = "rn_stream (rn s)"] that
  by (cases "st_send api f (rn_stream (rn s))") (auto simp: run_add_def runner_add_def run_ok_def)

lemma run_ok_add:
  assumes "stream_ok api v" "run_ok v n s" "f \<notin> set (taken s) \<union> set (rn_errors (rn s))"
  shows "run_ok v n (run_add api f s)"
  using assms(1,2)
proof (cases rule: run_add_cases [where f = f])
  case refused
  then show ?thesis using assms(2,3) by (auto simp: run_ok_def)
next
  case (taken st)
  then show ?thesis using assms(2,3) by (auto simp: run_ok_def history_add)
qed

lemma run_ok_dispose: "stream_ok api v \<Longrightarrow> run_ok v n s \<Longrightarrow> run_ok v n (run_dispose api s)"
  by (auto simp: run_ok_def run_dispose_def runner_dispose_def stream_close)

text \<open>What a turn does while the task is in its loop.\<close>

lemma run_turn_poll:
  assumes "stream_ok api v" "run_ok v n s" "rn_task (rn s)"
  obtains st polled res where "runner_turn api ready (rn s) =
      ((rn s)\<lparr>rn_stream := st, rn_task := (res \<noteq> Ended), is_disposed := (res = Ended)\<rparr>, polled, res)"
    "poll_ok v ready (rn_stream (rn s)) (st, polled, res)"
proof -
  obtain st polled res where poll: "st_poll api ready (rn_stream (rn s)) = (st, polled, res)" by (rule prod_cases3)
  show thesis
  proof (rule that)
    show "poll_ok v ready (rn_stream (rn s)) (st, polled, res)"
      using stream_poll [OF assms(1) run_ok_queue [OF assms(2)], of ready] by (simp add: poll)
    show "runner_turn api ready (rn s) =
        ((rn s)\<lparr>rn_stream := st, rn_task := (res \<noteq> Ended), is_disposed := (res = Ended)\<rparr>, polled, res)"
      using assms(2,3) by (cases res) (simp_all add: runner_turn_def poll run_ok_def)
  qed
qed

lemma run_ok_turn:
  assumes "stream_ok api v" "run_ok v n s"
  shows "run_ok v n (run_turn api ready s)"
proof (cases "rn_task (rn s)")
  case True
  obtain st polled res where turn: "runner_turn api ready (rn s) =
      ((rn s)\<lparr>rn_stream := st, rn_task := (res \<noteq> Ended), is_disposed := (res = Ended)\<rparr>, polled, res)"
    and poll: "poll_ok v ready (rn_stream (rn s)) (st, polled, res)"
    by (rule run_turn_poll [OF assms True])
  let ?q = "mark_ended {j. j \<in> set polled \<and> ready j} (v_queue v (rn_stream (rn s)))"
  have "history_ok (unat n) ?q (taken s) (begun s \<union> set polled) (ended s @ filter ready polled)"
    using assms(2) poll by (intro history_polled) (auto simp: run_ok_def poll_ok_def Let_def)
  then have "history_ok (unat n) (v_queue v st) (taken s) (begun s \<union> set polled) (ended s @ filter ready polled)"
    using poll by (cases res) (auto simp: poll_ok_def Let_def dest: history_drop)
  then show ?thesis
    using assms(2) True poll by (cases res) (auto simp: run_ok_def run_turn_def turn poll_ok_def Let_def)
next
  case False
  then show ?thesis using assms(2) by (auto simp: run_ok_def run_turn_def runner_turn_def)
qed

lemma run_ok_step: "run_step api s s' \<Longrightarrow> stream_ok api v \<Longrightarrow> run_ok v n s \<Longrightarrow> run_ok v n s'"
  by (induction rule: run_step.induct) (simp_all add: run_ok_add run_ok_dispose run_ok_turn)

interpretation runs: kept_invariant "run_step api" "\<lambda>s. stream_ok api v \<longrightarrow> run_ok v n s"
  for api :: "('job, 'st) stream_api" and v n
  by unfold_locales (auto intro: run_ok_step)

text \<open>When all jobs have ended, the turns hand out what is left of the queue and then end the task.\<close>

lemma turns_dispose:
  assumes "stream_ok api v" "0 < n"
  shows "run_ok v n s \<Longrightarrow> disposing s \<Longrightarrow> set (ended s) = set (taken s) \<Longrightarrow>
    length (v_queue v (rn_stream (rn s))) = m \<Longrightarrow> \<exists>k \<le> Suc m. is_disposed (rn ((run_turn api ready ^^ k) s))"
proof (induction m arbitrary: s)
  case (Suc m)
  obtain j e q where q: "v_queue v (rn_stream (rn s)) = (j, e) # q" "length q = m"
    using Suc.prems(4) by (cases "v_queue v (rn_stream (rn s))") auto
  have all: "e" if "(j, e) \<in> set (v_queue v (rn_stream (rn s)))" for j e
  proof -
    from Suc.prems(1) have h: "history_ok (unat n) (v_queue v (rn_stream (rn s))) (taken s) (begun s) (ended s)"
      by (simp add: run_ok_def)
    from that have "j \<in> set (map fst (v_queue v (rn_stream (rn s))))" by force
    moreover from h obtain gone where "taken s = gone @ map fst (v_queue v (rn_stream (rn s)))"
      by (auto simp: history_ok_def)
    ultimately have "j \<in> set (taken s)" by simp
    with h that Suc.prems(3) show e by (auto simp: history_ok_def)
  qed
  then have none: "in_progress w (v_queue v (rn_stream (rn s))) = []" for w
    by (auto simp: in_progress_def filter_empty_conv dest: in_set_takeD)
  have task: "rn_task (rn s)" using Suc.prems(1) q by (auto simp: run_ok_def)
  obtain st polled res where turn: "runner_turn api ready (rn s) =
      ((rn s)\<lparr>rn_stream := st, rn_task := (res \<noteq> Ended), is_disposed := (res = Ended)\<rparr>, polled, res)"
    and poll: "poll_ok v ready (rn_stream (rn s)) (st, polled, res)"
    by (rule run_turn_poll [OF assms(1) Suc.prems(1) task])
  from all [of j e] q have "e" by simp
  with poll none q have "polled = []" "v_queue v st = q"
    by (cases res; simp add: poll_ok_def mark_ended_def Let_def)+
  then have "\<exists>k \<le> Suc m. is_disposed (rn ((run_turn api ready ^^ k) (run_turn api ready s)))"
    using Suc.prems q by (intro Suc.IH run_ok_turn assms) (simp_all add: run_turn_def turn)
  then obtain k where "k \<le> Suc m" "is_disposed (rn ((run_turn api ready ^^ Suc k) s))"
    by (auto simp: funpow_swap1)
  then show ?case by (intro exI [of _ "Suc k"]) simp
next
  case 0
  show ?case
  proof (cases "rn_task (rn s)")
    case True
    obtain st polled res where turn: "runner_turn api ready (rn s) =
        ((rn s)\<lparr>rn_stream := st, rn_task := (res \<noteq> Ended), is_disposed := (res = Ended)\<rparr>, polled, res)"
      and poll: "poll_ok v ready (rn_stream (rn s)) (st, polled, res)"
      by (rule run_turn_poll [OF assms(1) 0(1) True])
    from poll 0 assms(2) have "res = Ended"
      by (cases res) (auto simp: poll_ok_def mark_ended_def run_ok_def)
    then show ?thesis by (intro exI [of _ 1]) (simp add: run_turn_def turn)
  next
    case False
    then show ?thesis using 0(1) by (intro exI [of _ 0]) (simp add: run_ok_def)
  qed
qed

section \<open>Properties\<close>

text \<open>
  Property C34. Whatever is added, and whichever of the jobs end when, each job is begun and ended once at most,
  no more than the configured number are begun and not ended, and a job begins only when all taken that many
  places before it have ended; in between they may end in any order. A runner that was disposed of
  refuses jobs, which then never begin. It is marked as disposed only after that, when all the jobs it
  has taken have ended, and once they have, within one turn for each of them and one more.
\<close>

theorem jobs_are_throttled:
  assumes stream: "stream_ok api v" and reach: "(run_step api)\<^sup>*\<^sup>* (run_new api n) s"
  shows "distinct (ended s) \<and> set (ended s) \<subseteq> begun s \<and> begun s \<subseteq> set (taken s) \<and>
    card (begun s - set (ended s)) \<le> unat n \<and>
    (\<forall>i k. i < length (taken s) \<and> taken s ! i \<in> begun s \<and> k + unat n \<le> i \<longrightarrow> taken s ! k \<in> set (ended s)) \<and>
    begun s \<inter> set (rn_errors (rn s)) = {} \<and>
    (is_disposed (rn s) \<longrightarrow> disposing s \<and> set (ended s) = set (taken s)) \<and>
    (disposing s \<and> set (ended s) = set (taken s) \<and> 0 < n \<longrightarrow>
      (\<exists>k \<le> Suc (length (taken s)). is_disposed (rn ((run_turn api ready ^^ k) s)))) \<and>
    taken (run_add api f s) = taken s @ (if disposing s then [] else [f]) \<and>
    rn_errors (rn (run_add api f s)) = rn_errors (rn s) @ (if disposing s then [f] else [])"
proof (intro conjI)
  have ok: "run_ok v n s" using runs.kept_reachable [OF reach] run_ok_new [OF stream] stream by blast
  then have h: "history_ok (unat n) (v_queue v (rn_stream (rn s))) (taken s) (begun s) (ended s)"
    by (simp add: run_ok_def)
  then show "distinct (ended s)" "set (ended s) \<subseteq> begun s" and sub: "begun s \<subseteq> set (taken s)"
    and "card (begun s - set (ended s)) \<le> unat n"
    and "\<forall>i k. i < length (taken s) \<and> taken s ! i \<in> begun s \<and> k + unat n \<le> i \<longrightarrow> taken s ! k \<in> set (ended s)"
    by (simp_all add: history_bound) (auto simp: history_ok_def)
  show "begun s \<inter> set (rn_errors (rn s)) = {}" using ok sub by (auto simp: run_ok_def)
  show "is_disposed (rn s) \<longrightarrow> disposing s \<and> set (ended s) = set (taken s)"
    using ok by (auto simp: run_ok_def history_ok_def)
  have len: "length (v_queue v (rn_stream (rn s))) \<le> length (taken s)"
    using h by (auto simp: history_ok_def)
  then show "disposing s \<and> set (ended s) = set (taken s) \<and> 0 < n \<longrightarrow>
      (\<exists>k \<le> Suc (length (taken s)). is_disposed (rn ((run_turn api ready ^^ k) s)))"
    using turns_dispose [OF stream _ ok _ _ refl, of ready] by (meson Suc_le_mono le_trans)
  from stream ok show "taken (run_add api f s) = taken s @ (if disposing s then [] else [f])"
    by (cases rule: run_add_cases [where f = f]) auto
  from stream ok show "rn_errors (rn (run_add api f s)) = rn_errors (rn s) @ (if disposing s then [f] else [])"
    by (cases rule: run_add_cases [where f = f]) auto
qed

text \<open>A stream of lists, as an instance: width, queue and whether it is closed. It polls all it may.\<close>

type_synonym list_stream = "usize \<times> (nat \<times> bool) list \<times> bool"

definition list_stream :: "(nat, list_stream) stream_api" where
  "list_stream =
     \<lparr>st_new = \<lambda>n. (n, [], False),
      st_send = \<lambda>j (n, q, c). if c then None else Some (n, q @ [(j, False)], False),
      st_close = \<lambda>(n, q, _). (n, q, True),
      st_poll = \<lambda>ready (n, q, c).
        let polled = in_progress n q; q' = mark_ended (set (filter ready polled)) q
        in case q' of
             [] \<Rightarrow> ((n, [], c), polled, if c then Ended else Pending)
           | (_, e) # rest \<Rightarrow> if e then ((n, rest, c), polled, Item) else ((n, q', c), polled, Pending)\<rparr>"

definition list_view :: "(nat, list_stream) stream_view" where
  "list_view = \<lparr>v_queue = \<lambda>(_, q, _). q, v_closed = \<lambda>(_, _, c). c, v_width = \<lambda>(n, _, _). n\<rparr>"

lemma in_progress_distinct: "distinct (map fst q) \<Longrightarrow> distinct (in_progress n q)"
  unfolding in_progress_def by (metis distinct_map_filter distinct_take take_map)

lemma list_stream_ok: "stream_ok list_stream list_view"
  unfolding stream_ok_def
proof (intro conjI allI impI)
  fix ready and st :: list_stream
  assume d: "distinct (map fst (v_queue list_view st))"
  obtain n q c where st: "st = (n, q, c)" by (rule prod_cases3)
  from d have d': "distinct (in_progress n q)" by (simp add: in_progress_distinct list_view_def st)
  show "poll_ok list_view ready st (st_poll list_stream ready st)"
  proof (cases q)
    case Nil
    then show ?thesis by (simp add: poll_ok_def list_stream_def list_view_def st mark_ended_def in_progress_def)
  next
    case (Cons x rest)
    then show ?thesis using d'
      by (cases "snd x \<or> fst x \<in> set (in_progress n q) \<and> ready (fst x)")
        (simp_all add: poll_ok_def list_stream_def list_view_def st mark_ended_def Let_def case_prod_unfold)
  qed
qed (auto simp: list_stream_def list_view_def)

text \<open>Three jobs, two at a time: 8 ends before 7 does, and 9 has to wait.\<close>

definition example_run :: "(nat, list_stream) run" where
  "example_run = run_turn list_stream (\<lambda>j. j = 8) (run_add list_stream 9 (run_add list_stream 8
     (run_add list_stream 7 (run_new list_stream 2))))"

theorem jobs_are_throttled_witness:
  "ended example_run = [8] \<and> begun example_run = {7, 8} \<and> card (begun example_run - set (ended example_run)) \<le> 2 \<and>
   (let s = run_turn list_stream (\<lambda>_. True) (run_turn list_stream (\<lambda>_. True) (run_dispose list_stream example_run))
    in ended s = [8, 7, 9] \<and> \<not> is_disposed (rn s) \<and> (\<exists>k \<le> 4. is_disposed (rn ((run_turn list_stream (\<lambda>_. True) ^^ k) s))) \<and>
       taken (run_add list_stream 5 s) = [7, 8, 9])"
proof -
  let ?s = "run_turn list_stream (\<lambda>_. True) (run_turn list_stream (\<lambda>_. True) (run_dispose list_stream example_run))"
  let ?a = "run_add list_stream 7 (run_new list_stream 2)"
  let ?b = "run_add list_stream 8 ?a"
  let ?c = "run_add list_stream 9 ?b"
  have "run_step list_stream (run_new list_stream 2) ?a" "run_step list_stream ?a ?b" "run_step list_stream ?b ?c"
    by (rule run_step.add, code_simp)+
  moreover have "run_step list_stream ?c example_run" unfolding example_run_def by (rule run_step.turn)
  ultimately have "(run_step list_stream)\<^sup>*\<^sup>* (run_new list_stream 2) example_run"
    by (meson rtranclp.rtrancl_into_rtrancl r_into_rtranclp)
  moreover from this have "(run_step list_stream)\<^sup>*\<^sup>* (run_new list_stream 2) ?s"
    by (meson rtranclp.rtrancl_into_rtrancl run_step.dispose run_step.turn)
  moreover have "ended example_run = [8]" "begun example_run = {7, 8}"
    "ended ?s = [8, 7, 9]" "taken ?s = [7, 8, 9]" "disposing ?s" "\<not> is_disposed (rn ?s)"
    by code_simp+
  ultimately show ?thesis
    using jobs_are_throttled [OF list_stream_ok, of 2 example_run]
      jobs_are_throttled [OF list_stream_ok, of 2 ?s "\<lambda>_. True" 5] by (auto simp: Let_def numeral_eq_Suc)
qed

end
