(* ===== verification/Routing_Tests.thy ===== *)
theory Routing_Tests
  imports Proto_Messages
begin

text \<open>
  The repository's own unit tests of the routing information (\<open>proto/src/routing_info_ex.rs\<close>) and of the
  messages (\<open>proto/src/lib.rs\<close>), as propositions about the model. That the model passes them is evidence
  that it is the program's, of the one kind that the program's authors wrote down.
\<close>

section \<open>Trees\<close>

definition get_sid :: "u8 \<Rightarrow> bytes" where
  "get_sid n = n # replicate 31 0"

definition gs :: "u64 \<Rightarrow> u64 \<Rightarrow> gateway_state" where
  "gs c d = \<lparr>last_connect_time = c, last_disconnect_time = d\<rparr>"

definition node_of :: "node_type \<Rightarrow> bytes option \<Rightarrow> gateway_state option \<Rightarrow> routing_info list option \<Rightarrow> routing_info" where
  "node_of t i g infos = RoutingInfo (node_type_to_i32 t) i None g (map_option RoutingInfos infos) [] False"

definition create_test_tree :: routing_info where
  "create_test_tree =
     node_of Normal None (Some (gs 1 0)) (Some
       [node_of Normal (Some (get_sid 2)) (Some (gs 2 0)) (Some
          [node_of Normal (Some (get_sid 3)) (Some (gs 3 0)) None,
           node_of Normal (Some (get_sid 4)) (Some (gs 4 0)) None]),
        node_of Normal (Some (get_sid 5)) (Some (gs 13 0)) (Some
          [node_of Normal (Some (get_sid 14)) (Some (gs 14 0)) None,
           node_of Normal (Some (get_sid 15)) (Some (gs 15 0)) None])])"

definition connect_time :: "routing_info \<Rightarrow> u64" where
  "connect_time v = last_connect_time (the (ri_gateway_state v))"

definition test_recursive_iter :: bool where
  "test_recursive_iter \<longleftrightarrow> map connect_time (recursive_iter [create_test_tree]) = [1, 2, 13, 3, 4, 14, 15]"

definition count_if :: "(routing_info \<Rightarrow> bool) \<Rightarrow> nat \<Rightarrow> routing_info \<Rightarrow> nat" where
  "count_if p acc v = (if p v then acc + 1 else acc)"

definition test_fold :: bool where
  "test_fold \<longleftrightarrow>
     ri_fold create_test_tree 0 (count_if (\<lambda>v. connect_time v mod 2 = 1)) = 4 \<and>
     ri_fold create_test_tree 0 (count_if (\<lambda>v. connect_time v mod 2 = 0)) = 3 \<and>
     ri_fold create_test_tree 0 (\<lambda>acc _. acc + 1) = (7 :: nat) \<and>
     ri_fold create_test_tree 0 (\<lambda>acc v. acc + connect_time v) = 52"

text \<open>The iterator of a slice or a vector starts with all its trees.\<close>

definition test_recursive_iter_1 :: bool where
  "test_recursive_iter_1 \<longleftrightarrow>
     foldl (count_if (\<lambda>v. connect_time v mod 2 = 1)) 0 (recursive_iter [create_test_tree]) = 4 \<and>
     foldl (count_if (\<lambda>v. connect_time v mod 2 = 0)) 0 (recursive_iter [create_test_tree]) = 3"

definition test_recursive_iter_2 :: bool where
  "test_recursive_iter_2 \<longleftrightarrow>
     foldl (count_if (\<lambda>v. connect_time v mod 2 = 1)) 0 (recursive_iter [create_test_tree, create_test_tree]) = 8"

definition test_recursive_iter_with_depth :: bool where
  "test_recursive_iter_with_depth \<longleftrightarrow>
     (let tree = [create_test_tree, create_test_tree];
          items = iter_collect_with_depth (recursive_iter_with_depth tree);
          sids = (\<lambda>ns. map (\<lambda>n. Some (get_sid n)) ns)
      in map snd (take 2 items) = [0, 0] \<and>
         map (ri_session_id \<circ> fst) (drop 2 items) = sids ([2, 5, 2, 5] @ [3, 4, 14, 15] @ [3, 4, 14, 15]) \<and>
         map snd (drop 2 items) = replicate 4 1 @ replicate 8 2)"

lemma iterator_tests: "test_recursive_iter" "test_fold" "test_recursive_iter_1" "test_recursive_iter_2"
  "test_recursive_iter_with_depth"
  by code_simp+

section \<open>The gateway directory\<close>

definition ttl_of :: "session_id_with_ttl list \<Rightarrow> u8 \<Rightarrow> u32 option" where
  "ttl_of res n = map_option sw_ttl (List.find (\<lambda>v. sw_session_id v ! 0 = n) res)"

definition tracker_test_nodes :: "routing_info list" where
  "tracker_test_nodes =
     (let known = [\<lparr>sw_session_id = [2], sw_ttl = 3\<rparr>, \<lparr>sw_session_id = [3], sw_ttl = 2\<rparr>] in
      [RoutingInfo (node_type_to_i32 Gateway) (Some [1]) None None None known False,
       RoutingInfo (node_type_to_i32 Tracker) (Some [1]) None None
         (Some (RoutingInfos [node_of Gateway (Some (get_sid 100)) None None, node_of Gateway (Some (get_sid 101)) None None]))
         known False])"

definition test_get_known_gateway_session_ids :: bool where
  "test_get_known_gateway_session_ids \<longleftrightarrow>
     (let res = get_known_gateway_session_ids gateway_fixture;
          nxt = get_known_gateway_session_ids_next_ttl gateway_fixture;
          tr = get_known_gateway_session_ids tracker_test_nodes
      in length res = 4 \<and> ttl_of res 1 = Some INITIAL_TTL \<and> ttl_of res 2 = Some INITIAL_TTL \<and> ttl_of res 3 = Some 1 \<and>
         ttl_of res 4 = Some INITIAL_TTL \<and>
         length nxt = 3 \<and> ttl_of nxt 1 = Some (INITIAL_TTL - 1) \<and> ttl_of nxt 2 = Some (INITIAL_TTL - 1) \<and>
         ttl_of nxt 4 = Some (INITIAL_TTL - 1) \<and>
         length tr = 2 \<and> ttl_of tr 100 = Some INITIAL_TTL \<and> ttl_of tr 101 = Some INITIAL_TTL)"

lemma gateway_tests: "test_get_known_gateway_session_ids"
  by code_simp

section \<open>Accessors\<close>

definition test_is_known :: bool where
  "test_is_known \<longleftrightarrow>
     (let tree = [create_test_tree] in
      is_known tree (get_sid 2) \<and> is_known tree (get_sid 5) \<and> is_known tree (get_sid 3) \<and>
      \<not> is_known tree (get_sid 10) \<and> \<not> is_known tree (get_sid 0)) \<and>
     is_known [node_of Gateway (Some (get_sid 1)) None None] (get_sid 1)"

text \<open>\<open>1.0\<close>, \<open>2.0\<close> and \<open>3.0\<close> as bit patterns of a double, a single and a double.\<close>

definition test_position :: position3d where
  "test_position = from_xyz 0x3FF0000000000000 0x40000000 0x4008000000000000"

definition test_add_known :: bool where
  "test_add_known \<longleftrightarrow>
     (let f = \<lambda>session_id ttl. \<lparr>sw_session_id = session_id, sw_ttl = ttl\<rparr>;
          tree = RoutingInfo (node_type_to_i32 Normal) (Some (get_sid 1)) (Some test_position) (Some (gs 4 0)) None [f [2] 1] False;
          tree2 = add_known tree (get_sid 2);
          tree3 = add_known tree2 (get_sid 10)
      in is_known [tree] (get_sid 1) \<and> \<not> is_known [tree] (get_sid 2) \<and> \<not> is_known [tree] (get_sid 3) \<and>
         is_known [tree2] (get_sid 2) \<and> is_known [tree3] (get_sid 10) \<and>
         ri_session_id tree3 = Some (get_sid 1) \<and> ri_node_type_of tree3 = Normal \<and>
         ri_position tree3 = Some test_position \<and> connect_time tree3 = 4 \<and> ri_known tree3 = [f [2] 1])"

definition test_to_send_data :: bool where
  "test_to_send_data \<longleftrightarrow>
     (let tree0 = default_routing_info;
          tree1 = add_known tree0 (get_sid 2);
          tree2 = add_known tree1 (get_sid 10);
          tree3 = to_send_data tree2 0;
          sent1 = the (get_relations (to_send_data create_test_tree 1)) ! 0;
          sent2 = the (get_relations (to_send_data create_test_tree 2)) ! 0
      in get_relation_count tree0 = 0 \<and> ri_relation tree0 = None \<and> get_relation_count tree1 = 1 \<and>
         get_relation_count tree2 = 2 \<and> has_routing_infos tree2 \<and> \<not> has_count tree2 \<and>
         get_relation_count tree3 = 2 \<and> \<not> has_routing_infos tree3 \<and> has_count tree3 \<and>
         get_relation_count sent1 = 2 \<and> \<not> has_routing_infos sent1 \<and>
         get_relation_count sent2 = 2 \<and> has_routing_infos sent2)"

definition test_relation :: bool where
  "test_relation \<longleftrightarrow>
     (let tree = set_relations default_routing_info
            [node_of Gateway (Some [1]) None None, node_of Gateway (Some [2]) None None];
          ar = the (get_relations tree)
      in ri_session_id (ar ! 0) = Some [1] \<and> ri_session_id (ar ! 1) = Some [2])"

definition test_get_min_depth :: bool where
  "test_get_min_depth \<longleftrightarrow>
     (let n = \<lambda>i infos. node_of Unspecified (Some (get_sid i)) None infos;
          tree = n 0 (Some
            [n 2 (Some [n 2 None, n 3 (Some [n 1 None])]),
             n 3 (Some [n 1 None])])
      in get_min_depth [tree] (get_sid 1) = Some 2)"

lemma accessor_tests: "test_is_known" "test_add_known" "test_to_send_data" "test_relation" "test_get_min_depth"
  by code_simp+

section \<open>Messages\<close>

definition test_position3d :: bool where
  "test_position3d \<longleftrightarrow>
     (let v0 = test_position; v1 = \<lparr>pos_x = 0, pos_y = 0, pos_z = 0\<rparr>
      in pos_x v0 = 0x3FF0000000000000 \<and> pos_y v0 = 0x40000000 \<and> pos_z v0 = 0x4008000000000000 \<and>
         v0 \<noteq> v1 \<and> copy_from v1 v0 = v0)"

definition test_rpcpacket :: bool where
  "test_rpcpacket \<longleftrightarrow>
     (let v0 = \<lparr>rp_data = None, is_compressed = False\<rparr>;
          v1 = set_request v0 \<lparr>rpc_id = 1, rpc_param = []\<rparr>;
          v2 = set_response v1 \<lparr>rpc_id = 2, rpc_param = []\<rparr>
      in (case rp_data v1 of Some (Request req) \<Rightarrow> rpc_id req = 1 | _ \<Rightarrow> False) \<and>
         (case rp_data v2 of Some (Response req) \<Rightarrow> rpc_id req = 2 | _ \<Rightarrow> False))"

definition test_signaling :: bool where
  "test_signaling \<longleftrightarrow> set_encrypted_payload None [1, 2, 3] = Some (EncryptedPayload [1, 2, 3])"

definition test_swarm :: bool where
  "test_swarm \<longleftrightarrow>
     (let v = default_routing_info; v' = set_count v 10
      in \<not> has_count v \<and> has_count v' \<and> get_relation_count v' = 10 \<and> \<not> has_routing_infos v')"

definition test_ss :: "sid_api \<Rightarrow> bool" where
  "test_ss api \<longleftrightarrow>
     (let ss = \<lambda>m n. \<lparr>from_session_id = [], signature_bytes = replicate m 1, salt_bytes = replicate n 2\<rparr>;
          good = ss (SIGNATURE_SIZE api) (SIGNATURE_SALT_SIZE api)
      in signature_try_from api good = Ok (signature_bytes good, salt_bytes good) \<and>
         signature_try_from api (ss (SIGNATURE_SIZE api - 1) (SIGNATURE_SALT_SIZE api)) = Err SignatureConvert \<and>
         signature_try_from api (ss (SIGNATURE_SIZE api) (SIGNATURE_SALT_SIZE api - 1)) = Err SignatureConvert)"

lemma message_tests: "test_position3d" "test_rpcpacket" "test_signaling" "test_swarm"
  by code_simp+

lemma signature_test: "0 < SIGNATURE_SIZE api \<Longrightarrow> 0 < SIGNATURE_SALT_SIZE api \<Longrightarrow> test_ss api"
  by (simp add: test_ss_def signature_try_from_def Let_def) arith

end
