(* ===== verification/Server_Tests.thy ===== *)
theory Server_Tests
  imports Routing_Tests Server_State Request_Types Common_Tools Signal_Future Throttle_Runner
begin

text \<open>
  The unit tests of the crates \<open>cluster\<close>, \<open>common\<close> and \<open>hubserv\<close>, as propositions about the model, like
  those of Routing_Tests. What a test calls of another crate is a parameter of the proposition, or the
  instance that the witnesses use. Not translated are tests that ask a real service and the part of
  \<open>test_clients\<close> on how evenly the worlds are spread.
\<close>

section \<open>Servers of a cluster\<close>

text \<open>\<open>cluster/src/client.rs\<close>.\<close>

definition test_client :: bool where
  "test_client \<longleftrightarrow>
     (let client0 = client_new ''node0'' ''all''
      in get_node_list client0 = None \<and> \<not> is_my_work client0 ''a'' \<and> can_redirect client0 ''all'' \<and>
         \<not> can_redirect client0 ''node0'')"

definition test_node :: "nat \<Rightarrow> string" where
  "test_node i = ''node'' @ show_nat i"

definition test_clients :: "string list \<Rightarrow> bool" where
  "test_clients requests \<longleftrightarrow>
     (let data = \<lparr>nodes = map (\<lambda>i. \<lparr>host = test_node i\<rparr>) [0..<10]\<rparr>;
          clients = map (\<lambda>i. set_node_list (client_new (test_node i) ''all'') data) [0..<10]
      in length (filter (\<lambda>(n, c). is_my_work c n) (List.product requests clients)) = length requests)"

text \<open>\<open>cluster/src/func.rs\<close>.\<close>

definition test_get_node_host :: "xof \<Rightarrow> hex_encoder \<Rightarrow> bool" where
  "test_get_node_host shake hexenc \<longleftrightarrow>
     get_node_host shake hexenc ''1.2.3.4'' ''verseengine.cloud'' = ''76f67dfc1573f0e7.verseengine.cloud'' \<and>
     get_node_host shake hexenc ''1.2.3.4'' ''entrance.verseengine.cloud'' = ''entrance-76f67dfc1573f0e7.verseengine.cloud''"

definition test_split_host :: bool where
  "test_split_host \<longleftrightarrow>
     split_host ''verseengine.cloud'' = ('''', ''verseengine.cloud'') \<and>
     split_host ''entrance.verseengine.cloud'' = (''entrance'', ''verseengine.cloud'') \<and>
     split_host ''entrance.a.verseengine.cloud'' = (''entrance'', ''a.verseengine.cloud'')"

text \<open>\<open>cluster/src/manager.rs\<close>.\<close>

definition test_split_records :: bool where
  "test_split_records \<longleftrightarrow>
     (let r = \<lambda>i n. \<lparr>cf_id = i, cf_name = n, cf_ip = ''1.2.3.4''\<rparr>;
          records =
            [r ''1'' ''entrance.verseengine.cloud'', r ''2'' ''entrance-1111111111111111.verseengine.cloud'',
             r ''3'' ''entrance-1111111111111112.verseengine.cloud'', r ''4'' ''entrance-1.verseengine.cloud''];
          groups = split_records records ''entrance'' ''verseengine.cloud'' ''entrance.verseengine.cloud''
      in map cf_id (cluster_records groups) = [''1''] \<and> map cf_id (single_records groups) = [''2'', ''3''])"

definition test_diff_records :: bool where
  "test_diff_records \<longleftrightarrow>
     (let records =
            [\<lparr>cf_id = ''1'', cf_name = ''entrance.verseengine.cloud'', cf_ip = ''1.1.1.0''\<rparr>,
             \<lparr>cf_id = ''2'', cf_name = ''entrance.verseengine.cloud'', cf_ip = ''1.1.1.1''\<rparr>];
          d1 = diff_records [] [''1.1.1.0''];
          d2 = diff_records records [];
          d3 = diff_records records [''1.1.1.1'', ''1.1.1.2'']
      in dels d1 = [] \<and> adds d1 = [''1.1.1.0''] \<and> adds d2 = [] \<and> length (dels d2) = 2 \<and>
         adds d3 = [''1.1.1.2''] \<and> map cf_id (dels d3) = [''1''])"

lemma cluster_tests: "test_client" "test_split_host" "test_split_records" "test_diff_records"
  by code_simp+

lemma node_host_test:
  assumes "get_node_id shake hexenc ''1.2.3.4'' = ''76f67dfc1573f0e7''"
  shows "test_get_node_host shake hexenc"
proof -
  have "split_host ''verseengine.cloud'' = ('''', ''verseengine.cloud'')"
    "split_host ''entrance.verseengine.cloud'' = (''entrance'', ''verseengine.cloud'')"
    using cluster_tests(2) by (simp_all add: test_split_host_def)
  with assms show ?thesis by (simp add: test_get_node_host_def get_node_host_def)
qed

lemma clients_test: "test_clients requests"
proof -
  let ?data = "\<lparr>nodes = map (\<lambda>i. \<lparr>host = test_node i\<rparr>) [0..<10]\<rparr>"
  let ?client = "\<lambda>i. set_node_list (client_new (test_node i) ''all'') ?data"
  have names: "test_node i = test_node j \<longleftrightarrow> i = j" if "i < 10" "j < 10" for i j
  proof -
    have "char_of (48 + i) = (char_of (48 + j) :: char) \<longleftrightarrow> i = j"
    proof -
      have "of_char (char_of (48 + k) :: char) = 48 + k" if "k < 10" for k :: nat using that by simp
      then show ?thesis using that by (metis add_left_cancel)
    qed
    with that show ?thesis by (simp add: test_node_def show_nat.simps digit_char_def)
  qed
  have one: "length (filter (\<lambda>c. is_my_work c n) (map ?client [0..<10])) = 1" for n
  proof -
    let ?k = "unat (to_hash n) mod 10"
    have "is_my_work (?client i) n \<longleftrightarrow> i = ?k" if "i \<in> set [0..<10]" for i
      using that names [of ?k i] by (auto simp: client_defs)
    then have "filter (\<lambda>i. is_my_work (?client i) n) [0..<10] = filter (\<lambda>i. i = ?k) [0..<10]" by (rule filter_cong [OF refl])
    also have "length \<dots> = card ({i. i = ?k} \<inter> set [0..<10])" by (rule distinct_length_filter) simp
    also have "{i. i = ?k} \<inter> set [0..<10] = {?k}" by auto
    finally show ?thesis by (simp add: filter_map comp_def)
  qed
  have "length (filter (\<lambda>(n, c). is_my_work c n) (List.product requests (map ?client [0..<10]))) = length requests"
  proof (induction requests)
    case (Cons n ns)
    have "filter (\<lambda>(n, c). is_my_work c n) (map (Pair n) xs) = map (Pair n) (filter (\<lambda>c. is_my_work c n) xs)" for xs
      by (induction xs) simp_all
    with one [of n] Cons.IH show ?case by (simp add: comp_def)
  qed simp
  then show ?thesis by (simp only: test_clients_def Let_def)
qed

section \<open>Tools\<close>

text \<open>\<open>common/src/time.rs\<close>, \<open>prelude.rs\<close>, \<open>with_log.rs\<close> and \<open>compress.rs\<close>.\<close>

definition test_is_expired :: bool where
  "test_is_expired \<longleftrightarrow> is_expired 100 90 10 \<and> \<not> is_expired 99 90 10 \<and> is_expired 101 90 10"

definition test_mock :: "u64 \<Rightarrow> bool" where
  "test_mock real \<longleftrightarrow>
     (let cell = 0; set = set_mock_now 10000 cell; cleared = clear_mock_now set
      in mock_now_msec real cell \<noteq> 0 \<and> mock_now_sec real cell \<noteq> 0 \<and>
         mock_now_msec real set = 10000 \<and> mock_now_sec real set = 10 \<and>
         mock_now_msec real cleared \<noteq> 10000 \<and> mock_now_sec real cleared \<noteq> 10)"

definition test_url_join :: bool where
  "test_url_join \<longleftrightarrow>
     url_join ''example.com'' ''hello'' = ''example.com/hello'' \<and>
     url_join ''example.com/'' ''/hello'' = ''example.com/hello'' \<and>
     url_join ''example.com/'' ''hello'' = ''example.com/hello'' \<and>
     url_join ''example.com'' ''/hello'' = ''example.com/hello''"

definition raise_error_fn :: "bool \<Rightarrow> string \<Rightarrow> string + unit" where
  "raise_error_fn is_success err = (if \<not> is_success then Err err else Ok ())"

definition test_with_log :: bool where
  "test_with_log \<longleftrightarrow>
     if_err LTrace LTrace ''errtrace'' id (raise_error_fn True '''') = [] \<and>
     if_err LTrace LTrace ''errtrace'' id (raise_error_fn False ''raise'') = [(LTrace, ''result failed: errtrace raise'')] \<and>
     if_err LTrace LDebug ''errdebug'' id (raise_error_fn True '''') = [] \<and>
     if_err LTrace LDebug ''errdebug'' id (raise_error_fn False ''raise'') = [(LDebug, ''result failed: errdebug raise'')] \<and>
     if_err LTrace LInfo ''errinfo'' id (raise_error_fn True '''') = [] \<and>
     if_err LTrace LInfo ''errinfo'' id (raise_error_fn False ''raise'') = [(LInfo, ''result failed: errinfo raise'')] \<and>
     if_err LTrace LWarn ''errwarn'' id (raise_error_fn True '''') = [] \<and>
     if_err LTrace LWarn ''errwarn'' id (raise_error_fn False ''raise1'') = [(LWarn, ''result failed: errwarn raise1'')] \<and>
     if_err LTrace LError ''errerror'' id (raise_error_fn True '''') = [] \<and>
     if_err LTrace LError ''errerror'' id (raise_error_fn False ''raise2'') = [(LError, ''result failed: errerror raise2'')]"

definition test_brotli :: "codec \<Rightarrow> bool" where
  "test_brotli c \<longleftrightarrow>
     (let short = replicate (MIN_LENGTH - 1) 1; src = replicate MIN_LENGTH 1
      in compress_if_needed c short = Ok None \<and>
         (case compress_if_needed c src of Inr (Some res) \<Rightarrow> src \<noteq> res \<and> decompress c res = Ok src | _ \<Rightarrow> False))"

text \<open>\<open>common/src/signal_future.rs\<close>: the order of the steps is that of the sleeps in the tests.\<close>

definition test_resolve :: bool where
  "test_resolve \<longleftrightarrow>
     (let asleep = poll_store 1 (poll_check waiting_new) :: (bool, bool) waiting;
          resolved = finish_sf (Ok True) asleep
      in phase asleep = Asleep \<and> notified resolved \<and>
         phase (poll_check (resolved\<lparr>phase := Runnable\<rparr>)) = Got (Ok True))"

definition test_reject :: bool where
  "test_reject \<longleftrightarrow>
     (let asleep = poll_store 1 (poll_check waiting_new) :: (bool, bool) waiting;
          rejected = finish_sf (Err True) asleep
      in notified rejected \<and> phase (poll_check (rejected\<lparr>phase := Runnable\<rparr>)) = Got (Err True))"

definition test_timeout :: bool where
  "test_timeout \<longleftrightarrow>
     (let sf = pass_time 1000 (set_timeout 1000 ''timeout error'' waiting_new) :: (bool, string) waiting
      in map fst (timers sf) = [clock sf] \<and>
         phase (poll_check (pass_time 1000 (fire_timer 0 sf))) = Got (Err ''timeout error''))"

text \<open>Two tests finish a future that nobody waits for; no task is woken, and the result stays.\<close>

definition test_resolve_no_await :: bool where
  "test_resolve_no_await \<longleftrightarrow>
     (let sf = pass_time 1000 (finish_sf (Ok True) waiting_new) :: (bool, bool) waiting
      in \<not> notified sf \<and> sf_result (cell sf) = Some (Ok True))"

definition test_reject_no_await :: bool where
  "test_reject_no_await \<longleftrightarrow>
     (let sf = pass_time 1000 (finish_sf (Err True) waiting_new) :: (bool, bool) waiting
      in \<not> notified sf \<and> sf_result (cell sf) = Some (Err True))"

lemma future_tests: "test_resolve" "test_reject" "test_timeout" "test_resolve_no_await" "test_reject_no_await"
  by code_simp+

text \<open>
  \<open>common/src/throttle_job_runner.rs\<close>. The jobs of the tests send a number, sleep and send another one;
  time goes by in steps of 100 milliseconds, and in each the task's loop turns until it has to wait.
\<close>

record 'st job_test =
  jt_runner :: "(nat, 'st) runner"
  jt_clock :: int
  jt_started :: "int option list"
  jt_output :: "nat list"

type_synonym test_jobs = "(nat \<times> int \<times> nat) list"

definition job_due :: "test_jobs \<Rightarrow> 'st job_test \<Rightarrow> nat \<Rightarrow> bool" where
  "job_due jobs t j = (case jt_started t ! j of None \<Rightarrow> False | Some since \<Rightarrow> since + fst (snd (jobs ! j)) \<le> jt_clock t)"

definition job_polled :: "test_jobs \<Rightarrow> 'st job_test \<Rightarrow> nat \<Rightarrow> 'st job_test" where
  "job_polled jobs t j =
     (case jobs ! j of (first, _, second) \<Rightarrow>
        if jt_started t ! j = None
        then t\<lparr>jt_started := (jt_started t)[j := Some (jt_clock t)], jt_output := jt_output t @ [first]\<rparr>
        else if job_due jobs t j then t\<lparr>jt_output := jt_output t @ [second]\<rparr>
        else t)"

definition job_turn :: "(nat, 'st) stream_api \<Rightarrow> test_jobs \<Rightarrow> 'st job_test \<Rightarrow> 'st job_test \<times> polled" where
  "job_turn api jobs t =
     (case runner_turn api (job_due jobs t) (jt_runner t) of
        (r, polled, res) \<Rightarrow> (foldl (job_polled jobs) (t\<lparr>jt_runner := r\<rparr>) polled, res))"

fun job_turns :: "(nat, 'st) stream_api \<Rightarrow> test_jobs \<Rightarrow> nat \<Rightarrow> 'st job_test \<Rightarrow> 'st job_test" where
  "job_turns api jobs 0 t = t"
| "job_turns api jobs (Suc k) t =
     (case job_turn api jobs t of (t', res) \<Rightarrow> if res = Item then job_turns api jobs k t' else t')"

definition job_tick :: "(nat, 'st) stream_api \<Rightarrow> test_jobs \<Rightarrow> 'st job_test \<Rightarrow> 'st job_test" where
  "job_tick api jobs t = job_turns api jobs (Suc (length jobs)) (t\<lparr>jt_clock := jt_clock t + 100\<rparr>)"

definition test_runner :: "(nat, 'st) stream_api \<Rightarrow> usize \<Rightarrow> test_jobs \<Rightarrow> nat list \<Rightarrow> bool" where
  "test_runner api n jobs expected \<longleftrightarrow>
     (case runner_new api True n of
        Panic \<Rightarrow> False
      | Returns r \<Rightarrow>
          let r = foldl (\<lambda>r j. runner_add api j r) r [0..<length jobs];
              t = job_turns api jobs (Suc (length jobs)) \<lparr>jt_runner = r, jt_clock = 0, jt_started = map (\<lambda>_. None) jobs, jt_output = []\<rparr>;
              t = foldl (\<lambda>t _. job_tick api jobs t) t [0..<8];
              r = runner_dispose api (jt_runner t)
          in jt_output t = expected \<and> \<not> is_disposed r \<and> is_disposed (jt_runner (job_tick api jobs (t\<lparr>jt_runner := r\<rparr>))))"

definition test_1 :: "(nat, 'st) stream_api \<Rightarrow> bool" where
  "test_1 api \<longleftrightarrow> test_runner api 1 [(1, 500, 2), (3, 100, 4), (5, 200, 6)] [1, 2, 3, 4, 5, 6]"

definition test_3 :: "(nat, 'st) stream_api \<Rightarrow> bool" where
  "test_3 api \<longleftrightarrow> test_runner api 3 [(1, 500, 6), (2, 100, 4), (3, 200, 5)] [1, 2, 3, 4, 5, 6]"

lemma runner_tests: "test_1 list_stream" "test_3 list_stream"
  by code_simp+

text \<open>\<open>common/src/crypto.rs\<close>, with the exchange and the cipher of the witnesses.\<close>

definition test_dec_enc :: "crypto_api \<Rightarrow> (nat \<Rightarrow> bytes option) \<Rightarrow> bytes \<Rightarrow> bool" where
  "test_dec_enc c getrandom sk0 \<longleftrightarrow>
     (case e2e_new c getrandom (dh_public c sk0) of
        Inl _ \<Rightarrow> False
      | Inr e2e1 \<Rightarrow>
          let e2e0 = e2e_new_with_secret c (my_public e2e1) sk0;
              through = (\<lambda>a b. case e2e_encrypt c getrandom a (as_bytes ''testtest'') of
                                 Inl _ \<Rightarrow> False
                               | Inr enc \<Rightarrow> e2e_decrypt c b enc = Returns (Ok (as_bytes ''testtest'')))
          in shared_secret e2e0 = shared_secret e2e1 \<and> through e2e0 e2e1 \<and> through e2e1 e2e0)"

lemma crypto_test: "test_dec_enc example_crypto (\<lambda>n. Some (replicate n 7)) (replicate 32 3)"
  by code_simp

lemma tool_tests: "test_is_expired" "test_url_join" "test_with_log" "test_brotli example_codec"
  by code_simp+

lemma mock_test: "11000 \<le> real \<Longrightarrow> test_mock real"
proof -
  assume r: "11000 \<le> real"
  then have "real \<noteq> 0" "real \<noteq> 10000" by (auto simp: word_le_nat_alt)
  moreover have "11 \<le> unat real div 1000" using r by (simp add: word_le_nat_alt)
  then have "real div 1000 \<noteq> 0" "real div 1000 \<noteq> 10" by (auto simp: unat_div dest!: arg_cong [where f = unat])
  ultimately show ?thesis
    by (simp add: test_mock_def set_mock_now_def clear_mock_now_def mock_now_msec_def mock_now_sec_def)
qed

section \<open>Worlds\<close>

text \<open>\<open>hubserv/src/state/url_data.rs\<close>.\<close>

definition zero_sid :: session_id where "zero_sid = replicate 32 0"
definition one_sid :: session_id where "one_sid = replicate 32 1"

definition new_empty :: url_data where
  "new_empty = \<lparr>ud_clients = [], ud_client_count = 1, ud_routing_info_updated = 0,
     ud_routing_info = create_default_routing_info\<rparr>"

definition relations_of :: "url_data \<Rightarrow> routing_info list" where
  "relations_of ud = the (get_relations (ud_routing_info ud))"

definition test_update_routing_info_if_needed :: "int \<Rightarrow> bool" where
  "test_update_routing_info_if_needed now \<longleftrightarrow>
     (let ud = new_empty; ud' = update_routing_info_if_needed Map.empty now ud
      in ud_routing_info_updated ud = 0 \<and> relations_of ud = [] \<and>
         ud_routing_info_updated ud' \<noteq> 0 \<and> relations_of ud' = [])"

definition counting :: "session_id \<Rightarrow> u32 \<Rightarrow> client_data" where
  "counting i n = set_routing_info (client_data_new i 0 '''')
     (RoutingInfo 0 (Some i) None None (Some (Count n)) [] False)"

definition test_update_routing_info :: "int \<Rightarrow> bool" where
  "test_update_routing_info now \<longleftrightarrow>
     (let store = [0 \<mapsto> counting zero_sid 1, 1 \<mapsto> counting one_sid 3];
          ud = new_empty\<lparr>ud_client_count := 2, ud_clients := [0, 1]\<rparr>;
          ud' = update_routing_info_if_needed store now ud
      in ud_routing_info_updated ud' \<noteq> 0 \<and> map get_relation_count (relations_of ud') = [1, 3])"

definition test_add_remove_connection :: "sid_api \<Rightarrow> bool" where
  "test_add_remove_connection api \<longleftrightarrow>
     (let store = [0 \<mapsto> client_data_new zero_sid 0 '''', 1 \<mapsto> client_data_new one_sid 0 ''''];
          ud1 = fst (url_add_connection None 0 (new_empty\<lparr>ud_client_count := 0\<rparr>));
          ud2 = fst (url_add_connection None 1 ud1);
          ud3 = url_remove_connection api store zero_sid ud2;
          ud4 = url_remove_connection api store one_sid ud3;
          sids = (\<lambda>ud. map (sid_of store) (ud_clients ud))
      in sids ud1 = [zero_sid] \<and> sids ud2 = [zero_sid, one_sid] \<and> sids ud3 = [one_sid] \<and> sids ud4 = [])"

definition reporting :: "session_id \<Rightarrow> client_data" where
  "reporting i = set_routing_info (client_data_new i 0 '''') (RoutingInfo 0 (Some i) None None None [] False)"

definition test_add_remove_connection2 :: "sid_api \<Rightarrow> bool" where
  "test_add_remove_connection2 api \<longleftrightarrow>
     (let store = [0 \<mapsto> reporting zero_sid, 1 \<mapsto> reporting one_sid];
          ud1 = fst (url_add_connection None 0 (new_empty\<lparr>ud_client_count := 0\<rparr>));
          ud2 = update_routing_info store (fst (url_add_connection None 1 ud1));
          ud3 = url_remove_connection api store zero_sid ud2;
          ud4 = url_remove_connection api store one_sid ud3
      in length (ud_clients ud2) = 2 \<and> ri_node_type_of (ud_routing_info ud2) = Tracker \<and>
         map ri_session_id (relations_of ud2) = [Some zero_sid, Some one_sid] \<and>
         length (relations_of ud3) = 1 \<and> ud_clients ud4 = [] \<and>
         ri_node_type_of (ud_routing_info ud4) = Tracker \<and> relations_of ud4 = [])"

lemma world_tests: "test_update_routing_info_if_needed 1700000000" "test_update_routing_info 1700000000"
  "test_add_remove_connection example_sid_api" "test_add_remove_connection2 example_sid_api"
  by code_simp+

section \<open>Requests\<close>

text \<open>\<open>hubserv/src/types.rs\<close>; the parser puts the missing path in, as that of the \<open>url\<close> crate does.\<close>

definition test_url_parser :: url_parser where
  "test_url_parser s =
     (let r = drop 8 s;
          h = takeWhile (\<lambda>c. c \<notin> set ''/?#'') r;
          p = takeWhile (\<lambda>c. c \<notin> set ''?#'') (dropWhile (\<lambda>c. c \<notin> set ''/?#'') r)
      in if prefix ''https://'' s \<and> h \<noteq> []
         then Some \<lparr>pu_scheme = ''https'', pu_host = Some h, pu_path = if p = [] then ''/'' else p\<rparr>
         else None)"

definition ideographic_space :: string where
  "ideographic_space = [CHR 0xE3, CHR 0x80, CHR 0x80]"

definition test_normalize_url :: bool where
  "test_normalize_url \<longleftrightarrow>
     (let n = normalize_url test_url_parser; sp = ideographic_space
      in n ''https://example.com'' = ''https://example.com'' \<and>
         n ''https://example.com/'' = ''https://example.com'' \<and>
         n '' https://example.com/ '' = ''https://example.com'' \<and>
         n (sp @ ''https://example.com/'' @ sp @ sp @ sp) = ''https://example.com'' \<and>
         n ''https://example.com/index.html'' = ''https://example.com/index.html'' \<and>
         n ''https://example.com/index.html?a=1'' = ''https://example.com/index.html'' \<and>
         n ''https://example.com/index.html?#hash'' = ''https://example.com/index.html'')"

lemma request_tests: "test_normalize_url"
  by code_simp

text \<open>
  A request is signed by \<open>sign\<close> in the name of the session \<open>sid\<close>, whose text is \<open>sid_text\<close>. The test is
  passed with every session crate that accepts what is signed with it, and every JSON that reads what it
  writes; the field \<open>raw_url\<close> is not written.
\<close>

definition test_signed_request ::
  "sid_api \<Rightarrow> (bytes list \<Rightarrow> bytes \<times> bytes) \<Rightarrow> session_id \<Rightarrow> string \<Rightarrow> (enter_request_payload \<Rightarrow> string) \<Rightarrow>
     (string \<Rightarrow> enter_request_payload option) \<Rightarrow> bool \<Rightarrow> bool" where
  "test_signed_request api sign sid sid_text to_json from_json warn_enabled \<longleftrightarrow>
     (let u = ''https://example.com''; payload = \<lparr>pl_url = u, pl_sdp = \<lparr>sdp_type = [], sdp = []\<rparr>, pl_raw_url = u\<rparr>;
          payload_str = to_json payload;
          req = \<lparr>sr_session_id = sid_text, sr_sign = sign [as_bytes payload_str], sr_payload = payload_str\<rparr>
      in case verify api from_json (enter_normalize test_url_parser warn_enabled) req of
           Returns (Inr (i, p1)) \<Rightarrow> i = sid \<and> pl_url p1 = pl_url payload
         | _ \<Rightarrow> False)"

lemma signed_request_test:
  assumes "sid_parse api sid_text = Some sid" "\<And>chunks. sid_verify api sid chunks (sign chunks)"
    and "\<And>p. from_json (to_json p) = Some (p\<lparr>pl_raw_url := []\<rparr>)"
  shows "test_signed_request api sign sid sid_text to_json from_json w"
proof -
  have "normalize_url test_url_parser ''https://example.com'' = ''https://example.com''" by code_simp
  then show ?thesis
    by (simp add: test_signed_request_def verify_def enter_normalize_def assms MAX_URL_LEN_def Let_def)
qed

section \<open>Connections\<close>

text \<open>\<open>hubserv/src/state.rs\<close>.\<close>

definition test_sid :: "u8 \<Rightarrow> session_id" where
  "test_sid v = v # replicate 31 0"

definition enter_test :: "u8 \<Rightarrow> string \<Rightarrow> server_state \<Rightarrow> server_state" where
  "enter_test n u s =
     (let (s, r) = alloc_client (client_data_new (test_sid n) 0 u) s in fst (add_connection r s))"

definition test_state_connections :: "sid_api \<Rightarrow> bool" where
  "test_state_connections api \<longleftrightarrow>
     (let u1 = ''https://example.domain/1''; u2 = ''https://example.domain/2''; u3 = ''https://example.domain/3'';
          s0 = state_new (Some 3) (Some 2) 10 [] (Some ''/dev/null'') None None;
          s1 = enter_test 1 u1 s0; s2 = enter_test 2 u1 s1; s3 = enter_test 3 u3 s2;
          s4 = remove_connection api (test_sid 3) s3; s5 = remove_connection api (test_sid 2) s4;
          free = (\<lambda>u s. is_new_connection_available u s)
      in free u1 s1 \<and> \<not> free u1 s2 \<and> free u2 s2 \<and> \<not> free u1 s3 \<and> \<not> free u2 s3 \<and> \<not> free u3 s3 \<and>
         \<not> free u1 s4 \<and> free u2 s4 \<and> free u3 s4 \<and> free u1 s5)"

lemma connection_tests: "test_state_connections example_sid_api"
  by code_simp

end
